(* ===== verification/Prelude.thy ===== *)
theory Prelude
  imports Main "HOL-Library.Char_ord" "HOL-Library.List_Lexorder"
begin

text \<open>
  Shared vocabulary of the cfproxy development: Python exceptions as values, the
  state-and-exception programs in which effectful functions are written, the operations of
  Python's \<^verbatim>\<open>str\<close> that the sources call, and JSON values with Python's truth value,
  dictionary access and equality.

  Strings are \<^typ>\<open>string\<close>: the code points U+0000 to U+00FF, on which the character
  classes and case mappings below are Python's. Everything the sources do with text that
  needs larger Unicode tables (the non-ASCII path of the IDNA codec) is a parameter of the
  definitions that use it.
\<close>

named_theorems pystr_simps \<open>equations and characterisations of the string operations\<close>
named_theorems prog_simps \<open>evaluation of state-and-exception programs\<close>
named_theorems keeps_intros \<open>rules that a program keeps a predicate of the state\<close>
named_theorems emits_intros \<open>rules that a program only adds events of a kind to the trace\<close>

section \<open>Exceptions and results\<close>

text \<open>
  The exceptions the sources raise, or let through from a call. Python's
  \<^verbatim>\<open>UnicodeError\<close> and \<^verbatim>\<open>json.JSONDecodeError\<close> are subclasses of
  \<^verbatim>\<open>ValueError\<close>, which matters where a handler catches the latter. \<open>Diverges\<close> is not an
  exception of Python: a loop model that has used up its fuel ends in it, and the components
  prove when a loop does not.
\<close>

datatype exn =
    ValueError string
  | UnicodeError
  | JSONDecodeError
  | TypeError
  | AttributeError
  | KeyError
  | RuntimeError string
  | NotFoundError string
  | LockUnavailable
  | IntegrityError
  | OperationalError
  | ProgrammingError
  | RedisError
  | InvalidToken
  | HTTPStatusError int
  | HTTPError
  | HTTPException int int string
  | NoResultFound
  | PyJWTError
  | VerifyMismatchError
  | Diverges

fun is_ValueError :: "exn \<Rightarrow> bool" where
  "is_ValueError (ValueError _) = True"
| "is_ValueError UnicodeError = True"
| "is_ValueError JSONDecodeError = True"
| "is_ValueError _ = False"

type_synonym 'a res = "exn + 'a"

definition bind_res :: "'a res \<Rightarrow> ('a \<Rightarrow> 'b res) \<Rightarrow> 'b res" where
  "bind_res r f = (case r of Inl e \<Rightarrow> Inl e | Inr x \<Rightarrow> f x)"

lemma bind_res_simps [simp, prog_simps]:
  "bind_res (Inl e) f = Inl e"
  "bind_res (Inr x) f = f x"
  by (simp_all add: bind_res_def)

lemma bind_res_Inr_iff [prog_simps]:
  "bind_res r f = Inr y \<longleftrightarrow> (\<exists>x. r = Inr x \<and> f x = Inr y)"
  by (cases r) simp_all

lemma bind_res_Inl_iff:
  "bind_res r f = Inl e \<longleftrightarrow> r = Inl e \<or> (\<exists>x. r = Inr x \<and> f x = Inl e)"
  by (cases r) simp_all

lemma bind_res_assoc:
  "bind_res (bind_res r f) g = bind_res r (\<lambda>x. bind_res (f x) g)"
  by (cases r) simp_all

section \<open>Programs over a state\<close>

text \<open>
  An effectful function maps a state to a result and a new state. A raised exception
  keeps the effects that happened before it, as in Python.
\<close>

type_synonym ('s, 'a) prog = "'s \<Rightarrow> 'a res \<times> 's"

definition return :: "'a \<Rightarrow> ('s, 'a) prog" where
  "return x = (\<lambda>s. (Inr x, s))"

definition raise :: "exn \<Rightarrow> ('s, 'a) prog" where
  "raise e = (\<lambda>s. (Inl e, s))"

definition bind :: "('s, 'a) prog \<Rightarrow> ('a \<Rightarrow> ('s, 'b) prog) \<Rightarrow> ('s, 'b) prog" where
  "bind m f = (\<lambda>s. case m s of (Inl e, t) \<Rightarrow> (Inl e, t) | (Inr x, t) \<Rightarrow> f x t)"

definition lift :: "'a res \<Rightarrow> ('s, 'a) prog" where
  "lift r = (\<lambda>s. (r, s))"

definition gets :: "('s \<Rightarrow> 'a) \<Rightarrow> ('s, 'a) prog" where
  "gets f = (\<lambda>s. (Inr (f s), s))"

definition modify :: "('s \<Rightarrow> 's) \<Rightarrow> ('s, unit) prog" where
  "modify f = (\<lambda>s. (Inr (), f s))"

text \<open>\<^verbatim>\<open>try: m except e: h e\<close>; the handler sees the state at the point of the raise.\<close>

definition catch :: "('s, 'a) prog \<Rightarrow> (exn \<Rightarrow> ('s, 'a) prog) \<Rightarrow> ('s, 'a) prog" where
  "catch m h = (\<lambda>s. case m s of (Inl e, t) \<Rightarrow> h e t | (Inr x, t) \<Rightarrow> (Inr x, t))"

lemma return_app [simp, prog_simps]: "return x s = (Inr x, s)"
  by (simp add: return_def)

lemma raise_app [simp, prog_simps]: "raise e s = (Inl e, s)"
  by (simp add: raise_def)

lemma lift_app [simp, prog_simps]: "lift r s = (r, s)"
  by (simp add: lift_def)

lemma gets_app [simp, prog_simps]: "gets f s = (Inr (f s), s)"
  by (simp add: gets_def)

lemma modify_app [simp, prog_simps]: "modify f s = (Inr (), f s)"
  by (simp add: modify_def)

lemma bind_app [prog_simps]:
  "bind m f s = (case m s of (Inl e, t) \<Rightarrow> (Inl e, t) | (Inr x, t) \<Rightarrow> f x t)"
  by (simp add: bind_def)

lemma bind_simps [simp]:
  "bind (return x) f = f x"
  "bind (raise e) f = raise e"
  "bind (lift (Inl e)) f = raise e"
  "bind (lift (Inr x)) f = f x"
  by (simp_all add: bind_def return_def raise_def lift_def)

lemma bind_stepR: "m s = (Inr x, t) \<Longrightarrow> bind m f s = f x t"
  by (simp add: bind_def)

lemma bind_stepL: "m s = (Inl e, t) \<Longrightarrow> bind m f s = (Inl e, t)"
  by (simp add: bind_def)

lemma bind_Inr_iff:
  "bind m f s = (Inr y, u) \<longleftrightarrow> (\<exists>x t. m s = (Inr x, t) \<and> f x t = (Inr y, u))"
  by (auto simp: bind_def split: prod.splits sum.splits)

lemma bind_InrE:
  assumes "bind m f s = (Inr y, u)"
  obtains x t where "m s = (Inr x, t)" and "f x t = (Inr y, u)"
  using assms by (auto simp: bind_Inr_iff)

lemma catch_app [prog_simps]:
  "catch m h s = (case m s of (Inl e, t) \<Rightarrow> h e t | (Inr x, t) \<Rightarrow> (Inr x, t))"
  by (simp add: catch_def)

text \<open>From the evaluation of a run to its result\<close>

lemma ran_ok: "case fst p of Inl e \<Rightarrow> False | Inr y \<Rightarrow> True \<Longrightarrow> \<exists>y t. p = (Inr y, t)"
  by (cases p; cases "fst p") auto

subsection \<open>Programs that keep a predicate of the state\<close>

text \<open>
  \<open>keeps P m\<close>: from any state in which \<open>P\<close> holds, \<open>P\<close> holds after \<open>m\<close>, whether \<open>m\<close>
  returns or raises. The invariants of the components are proved with it, one rule per
  way of building a program.
\<close>

definition keeps :: "('s \<Rightarrow> bool) \<Rightarrow> ('s, 'a) prog \<Rightarrow> bool" where
  "keeps P m \<longleftrightarrow> (\<forall>s. P s \<longrightarrow> P (snd (m s)))"

lemma keepsI: "(\<And>s. P s \<Longrightarrow> P (snd (m s))) \<Longrightarrow> keeps P m"
  by (simp add: keeps_def)

lemma keepsD: "keeps P m \<Longrightarrow> P s \<Longrightarrow> m s = (r, t) \<Longrightarrow> P t"
  by (metis keeps_def snd_conv)

lemma keeps_return [keeps_intros]: "keeps P (return x)"
  by (simp add: keeps_def)

lemma keeps_raise [keeps_intros]: "keeps P (raise e)"
  by (simp add: keeps_def)

lemma keeps_lift [keeps_intros]: "keeps P (lift r)"
  by (simp add: keeps_def)

lemma keeps_gets [keeps_intros]: "keeps P (gets f)"
  by (simp add: keeps_def)

lemma keeps_bind [keeps_intros]:
  assumes m: "keeps P m" and f: "\<And>x. keeps P (f x)"
  shows "keeps P (bind m f)"
proof (rule keepsI)
  fix s assume "P s"
  with m f show "P (snd (bind m f s))"
    by (auto simp: bind_def keeps_def split: prod.splits sum.splits)
qed

lemma keeps_catch [keeps_intros]:
  assumes m: "keeps P m" and h: "\<And>e. keeps P (h e)"
  shows "keeps P (catch m h)"
proof (rule keepsI)
  fix s assume "P s"
  with m h show "P (snd (catch m h s))"
    by (auto simp: catch_def keeps_def split: prod.splits sum.splits)
qed

lemma keeps_if [keeps_intros]: "keeps P m \<Longrightarrow> keeps P n \<Longrightarrow> keeps P (if b then m else n)"
  by simp

lemma keeps_option [keeps_intros]:
  "keeps P m \<Longrightarrow> (\<And>x. keeps P (f x)) \<Longrightarrow> keeps P (case q of None \<Rightarrow> m | Some x \<Rightarrow> f x)"
  by (cases q) simp_all

lemma keeps_let [keeps_intros]: "keeps P (f x) \<Longrightarrow> keeps P (let y = x in f y)"
  by simp

lemma keeps_prod [keeps_intros]: "(\<And>a b. keeps P (f a b)) \<Longrightarrow> keeps P (case p of (a, b) \<Rightarrow> f a b)"
  by (cases p) simp

lemma keeps_modify: "(\<And>s. P s \<Longrightarrow> P (f s)) \<Longrightarrow> keeps P (modify f)"
  by (simp add: keeps_def)

end
