(* ===== verification/PyStr.thy ===== *)
theory PyStr
  imports Prelude
begin

text \<open>
  The operations of Python's \<^verbatim>\<open>str\<close> that the sources use, on code points U+0000 to
  U+00FF: \<^verbatim>\<open>strip\<close>, \<^verbatim>\<open>rstrip(c)\<close>, \<^verbatim>\<open>lower\<close>, \<^verbatim>\<open>upper\<close> on method names, \<^verbatim>\<open>split(c)\<close>,
  \<^verbatim>\<open>c.join\<close>, \<^verbatim>\<open>endswith\<close>, \<^verbatim>\<open>startswith\<close>, \<^verbatim>\<open>count(c)\<close>, \<^verbatim>\<open>isalnum\<close>, \<^verbatim>\<open>partition\<close>, decimal
  printing of integers, and the lemmas on them that the components share.
\<close>

section \<open>Definitions\<close>

text \<open>\<^verbatim>\<open>str.isspace\<close> on Latin-1: tab to carriage return, U+001C to U+0020, U+0085, U+00A0.\<close>

definition py_isspace :: "char \<Rightarrow> bool" where
  "py_isspace c =
     (let n = of_char c :: nat
      in (9 \<le> n \<and> n \<le> 13) \<or> (28 \<le> n \<and> n \<le> 32) \<or> n = 133 \<or> n = 160)"

definition rstrip_while :: "(char \<Rightarrow> bool) \<Rightarrow> string \<Rightarrow> string" where
  "rstrip_while p s = rev (dropWhile p (rev s))"

definition py_strip :: "string \<Rightarrow> string" where
  "py_strip s = rstrip_while py_isspace (dropWhile py_isspace s)"

definition py_rstrip :: "char \<Rightarrow> string \<Rightarrow> string" where
  "py_rstrip ch s = rstrip_while (\<lambda>c. c = ch) s"

text \<open>\<^verbatim>\<open>str.lower\<close> on Latin-1: A-Z and U+00C0 to U+00DE except the multiplication sign.\<close>

definition lower_char :: "char \<Rightarrow> char" where
  "lower_char c =
     (let n = of_char c :: nat
      in if (65 \<le> n \<and> n \<le> 90) \<or> (192 \<le> n \<and> n \<le> 222 \<and> n \<noteq> 215) then char_of (n + 32) else c)"

definition py_lower :: "string \<Rightarrow> string" where
  "py_lower = map lower_char"

text \<open>\<^verbatim>\<open>str.upper\<close>, used on HTTP method names, which are ASCII tokens.\<close>

definition upper_char :: "char \<Rightarrow> char" where
  "upper_char c = (let n = of_char c :: nat in if 97 \<le> n \<and> n \<le> 122 then char_of (n - 32) else c)"

definition py_upper :: "string \<Rightarrow> string" where
  "py_upper = map upper_char"

fun py_split :: "char \<Rightarrow> string \<Rightarrow> string list" where
  "py_split d [] = [[]]"
| "py_split d (c # cs) =
     (if c = d then [] # py_split d cs
      else (case py_split d cs of [] \<Rightarrow> [[c]] | w # ws \<Rightarrow> (c # w) # ws))"

fun py_join :: "char \<Rightarrow> string list \<Rightarrow> string" where
  "py_join d [] = []"
| "py_join d [w] = w"
| "py_join d (w # v # ws) = w @ d # py_join d (v # ws)"

definition py_startswith :: "string \<Rightarrow> string \<Rightarrow> bool" where
  "py_startswith s p \<longleftrightarrow> take (length p) s = p"

definition py_endswith :: "string \<Rightarrow> string \<Rightarrow> bool" where
  "py_endswith s p \<longleftrightarrow> take (length p) (rev s) = rev p"

definition py_count :: "char \<Rightarrow> string \<Rightarrow> nat" where
  "py_count c s = length (filter (\<lambda>x. x = c) s)"

definition is_ascii_char :: "char \<Rightarrow> bool" where
  "is_ascii_char c \<longleftrightarrow> (of_char c :: nat) < 128"

definition is_ascii :: "string \<Rightarrow> bool" where
  "is_ascii s \<longleftrightarrow> list_all is_ascii_char s"

text \<open>
  \<^verbatim>\<open>str.isalnum\<close> on Latin-1: letters, decimal digits, and the numeric signs U+00B2, U+00B3,
  U+00B9 and U+00BC to U+00BE. The empty string is not alphanumeric.
\<close>

definition alnum_char :: "char \<Rightarrow> bool" where
  "alnum_char c =
     (let n = of_char c :: nat
      in (48 \<le> n \<and> n \<le> 57) \<or> (65 \<le> n \<and> n \<le> 90) \<or> (97 \<le> n \<and> n \<le> 122)
         \<or> n \<in> {170, 178, 179, 181, 185, 186, 188, 189, 190}
         \<or> (192 \<le> n \<and> n \<le> 255 \<and> n \<noteq> 215 \<and> n \<noteq> 247))"

definition py_isalnum :: "string \<Rightarrow> bool" where
  "py_isalnum s \<longleftrightarrow> s \<noteq> [] \<and> list_all alnum_char s"

text \<open>\<^verbatim>\<open>before, sep, after = s.partition(c)\<close>, without the separator.\<close>

definition py_partition :: "char \<Rightarrow> string \<Rightarrow> string \<times> string" where
  "py_partition d s = (takeWhile (\<lambda>c. c \<noteq> d) s, drop 1 (dropWhile (\<lambda>c. c \<noteq> d) s))"

text \<open>
  \<^verbatim>\<open>int(s)\<close> on a string: white space around, one sign, decimal digits with single underscores
  between them.
\<close>

definition digit_val :: "char \<Rightarrow> int option" where
  "digit_val c = (let n = of_char c :: nat in if 48 \<le> n \<and> n \<le> 57 then Some (int n - 48) else None)"

fun digits_from :: "int \<Rightarrow> string \<Rightarrow> int option" where
  "digits_from acc [] = Some acc"
| "digits_from acc (c # cs) =
     (case digit_val c of
        Some d \<Rightarrow> digits_from (acc * 10 + d) cs
      | None \<Rightarrow> (if c = CHR ''_'' then
           (case cs of
              [] \<Rightarrow> None
            | c' # cs' \<Rightarrow> (case digit_val c' of None \<Rightarrow> None | Some d \<Rightarrow> digits_from (acc * 10 + d) cs'))
         else None))"

definition digits_val :: "string \<Rightarrow> int option" where
  "digits_val s = (case s of [] \<Rightarrow> None
     | c # cs \<Rightarrow> (case digit_val c of None \<Rightarrow> None | Some d \<Rightarrow> digits_from d cs))"

definition py_int :: "string \<Rightarrow> int res" where
  "py_int s =
     (let t = py_strip s;
          v = (case t of [] \<Rightarrow> None
             | c # cs \<Rightarrow> if c = CHR ''-'' then map_option uminus (digits_val cs)
                       else if c = CHR ''+'' then digits_val cs
                       else digits_val t)
      in case v of None \<Rightarrow> Inl (ValueError ''invalid literal for int()'') | Some n \<Rightarrow> Inr n)"

text \<open>\<^verbatim>\<open>str(n)\<close> for an integer.\<close>

definition digit_char :: "nat \<Rightarrow> char" where
  "digit_char n = char_of (48 + n)"

fun nat_str :: "nat \<Rightarrow> string" where
  "nat_str n = (if n < 10 then [digit_char n] else nat_str (n div 10) @ [digit_char (n mod 10)])"

text \<open>
  \<^verbatim>\<open>repr\<close> of a \<^verbatim>\<open>str\<close>: the kind of quote, the escapes, and \<^verbatim>\<open>\x\<close> with two
  hexadecimal digits for what Python does not print.
\<close>

definition hex_digit :: "nat \<Rightarrow> char" where
  "hex_digit n = (if n < 10 then digit_char n else char_of (87 + n))"

definition unprintable :: "char \<Rightarrow> bool" where
  "unprintable c \<longleftrightarrow> (let n = of_char c :: nat in n < 32 \<or> (127 \<le> n \<and> n \<le> 160) \<or> n = 173)"

definition repr_char :: "char \<Rightarrow> char \<Rightarrow> string" where
  "repr_char quote c =
     (if c = quote \<or> c = CHR 0x5C then [CHR 0x5C, c]
      else if c = CHR 0x09 then [CHR 0x5C, CHR ''t'']
      else if c = CHR 0x0A then [CHR 0x5C, CHR ''n'']
      else if c = CHR 0x0D then [CHR 0x5C, CHR ''r'']
      else if unprintable c then [CHR 0x5C, CHR ''x'', hex_digit (of_char c div 16), hex_digit (of_char c mod 16)]
      else [c])"

definition py_repr :: "string \<Rightarrow> string" where
  "py_repr s =
     (let quote = (if CHR 0x27 \<in> set s \<and> CHR 0x22 \<notin> set s then CHR 0x22 else CHR 0x27)
      in quote # concat (map (repr_char quote) s) @ [quote])"

declare nat_str.simps [simp del]

definition int_str :: "int \<Rightarrow> string" where
  "int_str i = (if i < 0 then CHR ''-'' # nat_str (nat (- i)) else nat_str (nat i))"

section \<open>Stripping\<close>

lemma rstrip_while_id [pystr_simps]:
  "(s = [] \<or> \<not> p (last s)) \<Longrightarrow> rstrip_while p s = s"
  by (cases s rule: rev_cases) (auto simp: rstrip_while_def)

lemma rstrip_while_snoc [pystr_simps]:
  "rstrip_while p (s @ [c]) = (if p c then rstrip_while p s else s @ [c])"
  by (simp add: rstrip_while_def)

lemma rstrip_while_append:
  assumes "rstrip_while p s \<noteq> []"
  shows "rstrip_while p (t @ s) = t @ rstrip_while p s"
proof -
  from assms obtain x where "x \<in> set (rev s)" "\<not> p x"
    by (auto simp: rstrip_while_def dropWhile_eq_Nil_conv)
  then have "dropWhile p (rev s @ rev t) = dropWhile p (rev s) @ rev t"
    by (rule dropWhile_append1)
  then show ?thesis by (simp add: rstrip_while_def)
qed

lemma set_rstrip_while: "set (rstrip_while p s) \<subseteq> set s"
  unfolding rstrip_while_def by (metis set_dropWhileD set_rev subsetI)

lemma last_rstrip_while: "rstrip_while p s \<noteq> [] \<Longrightarrow> \<not> p (last (rstrip_while p s))"
  unfolding rstrip_while_def by (metis hd_dropWhile last_rev rev_is_Nil_conv)

lemma py_strip_no_space: "list_all (\<lambda>c. \<not> py_isspace c) s \<Longrightarrow> py_strip s = s"
proof -
  assume ns: "list_all (\<lambda>c. \<not> py_isspace c) s"
  have "dropWhile py_isspace s = s"
    using ns by (cases s) auto
  moreover have "rstrip_while py_isspace s = s"
  proof (rule rstrip_while_id)
    show "s = [] \<or> \<not> py_isspace (last s)"
      using ns by (cases s rule: rev_cases) auto
  qed
  ultimately show ?thesis by (simp add: py_strip_def)
qed

lemma py_rstrip_id [pystr_simps]: "(s = [] \<or> last s \<noteq> ch) \<Longrightarrow> py_rstrip ch s = s"
  unfolding py_rstrip_def by (rule rstrip_while_id)

lemma py_rstrip_snoc: "py_rstrip ch (s @ [ch]) = py_rstrip ch s"
  by (simp add: py_rstrip_def rstrip_while_snoc)

lemma py_rstrip_last: "py_rstrip ch s \<noteq> [] \<Longrightarrow> last (py_rstrip ch s) \<noteq> ch"
  unfolding py_rstrip_def using last_rstrip_while by force

lemma set_py_rstrip: "set (py_rstrip ch s) \<subseteq> set s"
  by (simp add: py_rstrip_def set_rstrip_while)

section \<open>Case mapping\<close>

lemma of_lower_char:
  "(of_char (lower_char c) :: nat) =
     (let n = of_char c :: nat
      in if (65 \<le> n \<and> n \<le> 90) \<or> (192 \<le> n \<and> n \<le> 222 \<and> n \<noteq> 215) then n + 32 else n)"
  by (auto simp: lower_char_def Let_def)

lemma char_eq_nat: "c = d \<longleftrightarrow> (of_char c :: nat) = of_char d"
  by simp

lemma lower_char_idem [simp]: "lower_char (lower_char c) = lower_char c"
  unfolding char_eq_nat [of "lower_char (lower_char c)"]
  by (simp only: of_lower_char [of "lower_char c"] of_lower_char [of c] Let_def) auto

lemma py_lower_idem [simp]: "py_lower (py_lower s) = py_lower s"
  by (simp add: py_lower_def)

lemma length_py_lower [simp]: "length (py_lower s) = length s"
  by (simp add: py_lower_def)

lemma py_lower_Nil_iff [simp]: "py_lower s = [] \<longleftrightarrow> s = []"
  by (simp add: py_lower_def)

lemma lower_char_eq_dot [simp]: "lower_char c = CHR ''.'' \<longleftrightarrow> c = CHR ''.''"
proof -
  have "lower_char c = CHR ''.'' \<longleftrightarrow> (of_char (lower_char c) :: nat) = 46"
    unfolding char_eq_nat [of "lower_char c"] by simp
  also have "\<dots> \<longleftrightarrow> (of_char c :: nat) = 46"
    by (simp add: of_lower_char Let_def)
  also have "\<dots> \<longleftrightarrow> c = CHR ''.''"
    unfolding char_eq_nat [of c] by simp
  finally show ?thesis .
qed

lemma lower_char_eq_low:
  assumes "(of_char d :: nat) < 65"
  shows "lower_char c = d \<longleftrightarrow> c = d"
proof -
  have "lower_char c = d \<longleftrightarrow> (of_char (lower_char c) :: nat) = of_char d"
    by (rule char_eq_nat)
  also have "\<dots> \<longleftrightarrow> (of_char c :: nat) = of_char d"
    using assms by (auto simp: of_lower_char Let_def)
  finally show ?thesis by (simp only: char_eq_nat [of c d])
qed

lemma py_lower_append: "py_lower (a @ b) = py_lower a @ py_lower b"
  by (simp add: py_lower_def)

lemma py_isspace_lower_char [simp]: "py_isspace (lower_char c) \<longleftrightarrow> py_isspace c"
  by (auto simp: py_isspace_def of_lower_char Let_def)

lemma last_py_lower: "s \<noteq> [] \<Longrightarrow> last (py_lower s) = lower_char (last s)"
  by (simp add: py_lower_def last_map)

section \<open>Splitting and joining\<close>

lemma py_split_not_Nil [simp]: "py_split d s \<noteq> []"
  by (cases s) (auto split: list.splits)

lemma py_split_Cons:
  obtains w ws where "py_split d s = w # ws"
  by (metis py_split_not_Nil neq_Nil_conv)

lemma py_split_other [simp]:
  "c \<noteq> d \<Longrightarrow> py_split d (c # s) = (c # hd (py_split d s)) # tl (py_split d s)"
  by (cases rule: py_split_Cons [of d s]) simp

lemma py_join_Cons: "ws \<noteq> [] \<Longrightarrow> py_join d (w # ws) = w @ d # py_join d ws"
  by (cases ws) simp_all

lemma py_join_split [simp]: "py_join d (py_split d s) = s"
proof (induction s)
  case Nil
  show ?case by simp
next
  case (Cons c s)
  obtain w ws where eq: "py_split d s = w # ws" by (rule py_split_Cons)
  with Cons.IH have "s = py_join d (w # ws)" by simp
  then show ?case using eq by (cases ws) auto
qed

lemma py_split_no_sep: "d \<notin> set s \<Longrightarrow> py_split d s = [s]"
  by (induction s) auto

lemma py_split_append_sep: "d \<notin> set s \<Longrightarrow> py_split d (s @ d # t) = s # py_split d t"
  by (induction s) auto

lemma py_split_sep: "py_split d (s @ d # t) = py_split d s @ py_split d t"
proof (induction s)
  case (Cons c s)
  obtain w ws where "py_split d s = w # ws" by (rule py_split_Cons)
  with Cons.IH show ?case by auto
qed simp

lemma py_split_join:
  assumes "ws \<noteq> []" and "\<forall>w \<in> set ws. d \<notin> set w"
  shows "py_split d (py_join d ws) = ws"
  using assms
proof (induction ws rule: list_nonempty_induct)
  case (single w)
  then show ?case by (simp add: py_split_no_sep)
next
  case (cons w ws)
  then show ?case by (simp add: py_join_Cons py_split_append_sep)
qed

lemma py_split_inj: "py_split d s = py_split d t \<longleftrightarrow> s = t"
  by (metis py_join_split)

lemma sep_not_in_split: "w \<in> set (py_split d s) \<Longrightarrow> d \<notin> set w"
proof (induction s arbitrary: w)
  case (Cons c s)
  obtain v vs where "py_split d s = v # vs" by (rule py_split_Cons)
  with Cons show ?case by (auto split: if_splits)
qed simp

lemma set_in_split: "w \<in> set (py_split d s) \<Longrightarrow> set w \<subseteq> set s"
proof (induction s arbitrary: w)
  case (Cons c s)
  obtain v vs where "py_split d s = v # vs" by (rule py_split_Cons)
  with Cons show ?case by (fastforce split: if_splits)
qed simp

lemma length_py_split: "length (py_split d s) = Suc (py_count d s)"
proof (induction s)
  case (Cons c s)
  obtain w ws where "py_split d s = w # ws" by (rule py_split_Cons)
  with Cons show ?case by (auto simp: py_count_def)
qed (simp add: py_count_def)

lemma last_py_split_Nil: "s \<noteq> [] \<Longrightarrow> last s \<noteq> d \<Longrightarrow> last (py_split d s) \<noteq> []"
proof (induction s)
  case (Cons c s)
  show ?case
  proof (cases s)
    case Nil
    with Cons show ?thesis by simp
  next
    case (Cons c' s')
    with Cons.IH Cons.prems have "last (py_split d s) \<noteq> []" by simp
    moreover obtain w ws where "py_split d s = w # ws" by (rule py_split_Cons)
    ultimately show ?thesis by (cases ws) auto
  qed
qed simp

section \<open>Prefixes and suffixes\<close>

lemma py_startswith_iff: "py_startswith s p \<longleftrightarrow> (\<exists>t. s = p @ t)"
  unfolding py_startswith_def by (metis append_eq_conv_conj append_take_drop_id)

lemma py_endswith_iff: "py_endswith s p \<longleftrightarrow> (\<exists>t. s = t @ p)"
proof
  assume "py_endswith s p"
  then have "rev s = rev p @ drop (length p) (rev s)"
    unfolding py_endswith_def by (metis append_take_drop_id)
  then show "\<exists>t. s = t @ p" by (metis rev_append rev_rev_ident)
next
  assume "\<exists>t. s = t @ p"
  then show "py_endswith s p" by (auto simp: py_endswith_def)
qed

text \<open>A name that ends in a dot and a zone has the zone's labels as its last labels.\<close>

lemma split_endswith:
  "py_endswith s (d # z) \<longleftrightarrow> (\<exists>ws. ws \<noteq> [] \<and> py_split d s = ws @ py_split d z)"
proof
  assume "py_endswith s (d # z)"
  then obtain t where "s = t @ d # z" by (auto simp: py_endswith_iff)
  then show "\<exists>ws. ws \<noteq> [] \<and> py_split d s = ws @ py_split d z"
    by (intro exI [of _ "py_split d t"]) (simp add: py_split_sep)
next
  assume "\<exists>ws. ws \<noteq> [] \<and> py_split d s = ws @ py_split d z"
  then obtain ws where ne: "ws \<noteq> []" and eq: "py_split d s = ws @ py_split d z" by blast
  have nosep: "\<forall>w \<in> set ws. d \<notin> set w"
    using eq sep_not_in_split [of _ d s] by auto
  have "py_split d (py_join d ws @ d # z) = py_split d s"
    using ne nosep eq by (simp add: py_split_sep py_split_join)
  then have "s = py_join d ws @ d # z" by (simp add: py_split_inj)
  then show "py_endswith s (d # z)" by (auto simp: py_endswith_iff)
qed

section \<open>Partition and decimal digits\<close>

lemma py_partition_append: "d \<notin> set s \<Longrightarrow> py_partition d (s @ d # t) = (s, t)"
  by (induction s) (auto simp: py_partition_def)

lemma nat_str_not_Nil [simp]: "nat_str n \<noteq> []" "[] \<noteq> nat_str n"
  by (simp_all add: nat_str.simps [of n])

lemma digit_char_inj: "m < 10 \<Longrightarrow> n < 10 \<Longrightarrow> digit_char m = digit_char n \<Longrightarrow> m = n"
  by (simp add: digit_char_def)

lemma nat_str_inj: "nat_str m = nat_str n \<Longrightarrow> m = n"
proof (induction m arbitrary: n rule: nat_str.induct)
  case (1 m)
  show ?case
  proof (cases "m < 10")
    case True
    with "1.prems" show ?thesis
      using digit_char_inj by (cases "n < 10") (auto simp: nat_str.simps [of m] nat_str.simps [of n])
  next
    case False
    with "1.prems" have n: "\<not> n < 10"
      by (auto simp: nat_str.simps [of m] nat_str.simps [of n])
    with False "1.prems" have eq: "nat_str (m div 10) = nat_str (n div 10)"
      and "digit_char (m mod 10) = digit_char (n mod 10)"
      by (auto simp: nat_str.simps [of m] nat_str.simps [of n])
    then have "m mod 10 = n mod 10" using digit_char_inj by simp
    moreover have "m div 10 = n div 10" using "1.IH" [OF False eq] .
    ultimately show ?thesis by (metis div_mult_mod_eq)
  qed
qed

lemma nat_str_digits: "c \<in> set (nat_str n) \<Longrightarrow> \<exists>k < 10. c = digit_char k"
proof (induction n rule: nat_str.induct)
  case (1 n)
  show ?case
  proof (cases "n < 10")
    case True
    with "1.prems" show ?thesis by (auto simp: nat_str.simps [of n])
  next
    case False
    with "1.prems" consider "c \<in> set (nat_str (n div 10))" | "c = digit_char (n mod 10)"
      by (auto simp: nat_str.simps [of n])
    then show ?thesis
    proof cases
      case 1
      with "1.IH" False show ?thesis by blast
    next
      case 2
      then show ?thesis by (intro exI [of _ "n mod 10"]) simp
    qed
  qed
qed

end
