(* ===== verification/Json.thy ===== *)
theory Json
  imports PyStr
begin

text \<open>
  JSON documents as the proxy sees them after \<^verbatim>\<open>json.loads\<close>, with the operations the sources
  apply to them: Python's truth value, \<^verbatim>\<open>dict.get\<close> and subscription (which raise on values
  that are not dictionaries), and Python's \<^verbatim>\<open>==\<close>. \<^verbatim>\<open>None\<close> is \<open>JNull\<close>. Numbers are integers;
  the code never computes with a fractional one.
\<close>

datatype json =
    JNull
  | JBool bool
  | JNum int
  | JStr string
  | JArr "json list"
  | JObj "(string \<times> json) list"

text \<open>\<^verbatim>\<open>bool(v)\<close>\<close>

fun truthy :: "json \<Rightarrow> bool" where
  "truthy JNull = False"
| "truthy (JBool b) = b"
| "truthy (JNum n) = (n \<noteq> 0)"
| "truthy (JStr s) = (s \<noteq> [])"
| "truthy (JArr xs) = (xs \<noteq> [])"
| "truthy (JObj kvs) = (kvs \<noteq> [])"

text \<open>\<^verbatim>\<open>v or w\<close>\<close>

definition py_or :: "json \<Rightarrow> json \<Rightarrow> json" where
  "py_or v w = (if truthy v then v else w)"

text \<open>\<^verbatim>\<open>v.get(k, default)\<close>: the default only when the key is absent; a null value is kept.\<close>

fun get_default :: "json \<Rightarrow> string \<Rightarrow> json \<Rightarrow> json res" where
  "get_default (JObj kvs) k d = Inr (case map_of kvs k of None \<Rightarrow> d | Some v \<Rightarrow> v)"
| "get_default _ k d = Inl AttributeError"

abbreviation get :: "json \<Rightarrow> string \<Rightarrow> json res" where
  "get v k \<equiv> get_default v k JNull"

text \<open>\<^verbatim>\<open>v[k]\<close>\<close>

fun subscript :: "json \<Rightarrow> string \<Rightarrow> json res" where
  "subscript (JObj kvs) k = (case map_of kvs k of None \<Rightarrow> Inl KeyError | Some v \<Rightarrow> Inr v)"
| "subscript _ k = Inl TypeError"

fun is_dict :: "json \<Rightarrow> bool" where
  "is_dict (JObj _) = True"
| "is_dict _ = False"

text \<open>
  Python's \<^verbatim>\<open>==\<close> identifies \<^verbatim>\<open>True\<close> with \<^verbatim>\<open>1\<close> and ignores the order of a dictionary's keys:
  two values are equal when their canonical forms are.
\<close>

primrec canon :: "json \<Rightarrow> json" where
  "canon JNull = JNull"
| "canon (JBool b) = JNum (if b then 1 else 0)"
| "canon (JNum n) = JNum n"
| "canon (JStr s) = JStr s"
| "canon (JArr xs) = JArr (map canon xs)"
| "canon (JObj kvs) = JObj (sort_key fst (map (map_prod id canon) kvs))"

definition py_eq :: "json \<Rightarrow> json \<Rightarrow> bool" where
  "py_eq v w \<longleftrightarrow> canon v = canon w"

definition json_opt :: "string option \<Rightarrow> json" where
  "json_opt x = (case x of None \<Rightarrow> JNull | Some s \<Rightarrow> JStr s)"

section \<open>Lemmas\<close>

lemma canon_eq_JStr [simp]: "canon v = JStr s \<longleftrightarrow> v = JStr s"
  by (cases v) auto

lemma canon_eq_JNull [simp]: "canon v = JNull \<longleftrightarrow> v = JNull"
  by (cases v) auto

lemma sort_key_Nil_iff [simp]: "sort_key f xs = [] \<longleftrightarrow> xs = []" "[] = sort_key f xs \<longleftrightarrow> xs = []"
  by (metis length_0_conv length_sort)+

lemma py_eq_refl [simp]: "py_eq v v"
  by (simp add: py_eq_def)

lemma py_eq_sym: "py_eq v w \<Longrightarrow> py_eq w v"
  by (simp add: py_eq_def)

lemma py_eq_trans: "py_eq u v \<Longrightarrow> py_eq v w \<Longrightarrow> py_eq u w"
  by (simp add: py_eq_def)

lemma py_eq_JStr [simp]: "py_eq v (JStr s) \<longleftrightarrow> v = JStr s" "py_eq (JStr s) v \<longleftrightarrow> v = JStr s"
  by (auto simp: py_eq_def dest: sym)

lemma py_eq_JNull [simp]: "py_eq v JNull \<longleftrightarrow> v = JNull" "py_eq JNull v \<longleftrightarrow> v = JNull"
  by (auto simp: py_eq_def dest: sym)

lemma get_default_Inr_iff:
  "get_default v k d = Inr w \<longleftrightarrow>
     (\<exists>kvs. v = JObj kvs \<and> w = (case map_of kvs k of None \<Rightarrow> d | Some x \<Rightarrow> x))"
  by (cases v) auto

lemma get_default_Inl_iff: "get_default v k d = Inl e \<longleftrightarrow> \<not> is_dict v \<and> e = AttributeError"
  by (cases v) auto

lemma json_opt_simps [simp]:
  "json_opt None = JNull" "json_opt (Some s) = JStr s"
  by (simp_all add: json_opt_def)

lemma json_opt_eq_simps [simp]:
  "json_opt x = JNull \<longleftrightarrow> x = None" "json_opt x = JStr s \<longleftrightarrow> x = Some s"
  by (cases x; simp)+

end
