(* ===== verification/Scope.thy ===== *)
theory Scope
  imports Json
begin

text \<open>
  \<^verbatim>\<open>authz/scope.py\<close>: canonical DNS names, validation and matching of rule patterns, the
  authorization predicate \<open>match_rules\<close> and the lock exemption. Function names are the
  source's. The parameter \<open>uni\<close> is the non-ASCII path of Python's IDNA codec (nameprep and
  punycode over the Unicode tables); on ASCII names the codec is written out in
  \<open>idna_encode\<close>.
\<close>

section \<open>Data\<close>

text \<open>
  The attributes of a \<^verbatim>\<open>ScopeRule\<close> that the predicates read; a database row extends this
  record (theory \<open>Models\<close>), an object restored from the rules cache is this record.
\<close>

record rule =
  rule_zone_id :: string
  rule_name_pattern :: "string option"
  rule_name_match :: string
  rule_record_types :: "string list"
  rule_record_ids :: "string list option"
  rule_allow_read :: bool
  rule_allow_create :: bool
  rule_allow_write :: bool
  rule_allow_delete :: bool

datatype need = Read | Create | Write | Delete

type_synonym idna = "string \<Rightarrow> string res"

section \<open>Operations\<close>

text \<open>\<^verbatim>\<open>s.encode("idna").decode("ascii")\<close>\<close>

definition idna_encode :: "idna \<Rightarrow> string \<Rightarrow> string res" where
  "idna_encode uni s =
     (if s = [] then Inr []
      else if is_ascii s then
        (let labels = py_split CHR ''.'' s
         in if list_all (\<lambda>l. 0 < length l \<and> length l < 64) (butlast labels) \<and> length (last labels) < 64
            then Inr s else Inl UnicodeError)
      else uni s)"

definition normalize_fqdn :: "idna \<Rightarrow> string \<Rightarrow> string res" where
  "normalize_fqdn uni name =
     (let stripped = py_lower (py_rstrip CHR ''.'' (py_strip name))
      in if stripped = [] then Inr stripped else idna_encode uni stripped)"

text \<open>\<^verbatim>\<open>next((i for i, x in enumerate(xs) if p(x)), None)\<close>\<close>

fun first_index :: "('a \<Rightarrow> bool) \<Rightarrow> 'a list \<Rightarrow> nat option" where
  "first_index p [] = None"
| "first_index p (x # xs) = (if p x then Some 0 else map_option Suc (first_index p xs))"

definition validate_name_pattern :: "idna \<Rightarrow> string \<Rightarrow> string \<Rightarrow> string \<Rightarrow> unit res" where
  "validate_name_pattern uni pattern name_match zone_name =
     (if name_match \<noteq> ''exact'' \<and> name_match \<noteq> ''wildcard'' then Inl (ValueError (''unknown name_match: '' @ py_repr name_match))
      else bind_res (normalize_fqdn uni zone_name) (\<lambda>zone.
        if name_match = ''exact'' then
          (if CHR ''*'' \<in> set pattern then Inl (ValueError (''exact name_pattern must not contain '' @ py_repr ''*''))
           else bind_res (if pattern = ''@'' then Inr zone else normalize_fqdn uni pattern) (\<lambda>candidate.
             if candidate \<noteq> zone \<and> \<not> py_endswith candidate (CHR ''.'' # zone)
             then Inl (ValueError (''name_pattern '' @ py_repr pattern @ '' does not end in zone '' @ py_repr zone_name)) else Inr ()))
        else if py_count CHR ''*'' pattern \<noteq> 1
          then Inl (ValueError (''wildcard name_pattern must contain exactly one '' @ py_repr ''*''))
        else
          (let labels = py_split CHR ''.'' pattern
           in case first_index (\<lambda>l. CHR ''*'' \<in> set l) labels of
                None \<Rightarrow> Inl (RuntimeError ''StopIteration'')
              | Some i \<Rightarrow>
                  if labels ! i \<noteq> ''*'' then Inl (ValueError (py_repr ''*'' @ '' must occupy a whole label, got '' @ py_repr (labels ! i)))
                  else
                    (let remainder = py_join CHR ''.'' (take i labels @ drop (Suc i) labels)
                     in bind_res (if remainder \<noteq> [] then normalize_fqdn uni remainder else Inr []) (\<lambda>rn.
                          if rn \<noteq> zone \<and> \<not> py_endswith rn (CHR ''.'' # zone)
                          then Inl (ValueError (''wildcard name_pattern '' @ py_repr pattern @ '' does not end in zone '' @ py_repr zone_name))
                          else Inr ())))))"

text \<open>The loop of the wildcard branch: labels compared in order, the star's position skipped.\<close>

fun labels_match :: "nat \<Rightarrow> nat \<Rightarrow> string list \<Rightarrow> string list \<Rightarrow> bool" where
  "labels_match i star (p # ps) (t # ts) =
     (if i = star then labels_match (Suc i) star ps ts
      else if p \<noteq> t then False
      else labels_match (Suc i) star ps ts)"
| "labels_match i star _ _ = True"

definition name_matches :: "idna \<Rightarrow> string \<Rightarrow> string \<Rightarrow> string \<Rightarrow> bool res" where
  "name_matches uni pattern name_match target =
     bind_res (normalize_fqdn uni pattern) (\<lambda>canonical_pattern.
     bind_res (normalize_fqdn uni target) (\<lambda>canonical_target.
       if name_match = ''exact'' then Inr (canonical_pattern = canonical_target)
       else if name_match = ''wildcard'' then
         (let pattern_labels = py_split CHR ''.'' canonical_pattern;
              target_labels = py_split CHR ''.'' canonical_target
          in case first_index (\<lambda>l. l = ''*'') pattern_labels of
               None \<Rightarrow> Inr False
             | Some star \<Rightarrow>
                 if length pattern_labels \<noteq> length target_labels then Inr False
                 else Inr (labels_match 0 star pattern_labels target_labels))
       else Inr False))"

text \<open>The four tests of \<^verbatim>\<open>need\<close> against the rule's flags.\<close>

fun rule_allows :: "('a rule_scheme) \<Rightarrow> need \<Rightarrow> bool" where
  "rule_allows r Read = rule_allow_read r"
| "rule_allows r Create = rule_allow_create r"
| "rule_allows r Write = rule_allow_write r"
| "rule_allows r Delete = rule_allow_delete r"

text \<open>
  The guards of the loop body of \<open>match_rules\<close>: \<open>Inr False\<close> is a \<^verbatim>\<open>continue\<close>. The record's
  type and id come from JSON documents, so membership tests compare JSON values.
\<close>

definition rule_applies ::
  "idna \<Rightarrow> ('a rule_scheme) \<Rightarrow> string \<Rightarrow> string option \<Rightarrow> json \<Rightarrow> json \<Rightarrow> bool res" where
  "rule_applies uni r zone_id normalized_name rtype record_id =
     (if rule_zone_id r \<noteq> zone_id then Inr False
      else if \<not> (''*'' \<in> set (rule_record_types r) \<or> list_ex (\<lambda>t. rtype = JStr t) (rule_record_types r))
        then Inr False
      else if (case rule_record_ids r of None \<Rightarrow> False | Some ids \<Rightarrow>
                 ids \<noteq> [] \<and> (record_id = JNull \<or> \<not> list_ex (\<lambda>i. record_id = JStr i) ids))
        then Inr False
      else (case rule_name_pattern r of
              None \<Rightarrow> Inr True
            | Some pat \<Rightarrow>
                (case normalized_name of
                   None \<Rightarrow> Inr False
                 | Some n \<Rightarrow> name_matches uni pat (rule_name_match r) n)))"

fun match_loop ::
  "idna \<Rightarrow> ('a rule_scheme) list \<Rightarrow> string \<Rightarrow> string option \<Rightarrow> json \<Rightarrow> json \<Rightarrow> need \<Rightarrow> bool res" where
  "match_loop uni [] zone_id nn rtype record_id need = Inr False"
| "match_loop uni (r # rs) zone_id nn rtype record_id need =
     bind_res (rule_applies uni r zone_id nn rtype record_id) (\<lambda>ok.
       if ok \<and> rule_allows r need then Inr True
       else match_loop uni rs zone_id nn rtype record_id need)"

text \<open>
  \<^verbatim>\<open>normalize_fqdn(name) if name else None\<close>: a falsy name is \<^verbatim>\<open>None\<close>; a truthy value that is
  not a string has no \<^verbatim>\<open>strip\<close> and raises \<^verbatim>\<open>AttributeError\<close>.
\<close>

definition normalize_name :: "idna \<Rightarrow> json \<Rightarrow> string option res" where
  "normalize_name uni name =
     (if \<not> truthy name then Inr None
      else (case name of
              JStr s \<Rightarrow> bind_res (normalize_fqdn uni s) (\<lambda>n. Inr (Some n))
            | _ \<Rightarrow> Inl AttributeError))"

definition match_rules ::
  "idna \<Rightarrow> ('a rule_scheme) list \<Rightarrow> string \<Rightarrow> json \<Rightarrow> json \<Rightarrow> json \<Rightarrow> need \<Rightarrow> bool res" where
  "match_rules uni rules zone_id name rtype record_id need =
     bind_res (normalize_name uni name) (\<lambda>nn. match_loop uni rules zone_id nn rtype record_id need)"

definition rule_exempts :: "('a rule_scheme) \<Rightarrow> string \<Rightarrow> string option \<Rightarrow> need \<Rightarrow> bool" where
  "rule_exempts r zone_id path_record_id op =
     (rule_zone_id r = zone_id \<and> rule_name_pattern r = None \<and> rule_record_types r = [''*'']
      \<and> (case (rule_record_ids r, path_record_id) of
            (Some ids, Some i) \<Rightarrow> i \<in> set ids
          | _ \<Rightarrow> False)
      \<and> rule_allows r op)"

fun is_lock_exempt :: "('a rule_scheme) list \<Rightarrow> string \<Rightarrow> string option \<Rightarrow> need \<Rightarrow> bool" where
  "is_lock_exempt [] zone_id path_record_id op = False"
| "is_lock_exempt (r # rs) zone_id path_record_id op =
     (if rule_exempts r zone_id path_record_id op then True
      else is_lock_exempt rs zone_id path_record_id op)"

definition merge_patch_image :: "json \<Rightarrow> json \<Rightarrow> (json \<times> json) res" where
  "merge_patch_image pre body =
     bind_res (get pre ''name'') (\<lambda>pre_name.
     bind_res (get_default body ''name'' pre_name) (\<lambda>post_name.
     bind_res (get pre ''type'') (\<lambda>pre_type.
     bind_res (get_default body ''type'' pre_type) (\<lambda>post_type.
       Inr (post_name, post_type)))))"

section \<open>Label matching\<close>

lemma first_index_None_iff: "first_index p xs = None \<longleftrightarrow> (\<forall>x \<in> set xs. \<not> p x)"
  by (induction xs) auto

lemma first_index_split:
  "first_index p xs = Some i \<longleftrightarrow>
     (\<exists>ys x zs. xs = ys @ x # zs \<and> length ys = i \<and> p x \<and> (\<forall>y \<in> set ys. \<not> p y))"
proof
  assume "first_index p xs = Some i"
  then show "\<exists>ys x zs. xs = ys @ x # zs \<and> length ys = i \<and> p x \<and> (\<forall>y \<in> set ys. \<not> p y)"
  proof (induction xs arbitrary: i)
    case (Cons a xs)
    show ?case
    proof (cases "p a")
      case True
      with Cons.prems show ?thesis by (intro exI [of _ "[]"]) auto
    next
      case False
      with Cons.prems obtain j where "first_index p xs = Some j" and i: "i = Suc j" by auto
      with Cons.IH obtain ys x zs where "xs = ys @ x # zs" "length ys = j" "p x" "\<forall>y \<in> set ys. \<not> p y"
        by blast
      with False i show ?thesis by (intro exI [of _ "a # ys"]) auto
    qed
  qed simp
next
  assume "\<exists>ys x zs. xs = ys @ x # zs \<and> length ys = i \<and> p x \<and> (\<forall>y \<in> set ys. \<not> p y)"
  then obtain ys x zs where xs: "xs = ys @ x # zs" and "length ys = i" "p x" "\<forall>y \<in> set ys. \<not> p y"
    by blast
  then have "first_index p (ys @ x # zs) = Some i"
    by (induction ys arbitrary: i xs) auto
  with xs show "first_index p xs = Some i" by simp
qed

lemma labels_match_append:
  "length ps = length ts \<Longrightarrow> i + length ps \<le> star \<Longrightarrow>
   labels_match i star (ps @ ps') (ts @ ts') \<longleftrightarrow> ps = ts \<and> labels_match (i + length ps) star ps' ts'"
  by (induction ps ts arbitrary: i rule: list_induct2) auto

lemma labels_match_after:
  "length ps = length ts \<Longrightarrow> star < i \<Longrightarrow> labels_match i star ps ts \<longleftrightarrow> ps = ts"
  by (induction ps ts arbitrary: i rule: list_induct2) auto

text \<open>The loop accepts exactly the lists that agree before and after the star.\<close>

lemma labels_match_star:
  assumes "length (ys @ x # zs) = length ts"
  shows "labels_match 0 (length ys) (ys @ x # zs) ts \<longleftrightarrow> (\<exists>l. ts = ys @ l # zs)"
proof -
  obtain us l vs where ts: "ts = us @ l # vs" and len: "length us = length ys"
    using assms by (metis id_take_nth_drop length_append length_Cons length_take add_Suc_right
        less_add_Suc1 min.absorb4)
  moreover have "length vs = length zs" using assms ts len by simp
  ultimately show ?thesis
    by (auto simp: labels_match_append labels_match_after)
qed

definition wildcard_labels :: "string list \<Rightarrow> string list \<Rightarrow> bool" where
  "wildcard_labels ps ts \<longleftrightarrow>
     (\<exists>pre l post. ps = pre @ ''*'' # post \<and> ''*'' \<notin> set pre \<and> ts = pre @ l # post)"

lemma name_matches_wildcard:
  assumes "normalize_fqdn uni pattern = Inr p" and "normalize_fqdn uni target = Inr t"
  shows "name_matches uni pattern ''wildcard'' target
           = Inr (wildcard_labels (py_split CHR ''.'' p) (py_split CHR ''.'' t))"
proof (cases "first_index (\<lambda>l. l = ''*'') (py_split CHR ''.'' p)")
  case None
  then have "''*'' \<notin> set (py_split CHR ''.'' p)" by (auto simp: first_index_None_iff)
  with None assms show ?thesis by (auto simp: name_matches_def wildcard_labels_def)
next
  case (Some i)
  then obtain ys zs where p: "py_split CHR ''.'' p = ys @ ''*'' # zs" and i: "i = length ys"
    and ys: "''*'' \<notin> set ys"
    by (auto simp: first_index_split)
  have unique: "pre = ys \<and> post = zs" if "ys @ ''*'' # zs = pre @ ''*'' # post" "''*'' \<notin> set pre" for pre post
    using that ys by (auto simp: append_eq_append_conv2 Cons_eq_append_conv append_eq_Cons_conv)
  have "wildcard_labels (ys @ ''*'' # zs) ts \<longleftrightarrow> (\<exists>l. ts = ys @ l # zs)" for ts
    unfolding wildcard_labels_def using unique ys by blast
  with Some assms p i show ?thesis
    by (auto simp: name_matches_def labels_match_star Let_def)
qed

lemma name_matches_exact:
  assumes "normalize_fqdn uni pattern = Inr p" and "normalize_fqdn uni target = Inr t"
  shows "name_matches uni pattern ''exact'' target = Inr (p = t)"
  using assms by (simp add: name_matches_def)

lemma name_matches_other:
  "nm \<noteq> ''exact'' \<Longrightarrow> nm \<noteq> ''wildcard'' \<Longrightarrow> name_matches uni pattern nm target \<noteq> Inr True"
  by (auto simp: name_matches_def bind_res_Inr_iff)

lemma name_matches_normalizes:
  assumes "name_matches uni pattern nm target = Inr b"
  obtains p t where "normalize_fqdn uni pattern = Inr p" and "normalize_fqdn uni target = Inr t"
  using assms by (auto simp: name_matches_def bind_res_Inr_iff)

section \<open>The authorization predicate\<close>

lemma split_at_Cons:
  "(\<exists>pre r post. q # rs = pre @ r # post \<and> P r \<and> (\<forall>x \<in> set pre. Q x)) \<longleftrightarrow>
     P q \<or> (Q q \<and> (\<exists>pre r post. rs = pre @ r # post \<and> P r \<and> (\<forall>x \<in> set pre. Q x)))"
  (is "?L \<longleftrightarrow> P q \<or> (Q q \<and> ?R)")
proof
  assume ?L
  then obtain pre r post where *: "q # rs = pre @ r # post" "P r" "\<forall>x \<in> set pre. Q x" by blast
  then show "P q \<or> (Q q \<and> ?R)" by (cases pre) auto
next
  assume "P q \<or> (Q q \<and> ?R)"
  then show ?L
  proof
    assume "P q"
    then show ?L by (intro exI [of _ "[]"]) auto
  next
    assume "Q q \<and> ?R"
    then obtain pre r post where "Q q" "rs = pre @ r # post" "P r" "\<forall>x \<in> set pre. Q x" by blast
    then show ?L by (intro exI [of _ "q # pre"]) auto
  qed
qed

lemma match_loop_True_iff:
  "match_loop uni rules z nn ty rid need = Inr True \<longleftrightarrow>
     (\<exists>pre r post. rules = pre @ r # post
        \<and> (rule_applies uni r z nn ty rid = Inr True \<and> rule_allows r need)
        \<and> (\<forall>q \<in> set pre. \<exists>b. rule_applies uni q z nn ty rid = Inr b))"
proof (induction rules)
  case (Cons q rs)
  show ?case
    unfolding split_at_Cons Cons.IH [symmetric]
    by (cases "rule_applies uni q z nn ty rid") auto
qed simp

lemma match_loop_False_iff:
  "match_loop uni rules z nn ty rid need = Inr False \<longleftrightarrow>
     (\<forall>r \<in> set rules. \<exists>b. rule_applies uni r z nn ty rid = Inr b \<and> \<not> (b \<and> rule_allows r need))"
  by (induction rules) (auto simp: bind_res_Inr_iff)

lemma match_loop_exn:
  "match_loop uni rules z nn ty rid need = Inl e \<Longrightarrow>
     \<exists>r \<in> set rules. rule_applies uni r z nn ty rid = Inl e"
  by (induction rules) (auto simp: bind_res_Inl_iff split: if_splits)

lemma match_rules_TrueD:
  assumes "match_rules uni rules z name ty rid need = Inr True"
  obtains r nn where "r \<in> set rules" and "normalize_name uni name = Inr nn"
    and "rule_applies uni r z nn ty rid = Inr True" and "rule_allows r need"
  using assms by (force simp: match_rules_def bind_res_Inr_iff match_loop_True_iff)

lemma rule_applies_zone: "rule_applies uni r z nn ty rid = Inr True \<Longrightarrow> rule_zone_id r = z"
  by (auto simp: rule_applies_def split: if_splits)

lemma match_rules_zone:
  assumes "match_rules uni rules z name ty rid need = Inr True"
  shows "\<exists>r \<in> set rules. rule_zone_id r = z \<and> rule_allows r need"
  using match_rules_TrueD [OF assms] rule_applies_zone by metis

lemma is_lock_exempt_iff:
  "is_lock_exempt rules z i op \<longleftrightarrow> (\<exists>r \<in> set rules. rule_exempts r z i op)"
  by (induction rules) auto

lemma rule_exempts_applies:
  "rule_exempts r z (Some i) op \<Longrightarrow> rule_applies uni r z nn ty (JStr i) = Inr True \<and> rule_allows r op"
  by (auto simp: rule_exempts_def rule_applies_def list_ex_iff split: option.splits)

lemma match_rules_cong_rule:
  "match_rules uni (map rule.truncate rules) z name ty rid need = match_rules uni rules z name ty rid need"
proof -
  have "rule_applies uni (rule.truncate r) z nn ty rid = rule_applies uni r z nn ty rid" for r :: "'a rule_scheme" and nn
    by (simp add: rule_applies_def rule.truncate_def split: option.split)
  moreover have "rule_allows (rule.truncate r) n = rule_allows r n" for r :: "'a rule_scheme" and n
    by (cases n) (simp_all add: rule.truncate_def)
  ultimately have "match_loop uni (map rule.truncate rules) z nn ty rid need = match_loop uni rules z nn ty rid need" for nn
    by (induction rules) (simp_all cong del: if_weak_cong)
  then show ?thesis by (simp add: match_rules_def)
qed

section \<open>Canonical names\<close>

text \<open>Names as they appear on the wire: ASCII, no white space.\<close>

definition plain_name :: "string \<Rightarrow> bool" where
  "plain_name s \<longleftrightarrow> is_ascii s \<and> list_all (\<lambda>c. \<not> py_isspace c) s"

text \<open>The length conditions of the ASCII path of the codec.\<close>

definition idna_labels_ok :: "string \<Rightarrow> bool" where
  "idna_labels_ok s \<longleftrightarrow>
     list_all (\<lambda>l. 0 < length l \<and> length l < 64) (butlast (py_split CHR ''.'' s))
     \<and> length (last (py_split CHR ''.'' s)) < 64"

definition canonical :: "string \<Rightarrow> string" where
  "canonical s = py_lower (py_rstrip CHR ''.'' s)"

lemma is_ascii_char_lower [simp]: "is_ascii_char (lower_char c) \<longleftrightarrow> is_ascii_char c"
  by (auto simp: is_ascii_char_def of_lower_char Let_def)

lemma is_ascii_lower [simp]: "is_ascii (py_lower s) \<longleftrightarrow> is_ascii s"
  by (simp add: is_ascii_def py_lower_def list_all_iff)

lemma plain_name_lower [simp]: "plain_name (py_lower s) \<longleftrightarrow> plain_name s"
  by (simp add: plain_name_def) (simp add: py_lower_def list_all_iff)

lemma plain_name_subset: "set t \<subseteq> set s \<Longrightarrow> plain_name s \<Longrightarrow> plain_name t"
  by (auto simp: plain_name_def is_ascii_def list_all_iff)

lemma plain_name_rstrip: "plain_name s \<Longrightarrow> plain_name (py_rstrip d s)"
  by (rule plain_name_subset [OF set_py_rstrip])

lemma plain_name_append [simp]: "plain_name (s @ t) \<longleftrightarrow> plain_name s \<and> plain_name t"
  by (auto simp: plain_name_def is_ascii_def)

lemma plain_name_Nil [simp]: "plain_name []"
  by (simp add: plain_name_def is_ascii_def)

lemma canonical_plain: "plain_name s \<Longrightarrow> plain_name (canonical s)"
  by (simp add: canonical_def plain_name_rstrip)

lemma canonical_idem [simp]: "canonical (canonical s) = canonical s"
proof -
  have "py_rstrip CHR ''.'' (py_lower (py_rstrip CHR ''.'' s)) = py_lower (py_rstrip CHR ''.'' s)"
  proof (rule py_rstrip_id)
    show "py_lower (py_rstrip CHR ''.'' s) = [] \<or> last (py_lower (py_rstrip CHR ''.'' s)) \<noteq> CHR ''.''"
      by (cases "py_rstrip CHR ''.'' s = []") (simp_all add: last_py_lower py_rstrip_last)
  qed
  then show ?thesis by (simp add: canonical_def)
qed

text \<open>On plain names normalization is the canonical form, guarded by the codec's label lengths.\<close>

lemma normalize_plain:
  "plain_name s \<Longrightarrow> normalize_fqdn uni s =
     (if canonical s = [] \<or> idna_labels_ok (canonical s) then Inr (canonical s) else Inl UnicodeError)"
proof -
  assume plain: "plain_name s"
  then have "py_strip s = s" by (simp add: plain_name_def py_strip_no_space)
  moreover have "is_ascii (canonical s)"
    using canonical_plain [OF plain] by (simp add: plain_name_def)
  ultimately show ?thesis
    by (simp add: normalize_fqdn_def idna_encode_def canonical_def idna_labels_ok_def Let_def)
qed

lemma normalize_plainD:
  "plain_name s \<Longrightarrow> normalize_fqdn uni s = Inr n \<Longrightarrow>
     n = canonical s \<and> (n = [] \<or> idna_labels_ok n) \<and> plain_name n"
  by (auto simp: normalize_plain canonical_plain split: if_splits)

lemma normalize_plain_idem:
  "plain_name s \<Longrightarrow> normalize_fqdn uni s = Inr n \<Longrightarrow> normalize_fqdn uni n = Inr n"
  using normalize_plain [of n uni] normalize_plainD [of s uni n] by auto

text \<open>The labels of a canonical name are the lower-cased labels of the name without trailing dots.\<close>

lemma py_split_lower: "py_split CHR ''.'' (py_lower s) = map py_lower (py_split CHR ''.'' s)"
proof (induction s)
  case (Cons c s)
  obtain w ws where "py_split CHR ''.'' s = w # ws" by (rule py_split_Cons)
  with Cons show ?case by (auto simp: py_lower_def)
qed (simp add: py_lower_def)

lemma star_lower [simp]: "py_lower ''*'' = ''*''"
  by code_simp

lemma canonical_star_append:
  assumes "canonical rest \<noteq> []"
  shows "canonical (''*.'' @ rest) = ''*.'' @ canonical rest"
proof -
  have "py_rstrip CHR ''.'' (t @ rest) = t @ py_rstrip CHR ''.'' rest" for t
    using assms unfolding canonical_def py_rstrip_def by (simp add: rstrip_while_append)
  from this [of "''*.''"] show ?thesis
    by (simp add: canonical_def) (simp add: py_lower_def lower_char_def)
qed

section \<open>Properties\<close>

text \<open>
  What a rule grants, stated without the loop, the early exits or exceptions: the zone is the
  rule's, the type is listed or any type is, a pinned rule has the record's id, a patterned
  rule's pattern matches the canonical name, and the flag for the operation is set.
\<close>

definition grants ::
  "idna \<Rightarrow> ('a rule_scheme) \<Rightarrow> string \<Rightarrow> json \<Rightarrow> json \<Rightarrow> json \<Rightarrow> need \<Rightarrow> bool" where
  "grants uni r z name ty rid need \<longleftrightarrow>
     rule_zone_id r = z
     \<and> (''*'' \<in> set (rule_record_types r) \<or> ty \<in> JStr ` set (rule_record_types r))
     \<and> (\<forall>ids. rule_record_ids r = Some ids \<longrightarrow> ids \<noteq> [] \<longrightarrow> rid \<in> JStr ` set ids)
     \<and> (\<forall>pat. rule_name_pattern r = Some pat \<longrightarrow>
          (\<exists>n. normalize_name uni name = Inr (Some n) \<and> name_matches uni pat (rule_name_match r) n = Inr True))
     \<and> rule_allows r need"

lemma rule_applies_True_iff:
  assumes "normalize_name uni name = Inr nn"
  shows "rule_applies uni r z nn ty rid = Inr True \<and> rule_allows r need \<longleftrightarrow> grants uni r z name ty rid need"
  using assms by (auto simp: rule_applies_def grants_def list_ex_iff split: option.splits)

lemma match_rules_decides:
  assumes "match_rules uni rules z name ty rid need = Inr b"
  shows "b \<longleftrightarrow> (\<exists>r \<in> set rules. grants uni r z name ty rid need)"
proof -
  from assms obtain nn where nn: "normalize_name uni name = Inr nn"
    and loop: "match_loop uni rules z nn ty rid need = Inr b"
    by (auto simp: match_rules_def bind_res_Inr_iff)
  note grants_iff = rule_applies_True_iff [OF nn, symmetric]
  show ?thesis
  proof (cases b)
    case True
    with loop show ?thesis by (force simp: match_loop_True_iff grants_iff)
  next
    case False
    with loop have "\<forall>r \<in> set rules. \<not> (rule_applies uni r z nn ty rid = Inr True \<and> rule_allows r need)"
      by (auto simp: match_loop_False_iff)
    with False show ?thesis by (simp add: grants_iff)
  qed
qed

text \<open>
  C5: whenever \<open>match_rules\<close> returns (rather than raising), it returns True exactly when some
  rule of the token grants the operation on that record: right zone, covered record type,
  pinned id respected, name pattern matched on the canonical name, and the flag for the
  operation set. There is no other way to be authorized, and no granting rule is skipped.
\<close>

theorem match_rules_grants:
  assumes "match_rules uni rules z name ty rid need = Inr b"
  shows "b \<longleftrightarrow> (\<exists>r \<in> set rules. grants uni r z name ty rid need)"
  using assms by (rule match_rules_decides)

text \<open>
  C29: the label loop of \<open>name_matches\<close> decides exactly the intended wildcard relation: the
  canonical target has the canonical pattern's labels with the (first) star label replaced by
  one label. So a wildcard never spans a dot, never matches the name without that label (the
  apex) and never matches a name with a label more.
\<close>

theorem name_matches_wildcard_spec:
  assumes "normalize_fqdn uni pattern = Inr p" and "normalize_fqdn uni target = Inr t"
  shows "name_matches uni pattern ''wildcard'' target
           = Inr (wildcard_labels (py_split CHR ''.'' p) (py_split CHR ''.'' t))"
  using assms by (rule name_matches_wildcard)

text \<open>
  A lock-exempt mutation is escape-proof: when \<open>is_lock_exempt\<close> holds for a record id and an
  operation, \<open>match_rules\<close> denies that operation on that id for no name and no type, so no
  change of name or type that another request makes in between can turn the decision.
\<close>

theorem lock_exempt_never_denied:
  assumes "is_lock_exempt rules z (Some i) op"
  shows "match_rules uni rules z name ty (JStr i) op \<noteq> Inr False"
proof
  assume "match_rules uni rules z name ty (JStr i) op = Inr False"
  then obtain nn where "match_loop uni rules z nn ty (JStr i) op = Inr False"
    by (auto simp: match_rules_def bind_res_Inr_iff)
  moreover obtain r where "r \<in> set rules" and "rule_exempts r z (Some i) op"
    using assms by (auto simp: is_lock_exempt_iff)
  ultimately show False
    using rule_exempts_applies by (fastforce simp: match_loop_False_iff)
qed

lemma validate_exactD:
  assumes "validate_name_pattern uni pattern ''exact'' zone_name = Inr ()"
  obtains zone candidate where "normalize_fqdn uni zone_name = Inr zone"
    and "(if pattern = ''@'' then Inr zone else normalize_fqdn uni pattern) = Inr candidate"
    and "candidate = zone \<or> py_endswith candidate (CHR ''.'' # zone)"
  using assms by (auto simp: validate_name_pattern_def bind_res_Inr_iff split: if_splits)

text \<open>
  Validation of exact patterns is sound: every name that a validated exact pattern matches
  is the zone's apex or lies below it.
\<close>

theorem validated_exact_stays_in_zone:
  assumes "validate_name_pattern uni pattern ''exact'' zone_name = Inr ()" and "pattern \<noteq> ''@''"
    and "name_matches uni pattern ''exact'' target = Inr True"
  shows "\<exists>zone t. normalize_fqdn uni zone_name = Inr zone \<and> normalize_fqdn uni target = Inr t
           \<and> (t = zone \<or> py_endswith t (CHR ''.'' # zone))"
proof -
  from assms(1) obtain zone c where "normalize_fqdn uni zone_name = Inr zone"
    and "(if pattern = ''@'' then Inr zone else normalize_fqdn uni pattern) = Inr c"
    and "c = zone \<or> py_endswith c (CHR ''.'' # zone)"
    by (rule validate_exactD)
  with assms(2,3) show ?thesis
    by (auto simp: name_matches_def bind_res_Inr_iff)
qed

lemma validate_leading_wildcardD:
  assumes "validate_name_pattern uni (''*.'' @ rest) ''wildcard'' zone_name = Inr ()"
    and "normalize_fqdn uni zone_name = Inr zone" and "zone \<noteq> []"
  shows "\<exists>rn. rn \<noteq> [] \<and> normalize_fqdn uni rest = Inr rn \<and> (rn = zone \<or> py_endswith rn (CHR ''.'' # zone))"
proof -
  have labels: "py_split CHR ''.'' (''*.'' @ rest) = ''*'' # py_split CHR ''.'' rest" by simp
  then have "first_index (\<lambda>l. CHR ''*'' \<in> set l) (py_split CHR ''.'' (''*.'' @ rest)) = Some 0" by simp
  with assms(1,2) labels obtain rn
    where "(if rest \<noteq> [] then normalize_fqdn uni rest else Inr []) = Inr rn"
      and "rn = zone \<or> py_endswith rn (CHR ''.'' # zone)"
    by (auto simp: validate_name_pattern_def bind_res_Inr_iff split: if_splits)
  moreover from this assms(3) have "rn \<noteq> []" by (auto simp: py_endswith_iff)
  ultimately show ?thesis by (auto split: if_splits)
qed

text \<open>
  Validation of wildcard patterns that start with the star is sound: for a pattern
  \<^verbatim>\<open>*.rest\<close> without white space that was validated for a zone, every name it matches lies
  strictly below that zone, in particular it is never the apex.
\<close>

theorem validated_leading_wildcard_stays_below_zone:
  assumes "plain_name rest"
    and "validate_name_pattern uni (''*.'' @ rest) ''wildcard'' zone_name = Inr ()"
    and "normalize_fqdn uni zone_name = Inr zone" and "zone \<noteq> []"
    and "name_matches uni (''*.'' @ rest) ''wildcard'' target = Inr True"
  shows "\<exists>t. normalize_fqdn uni target = Inr t \<and> py_endswith t (CHR ''.'' # zone)"
proof -
  obtain rn where rn: "rn \<noteq> []" "normalize_fqdn uni rest = Inr rn"
    and zone: "rn = zone \<or> py_endswith rn (CHR ''.'' # zone)"
    using validate_leading_wildcardD [OF assms(2,3,4)] by blast
  obtain p t where p: "normalize_fqdn uni (''*.'' @ rest) = Inr p" and t: "normalize_fqdn uni target = Inr t"
    using assms(5) by (rule name_matches_normalizes)
  have "plain_name (''*.'' @ rest)" using assms(1) by (simp only: plain_name_append) code_simp
  moreover have "canonical rest = rn" using normalize_plainD [OF assms(1) rn(2)] by simp
  ultimately have "p = ''*.'' @ rn"
    using p rn(1) normalize_plainD canonical_star_append by metis
  then have "wildcard_labels (''*'' # py_split CHR ''.'' rn) (py_split CHR ''.'' t)"
    using assms(5) name_matches_wildcard [OF p t] by simp
  then obtain l where "py_split CHR ''.'' t = l # py_split CHR ''.'' rn"
    by (auto simp: wildcard_labels_def Cons_eq_append_conv)
  with zone have "\<exists>ws. ws \<noteq> [] \<and> py_split CHR ''.'' t = ws @ py_split CHR ''.'' zone"
    by (force simp: split_endswith)
  with t show ?thesis by (simp add: split_endswith)
qed

text \<open>
  Normalization on plain names (ASCII, no white space) is a canonical form: it is
  idempotent, and blind to letter case and to trailing dots. The rules' matching, which
  normalizes a record's name twice, therefore agrees with matching its canonical name.
\<close>

theorem normalize_fqdn_canonical:
  assumes "plain_name s"
  shows "normalize_fqdn uni (py_lower s) = normalize_fqdn uni s
       \<and> normalize_fqdn uni (s @ ''.'') = normalize_fqdn uni s
       \<and> (\<forall>n. normalize_fqdn uni s = Inr n \<longrightarrow> normalize_fqdn uni n = Inr n)"
proof (intro conjI allI impI)
  have low: "py_rstrip CHR ''.'' (py_lower s) = py_lower (py_rstrip CHR ''.'' s)"
    by (simp add: py_rstrip_def rstrip_while_def py_lower_def rev_map dropWhile_map comp_def)
  show "normalize_fqdn uni (py_lower s) = normalize_fqdn uni s"
    using assms by (simp add: normalize_plain canonical_def low)
  have "plain_name (s @ ''.'')" using assms by (simp only: plain_name_append) code_simp
  then show "normalize_fqdn uni (s @ ''.'') = normalize_fqdn uni s"
    using assms by (simp add: normalize_plain canonical_def py_rstrip_snoc)
  show "normalize_fqdn uni n = Inr n" if "normalize_fqdn uni s = Inr n" for n
    using assms that by (rule normalize_plain_idem)
qed

lemma normalize_at: "normalize_fqdn uni ''@'' = Inr ''@''"
  by (subst normalize_plain) code_simp+

text \<open>
  The apex marker is accepted but inert: validation accepts the exact pattern \<^verbatim>\<open>@\<close> for every
  zone, while \<open>name_matches\<close> compares it literally, so it matches no name other than one that
  normalizes to \<^verbatim>\<open>@\<close> itself, in particular not the apex it stands for.
\<close>

theorem apex_marker_matches_only_itself:
  assumes "normalize_fqdn uni zone_name = Inr zone" and "zone \<noteq> ''@''"
  shows "validate_name_pattern uni ''@'' ''exact'' zone_name = Inr ()
       \<and> name_matches uni ''@'' ''exact'' zone_name = Inr False"
  using assms by (simp add: validate_name_pattern_def name_matches_def normalize_at)

text \<open>
  Validation of a wildcard inside the zone's own labels is too weak: \<^verbatim>\<open>example.*.com\<close> is
  accepted for the zone \<^verbatim>\<open>example.com\<close>, because removing the star leaves the zone, and it
  matches \<^verbatim>\<open>example.evil.com\<close>, which is not below the zone.
\<close>

theorem validated_inner_wildcard_leaves_zone:
  "validate_name_pattern uni ''example.*.com'' ''wildcard'' ''example.com'' = Inr ()
   \<and> name_matches uni ''example.*.com'' ''wildcard'' ''example.evil.com'' = Inr True
   \<and> \<not> py_endswith ''example.evil.com'' ''.example.com''"
proof -
  have n: "normalize_fqdn uni ''example.com'' = Inr ''example.com''"
    "normalize_fqdn uni ''example.*.com'' = Inr ''example.*.com''"
    "normalize_fqdn uni ''example.evil.com'' = Inr ''example.evil.com''"
    by (subst normalize_plain; code_simp)+
  then have "name_matches uni ''example.*.com'' ''wildcard'' ''example.evil.com'' = Inr True"
    by (simp add: name_matches_def)
  moreover have "validate_name_pattern uni ''example.*.com'' ''wildcard'' ''example.com'' = Inr ()"
    using n(1) by (simp add: validate_name_pattern_def py_count_def)
  moreover have "\<not> py_endswith ''example.evil.com'' ''.example.com''" by code_simp
  ultimately show ?thesis by blast
qed

text \<open>Off the plain names normalization is not idempotent: white space before a trailing dot.\<close>

lemma normalize_twice_differs:
  "normalize_fqdn uni ''a.b. .'' = Inr ''a.b. '' \<and> normalize_fqdn uni ''a.b. '' = Inr ''a.b''"
  by (simp add: normalize_fqdn_def py_strip_def py_rstrip_def rstrip_while_def py_isspace_def
      py_lower_def lower_char_def idna_encode_def is_ascii_def is_ascii_char_def)

section \<open>Witnesses\<close>

text \<open>Concrete inputs: an instance of the codec's parameter that rejects non-ASCII names, and rules.\<close>

definition ascii_only :: idna where
  "ascii_only s = Inl UnicodeError"

definition home_rule :: rule where
  "home_rule = \<lparr>rule_zone_id = ''z1'', rule_name_pattern = Some ''home.example.com'',
     rule_name_match = ''exact'', rule_record_types = [''A''], rule_record_ids = None,
     rule_allow_read = True, rule_allow_create = False, rule_allow_write = True, rule_allow_delete = False\<rparr>"

definition pinned_rule :: rule where
  "pinned_rule = \<lparr>rule_zone_id = ''z1'', rule_name_pattern = None,
     rule_name_match = ''exact'', rule_record_types = [''*''], rule_record_ids = Some [''rec1''],
     rule_allow_read = True, rule_allow_create = False, rule_allow_write = True, rule_allow_delete = True\<rparr>"

theorem match_rules_grants_witness:
  "match_rules ascii_only [home_rule] ''z1'' (JStr ''Home.example.com.'') (JStr ''A'') JNull Write = Inr True
   \<and> (\<exists>r \<in> set [home_rule]. grants ascii_only r ''z1'' (JStr ''Home.example.com.'') (JStr ''A'') JNull Write)"
proof -
  have h: "match_rules ascii_only [home_rule] ''z1'' (JStr ''Home.example.com.'') (JStr ''A'') JNull Write = Inr True"
    by code_simp
  with match_rules_grants [OF h] show ?thesis by simp
qed

theorem name_matches_wildcard_spec_witness:
  "name_matches ascii_only ''*.example.com'' ''wildcard'' ''a.Example.com''
     = Inr (wildcard_labels [''*'', ''example'', ''com''] [''a'', ''example'', ''com''])"
proof -
  have p: "normalize_fqdn ascii_only ''*.example.com'' = Inr ''*.example.com''" by code_simp
  have t: "normalize_fqdn ascii_only ''a.Example.com'' = Inr ''a.example.com''" by code_simp
  from name_matches_wildcard_spec [OF p t] show ?thesis by simp
qed

theorem lock_exempt_never_denied_witness:
  "is_lock_exempt [home_rule, pinned_rule] ''z1'' (Some ''rec1'') Write
   \<and> match_rules ascii_only [home_rule, pinned_rule] ''z1'' (JStr ''evil.example.com'') (JStr ''MX'') (JStr ''rec1'') Write
       \<noteq> Inr False"
proof -
  have h: "is_lock_exempt [home_rule, pinned_rule] ''z1'' (Some ''rec1'') Write" by code_simp
  with lock_exempt_never_denied [OF h] show ?thesis by blast
qed

theorem validated_exact_stays_in_zone_witness:
  "\<exists>zone t. normalize_fqdn ascii_only ''Example.com'' = Inr zone
     \<and> normalize_fqdn ascii_only ''HOME.example.com'' = Inr t \<and> (t = zone \<or> py_endswith t (CHR ''.'' # zone))"
proof -
  have v: "validate_name_pattern ascii_only ''home.example.com'' ''exact'' ''Example.com'' = Inr ()" by code_simp
  have m: "name_matches ascii_only ''home.example.com'' ''exact'' ''HOME.example.com'' = Inr True" by code_simp
  have n: "''home.example.com'' \<noteq> ''@''" by simp
  from validated_exact_stays_in_zone [OF v n m] show ?thesis .
qed

theorem validated_leading_wildcard_stays_below_zone_witness:
  "\<exists>t. normalize_fqdn ascii_only ''a.Example.com'' = Inr t \<and> py_endswith t ''.example.com''"
proof -
  have c: "plain_name ''example.com''" by code_simp
  have v: "validate_name_pattern ascii_only (''*.'' @ ''example.com'') ''wildcard'' ''example.com'' = Inr ()" by code_simp
  have z: "normalize_fqdn ascii_only ''example.com'' = Inr ''example.com''" by code_simp
  have m: "name_matches ascii_only (''*.'' @ ''example.com'') ''wildcard'' ''a.Example.com'' = Inr True" by code_simp
  from validated_leading_wildcard_stays_below_zone [OF c v z _ m] show ?thesis by simp
qed

theorem normalize_fqdn_canonical_witness:
  "normalize_fqdn ascii_only (''Home.Example.com'' @ ''.'') = normalize_fqdn ascii_only ''Home.Example.com''"
proof -
  have c: "plain_name ''Home.Example.com''" by code_simp
  from normalize_fqdn_canonical [OF c, of ascii_only] show ?thesis by blast
qed

theorem apex_marker_matches_only_itself_witness:
  "validate_name_pattern ascii_only ''@'' ''exact'' ''example.com'' = Inr ()
   \<and> name_matches ascii_only ''@'' ''exact'' ''example.com'' = Inr False"
proof -
  have z: "normalize_fqdn ascii_only ''example.com'' = Inr ''example.com''" by code_simp
  from apex_marker_matches_only_itself [OF z] show ?thesis by simp
qed

end
