(* ===== verification/Envelopes.thy ===== *)
theory Envelopes
  imports Json
begin

text \<open>
  \<^verbatim>\<open>core/cf_errors.py\<close> and \<^verbatim>\<open>core/envelopes.py\<close>: the Cloudflare error codes and the three
  response builders. A \<^verbatim>\<open>JSONResponse\<close> is its status and its JSON content. The two envelopes
  are told apart by their keys: the management one has \<^verbatim>\<open>status\<close>, the Cloudflare one has
  \<^verbatim>\<open>success\<close>.
\<close>

definition TOKEN_VALID :: int where "TOKEN_VALID = 10000"
definition TOKEN_INVALID :: int where "TOKEN_INVALID = 1000"
definition RECORD_NOT_FOUND :: int where "RECORD_NOT_FOUND = 81044"
definition FORBIDDEN :: int where "FORBIDDEN = 9109"
definition ROUTE_NOT_FOUND :: int where "ROUTE_NOT_FOUND = 7003"
definition INTERNAL :: int where "INTERNAL = 1000"

record response =
  status_code :: int
  content :: json

definition make_response :: "int \<Rightarrow> string \<Rightarrow> json \<Rightarrow> response" where
  "make_response status message data =
     \<lparr>status_code = status,
      content = JObj [(''status'', JNum status), (''message'', JStr message), (''data'', data)]\<rparr>"

definition make_cf_response :: "json \<Rightarrow> int \<Rightarrow> json list \<Rightarrow> json option \<Rightarrow> response" where
  "make_cf_response result status messages result_info =
     \<lparr>status_code = status,
      content = JObj ([(''success'', JBool True), (''errors'', JArr []),
                       (''messages'', JArr messages), (''result'', result)]
                      @ (case result_info of None \<Rightarrow> [] | Some i \<Rightarrow> [(''result_info'', i)]))\<rparr>"

definition make_cf_error :: "int \<Rightarrow> int \<Rightarrow> string \<Rightarrow> response" where
  "make_cf_error status code message =
     \<lparr>status_code = status,
      content = JObj [(''success'', JBool False),
                      (''errors'', JArr [JObj [(''code'', JNum code), (''message'', JStr message)]]),
                      (''messages'', JArr []), (''result'', JNull)]\<rparr>"

text \<open>Which envelope a response carries.\<close>

definition is_cf_envelope :: "response \<Rightarrow> bool" where
  "is_cf_envelope r \<longleftrightarrow> (case content r of
     JObj kvs \<Rightarrow> (\<exists>b. map_of kvs ''success'' = Some (JBool b)) \<and> map_of kvs ''status'' = None
   | _ \<Rightarrow> False)"

definition is_mgmt_envelope :: "response \<Rightarrow> bool" where
  "is_mgmt_envelope r \<longleftrightarrow> (case content r of
     JObj kvs \<Rightarrow> map_of kvs ''status'' = Some (JNum (status_code r)) \<and> map_of kvs ''success'' = None
   | _ \<Rightarrow> False)"

lemma envelope_kinds [simp]:
  "is_mgmt_envelope (make_response st m d)" "\<not> is_cf_envelope (make_response st m d)"
  "is_cf_envelope (make_cf_response r st ms i)" "\<not> is_mgmt_envelope (make_cf_response r st ms i)"
  "is_cf_envelope (make_cf_error st c m)" "\<not> is_mgmt_envelope (make_cf_error st c m)"
  by (auto simp: is_mgmt_envelope_def is_cf_envelope_def make_response_def make_cf_response_def
      make_cf_error_def split: option.split)

lemma status_code_simps [simp]:
  "status_code (make_response st m d) = st"
  "status_code (make_cf_response r st ms i) = st"
  "status_code (make_cf_error st c m) = st"
  by (simp_all add: make_response_def make_cf_response_def make_cf_error_def)

text \<open>
  The key \<^verbatim>\<open>success\<close> tells an error from a result, whatever their payloads.
\<close>

lemma cf_error_not_response [simp]:
  "make_cf_error st c m \<noteq> make_cf_response r st' ms i"
  "make_cf_response r st' ms i \<noteq> make_cf_error st c m"
  by (auto simp: make_cf_error_def make_cf_response_def)

lemma make_cf_error_inj [simp]:
  "make_cf_error st c m = make_cf_error st' c' m' \<longleftrightarrow> st = st' \<and> c = c' \<and> m = m'"
  by (simp add: make_cf_error_def)

end
