(* ===== verification/Authorizer.thy ===== *)
theory Authorizer
  imports Scope Envelopes
begin

text \<open>
  \<^verbatim>\<open>authz/authorizer.py\<close>: the decision layer over the predicates of theory \<open>Scope\<close>. The record
  fetch is the injected callable of the source: a program over any state, called by the
  by-id methods only. \<^verbatim>\<open>None\<close> record ids are \<open>None\<close>; a missing record is \<open>JNull\<close>.
\<close>

section \<open>Definitions\<close>

text \<open>\<^verbatim>\<open>_MUTATION_OPS\<close> and \<^verbatim>\<open>_RENAME_METHODS\<close>\<close>

definition mutation_op :: "string \<Rightarrow> need option" where
  "mutation_op m =
     (if m = ''PATCH'' then Some Write
      else if m = ''PUT'' then Some Write
      else if m = ''DELETE'' then Some Delete
      else None)"

definition rename_method :: "string \<Rightarrow> bool" where
  "rename_method m \<longleftrightarrow> m = ''PATCH'' \<or> m = ''PUT''"

record auth_decision =
  allowed :: bool
  needs_lock :: bool
  deny_error :: "(int \<times> int \<times> string) option"
  pre_image :: json

definition insufficient_scope :: "int \<times> int \<times> string" where
  "insufficient_scope = (403, FORBIDDEN, ''Authorization error: insufficient scope'')"

definition unsupported_method :: "int \<times> int \<times> string" where
  "unsupported_method = (403, FORBIDDEN, ''Authorization error: unsupported method'')"

definition record_missing :: "int \<times> int \<times> string" where
  "record_missing = (404, RECORD_NOT_FOUND, ''Record does not exist.'')"

definition allow :: "bool \<Rightarrow> json \<Rightarrow> auth_decision" where
  "allow lock pre = \<lparr>allowed = True, needs_lock = lock, deny_error = None, pre_image = pre\<rparr>"

definition deny :: "bool \<Rightarrow> int \<times> int \<times> string \<Rightarrow> json \<Rightarrow> auth_decision" where
  "deny lock err pre = \<lparr>allowed = False, needs_lock = lock, deny_error = Some err, pre_image = pre\<rparr>"

definition op_of :: "string \<Rightarrow> need option" where
  "op_of m = (if m = ''GET'' then Some Read else mutation_op m)"

text \<open>
  The check of the post-image for PATCH and PUT, and below it the decision on a fetched
  pre-image (the part of the source after the fetch), with the operation, the method in
  upper case and the lock flag already computed.
\<close>

definition decide_rename ::
  "idna \<Rightarrow> ('a rule_scheme) list \<Rightarrow> need \<Rightarrow> bool \<Rightarrow> string \<Rightarrow> string option \<Rightarrow> json \<Rightarrow> json \<Rightarrow> json \<Rightarrow> json
    \<Rightarrow> auth_decision res" where
  "decide_rename uni rules op lock zone_id record_id body pre pre_name pre_type =
     bind_res (merge_patch_image pre (py_or body (JObj []))) (\<lambda>(post_name, post_type).
       if \<not> (py_eq post_name pre_name \<and> py_eq post_type pre_type) then
         bind_res (match_rules uni rules zone_id post_name post_type (json_opt record_id) op) (\<lambda>new_ok.
           if \<not> new_ok then Inr (deny lock insufficient_scope pre)
           else Inr (allow lock pre))
       else Inr (allow lock pre))"

definition decide_on_image ::
  "idna \<Rightarrow> ('a rule_scheme) list \<Rightarrow> string \<Rightarrow> need \<Rightarrow> bool \<Rightarrow> string \<Rightarrow> string option \<Rightarrow> json \<Rightarrow> json
    \<Rightarrow> auth_decision res" where
  "decide_on_image uni rules m op lock zone_id record_id body pre =
     (if pre = JNull then Inr (deny lock record_missing JNull)
      else bind_res (get pre ''zone_id'') (\<lambda>pre_zone.
        if \<not> (pre_zone = JNull \<or> pre_zone = JStr zone_id) then Inr (deny lock record_missing JNull)
        else bind_res (get pre ''name'') (\<lambda>pre_name.
        bind_res (get pre ''type'') (\<lambda>pre_type.
        bind_res (match_rules uni rules zone_id pre_name pre_type (json_opt record_id) op) (\<lambda>old_ok.
          if \<not> old_ok then Inr (deny lock record_missing pre)
          else if rename_method m
            then decide_rename uni rules op lock zone_id record_id body pre pre_name pre_type
          else Inr (allow lock pre))))))"

definition authorize_dns_request ::
  "idna \<Rightarrow> ('a rule_scheme) list \<Rightarrow> string \<Rightarrow> string \<Rightarrow> string option \<Rightarrow> json
    \<Rightarrow> (string \<Rightarrow> string option \<Rightarrow> ('s, json) prog) \<Rightarrow> ('s, auth_decision) prog" where
  "authorize_dns_request uni rules http_method zone_id record_id body fetch_record =
     (let m = py_upper http_method
      in if m = ''POST'' then
           bind (lift (get (py_or body (JObj [])) ''name'')) (\<lambda>name.
           bind (lift (get (py_or body (JObj [])) ''type'')) (\<lambda>rtype.
           bind (lift (match_rules uni rules zone_id name rtype JNull Create)) (\<lambda>ok.
             if ok then return (allow False JNull)
             else return (deny False insufficient_scope JNull))))
         else
           (case op_of m of
              None \<Rightarrow> return (deny False unsupported_method JNull)
            | Some op \<Rightarrow>
                (let lock = (mutation_op m \<noteq> None \<and> \<not> is_lock_exempt rules zone_id record_id op)
                 in bind (fetch_record zone_id record_id) (\<lambda>pre.
                      lift (decide_on_image uni rules m op lock zone_id record_id body pre)))))"

section \<open>Lemmas\<close>

lemmas decision_defs = allow_def deny_def insufficient_scope_def unsupported_method_def record_missing_def

lemma allow_sel [simp]:
  "allowed (allow l p)" "needs_lock (allow l p) = l" "deny_error (allow l p) = None" "pre_image (allow l p) = p"
  by (simp_all add: allow_def)

lemma deny_sel [simp]:
  "\<not> allowed (deny l e p)" "needs_lock (deny l e p) = l" "deny_error (deny l e p) = Some e"
  "pre_image (deny l e p) = p"
  by (simp_all add: deny_def)

lemma op_of_cases: "op_of m = Some op \<Longrightarrow> m = ''GET'' \<or> m = ''PATCH'' \<or> m = ''PUT'' \<or> m = ''DELETE''"
  by (auto simp: op_of_def mutation_op_def split: if_splits)

lemma decide_rename_cases:
  assumes "decide_rename uni rules op lock z rid body pre pn pt = Inr d"
  obtains (unchanged) qn qt where "merge_patch_image pre (py_or body (JObj [])) = Inr (qn, qt)"
      and "py_eq qn pn" and "py_eq qt pt" and "d = allow lock pre"
    | (granted) qn qt where "merge_patch_image pre (py_or body (JObj [])) = Inr (qn, qt)"
      and "match_rules uni rules z qn qt (json_opt rid) op = Inr True" and "d = allow lock pre"
    | (escape) qn qt where "merge_patch_image pre (py_or body (JObj [])) = Inr (qn, qt)"
      and "match_rules uni rules z qn qt (json_opt rid) op = Inr False" and "d = deny lock insufficient_scope pre"
proof -
  from assms obtain qn qt where "merge_patch_image pre (py_or body (JObj [])) = Inr (qn, qt)"
    and "(if \<not> (py_eq qn pn \<and> py_eq qt pt) then
            bind_res (match_rules uni rules z qn qt (json_opt rid) op) (\<lambda>new_ok.
              if \<not> new_ok then Inr (deny lock insufficient_scope pre) else Inr (allow lock pre))
          else Inr (allow lock pre)) = Inr d"
    by (auto simp: decide_rename_def bind_res_Inr_iff)
  with that show thesis by (force simp: bind_res_Inr_iff split: if_splits)
qed

text \<open>The outcomes of a decision on a pre-image, one case per return statement.\<close>

lemma decide_cases:
  assumes "decide_on_image uni rules m op lock z rid body pre = Inr d"
  obtains (missing) "pre = JNull" and "d = deny lock record_missing JNull"
    | (foreign) pz where "get pre ''zone_id'' = Inr pz" and "pz \<noteq> JNull" and "pz \<noteq> JStr z"
      and "d = deny lock record_missing JNull"
    | (unauthorized) pn pt where "get pre ''name'' = Inr pn" and "get pre ''type'' = Inr pt"
      and "match_rules uni rules z pn pt (json_opt rid) op = Inr False" and "d = deny lock record_missing pre"
    | (matched) pn pt pz where "pre \<noteq> JNull" and "get pre ''zone_id'' = Inr pz" and "pz = JNull \<or> pz = JStr z"
      and "get pre ''name'' = Inr pn" and "get pre ''type'' = Inr pt"
      and "match_rules uni rules z pn pt (json_opt rid) op = Inr True"
      and "if rename_method m then decide_rename uni rules op lock z rid body pre pn pt = Inr d
           else d = allow lock pre"
proof (cases "pre = JNull")
  case True
  with assms missing show thesis by (simp add: decide_on_image_def)
next
  case False
  with assms obtain pz where pz: "get pre ''zone_id'' = Inr pz"
    by (auto simp: decide_on_image_def bind_res_Inr_iff)
  show thesis
  proof (cases "pz = JNull \<or> pz = JStr z")
    case False
    with assms foreign pz \<open>pre \<noteq> JNull\<close> show thesis by (simp add: decide_on_image_def)
  next
    case True
    with assms pz \<open>pre \<noteq> JNull\<close> obtain pn pt ok
      where *: "get pre ''name'' = Inr pn" "get pre ''type'' = Inr pt"
        "match_rules uni rules z pn pt (json_opt rid) op = Inr ok"
        "(if \<not> ok then Inr (deny lock record_missing pre)
          else if rename_method m then decide_rename uni rules op lock z rid body pre pn pt
          else Inr (allow lock pre)) = Inr d"
      by (auto simp: decide_on_image_def bind_res_Inr_iff)
    show thesis
    proof (cases ok)
      case True
      with * matched [OF \<open>pre \<noteq> JNull\<close> pz \<open>pz = JNull \<or> pz = JStr z\<close>] show thesis
        by (auto split: if_splits)
    next
      case False
      with * unauthorized show thesis by auto
    qed
  qed
qed

lemma decide_rename_sel:
  "decide_rename uni rules op lock z rid body pre pn pt = Inr d \<Longrightarrow>
     needs_lock d = lock \<and> pre_image d = pre \<and> (deny_error d = None \<longleftrightarrow> allowed d)"
  by (erule decide_rename_cases) auto

lemma decide_sel:
  assumes "decide_on_image uni rules m op lock z rid body pre = Inr d"
  shows "needs_lock d = lock \<and> (deny_error d = None \<longleftrightarrow> allowed d) \<and> (allowed d \<longrightarrow> pre_image d = pre)"
  using assms by (cases rule: decide_cases) (auto dest: decide_rename_sel split: if_splits)

lemma authorize_by_id:
  assumes "op_of (py_upper m) = Some op"
  shows "authorize_dns_request uni rules m z rid body fetch s =
     bind (fetch z rid) (\<lambda>pre. lift (decide_on_image uni rules (py_upper m) op
       (mutation_op (py_upper m) \<noteq> None \<and> \<not> is_lock_exempt rules z rid op) z rid body pre)) s"
proof -
  have "py_upper m \<noteq> ''POST''" using assms op_of_cases by fastforce
  with assms show ?thesis by (simp add: authorize_dns_request_def Let_def)
qed

lemma keeps_authorize [keeps_intros]:
  "(\<And>z r. keeps P (fetch z r)) \<Longrightarrow> keeps P (authorize_dns_request uni rules m z rid body fetch)"
  unfolding authorize_dns_request_def Let_def
  by (intro keeps_intros) (auto intro: keeps_intros)

subsection \<open>Equal JSON values are authorized alike\<close>

lemma truthy_py_eq: "py_eq v w \<Longrightarrow> truthy v = truthy w"
  by (cases v; cases w) (auto simp: py_eq_def split: if_splits)

lemma py_eq_in_JStr: "py_eq v w \<Longrightarrow> v \<in> JStr ` A \<longleftrightarrow> w \<in> JStr ` A"
  by auto

lemma normalize_name_py_eq: "py_eq v w \<Longrightarrow> normalize_name uni v = normalize_name uni w"
  using truthy_py_eq [of v w]
  by (cases v; cases w) (auto simp: normalize_name_def py_eq_def)

lemma grants_py_eq:
  assumes "py_eq n n'" and "py_eq ty ty'"
  shows "grants uni r z n ty rid need \<longleftrightarrow> grants uni r z n' ty' rid need"
  unfolding grants_def normalize_name_py_eq [OF assms(1)] py_eq_in_JStr [OF assms(2)] ..

lemma match_rules_grantsD:
  "match_rules uni rules z n ty rid need = Inr True \<Longrightarrow> \<exists>r \<in> set rules. grants uni r z n ty rid need"
  using match_rules_decides by blast

lemma authorize_allowedD:
  assumes run: "authorize_dns_request uni rules m z (Some i) body fetch s = (Inr d, t)"
    and al: "allowed d" and post: "py_upper m \<noteq> ''POST''"
  shows "\<exists>op pre pz pn pt. op_of (py_upper m) = Some op \<and> fetch z (Some i) s = (Inr pre, t) \<and> pre_image d = pre
      \<and> get pre ''zone_id'' = Inr pz \<and> (pz = JNull \<or> pz = JStr z)
      \<and> get pre ''name'' = Inr pn \<and> get pre ''type'' = Inr pt
      \<and> (\<exists>r \<in> set rules. grants uni r z pn pt (JStr i) op)
      \<and> (rename_method (py_upper m) \<longrightarrow>
           (\<exists>qn qt. merge_patch_image pre (py_or body (JObj [])) = Inr (qn, qt)
              \<and> (\<exists>r \<in> set rules. grants uni r z qn qt (JStr i) op)))"
proof -
  obtain op where op: "op_of (py_upper m) = Some op"
    using run al post by (auto simp: authorize_dns_request_def Let_def split: option.splits)
  define lock where "lock = (mutation_op (py_upper m) \<noteq> None \<and> \<not> is_lock_exempt rules z (Some i) op)"
  obtain pre where fetch: "fetch z (Some i) s = (Inr pre, t)"
    and d: "decide_on_image uni rules (py_upper m) op lock z (Some i) body pre = Inr d"
    using run unfolding authorize_by_id [OF op] lock_def by (auto elim: bind_InrE)
  from d show ?thesis
  proof (cases rule: decide_cases)
    case (matched pn pt pz)
    then have old: "\<exists>r \<in> set rules. grants uni r z pn pt (JStr i) op"
      using match_rules_grantsD by fastforce
    have new: "\<exists>qn qt. merge_patch_image pre (py_or body (JObj [])) = Inr (qn, qt)
              \<and> (\<exists>r \<in> set rules. grants uni r z qn qt (JStr i) op)" if "rename_method (py_upper m)"
    proof -
      from matched that have "decide_rename uni rules op lock z (Some i) body pre pn pt = Inr d" by simp
      then show ?thesis
      proof (cases rule: decide_rename_cases)
        case (unchanged qn qt)
        with old grants_py_eq show ?thesis by blast
      next
        case (granted qn qt)
        with match_rules_grantsD show ?thesis by fastforce
      next
        case (escape qn qt)
        with al show ?thesis by simp
      qed
    qed
    have "pre_image d = pre" using decide_sel [OF d] al by simp
    with op fetch matched old new show ?thesis by blast
  qed (use al in simp_all)
qed

section \<open>Properties\<close>

text \<open>
  C9: a by-id request is authorized only in scope. When \<open>authorize_dns_request\<close> allows a
  GET, PATCH, PUT or DELETE, the record was fetched once, belongs to the path's zone, and a
  rule of the token grants the operation on its current name and type; for PATCH and PUT a rule
  also grants the name and type the record will have afterwards, so no rename or retype
  leaves the token's scope.
\<close>

theorem authorized_by_id_in_scope:
  assumes "authorize_dns_request uni rules m z (Some i) body fetch s = (Inr d, t)"
    and "allowed d" and "py_upper m \<noteq> ''POST''"
  shows "\<exists>op pre pz pn pt. op_of (py_upper m) = Some op \<and> fetch z (Some i) s = (Inr pre, t) \<and> pre_image d = pre
      \<and> get pre ''zone_id'' = Inr pz \<and> (pz = JNull \<or> pz = JStr z)
      \<and> get pre ''name'' = Inr pn \<and> get pre ''type'' = Inr pt
      \<and> (\<exists>r \<in> set rules. grants uni r z pn pt (JStr i) op)
      \<and> (rename_method (py_upper m) \<longrightarrow>
           (\<exists>qn qt. merge_patch_image pre (py_or body (JObj [])) = Inr (qn, qt)
              \<and> (\<exists>r \<in> set rules. grants uni r z qn qt (JStr i) op)))"
  using assms by (rule authorize_allowedD)

text \<open>
  No existence leak. For every by-id method, a record that exists but that the token is not
  authorized for, and a record of another zone, are answered with exactly the error of a
  record that does not exist: status 404, code 81044.
\<close>

theorem unauthorized_record_looks_missing:
  assumes "op_of (py_upper m) = Some op" and "fetch z (Some i) s = (Inr pre, t)"
    and "get pre ''zone_id'' = Inr pz" and "get pre ''name'' = Inr pn" and "get pre ''type'' = Inr pt"
    and "\<not> (pz = JNull \<or> pz = JStr z) \<or> match_rules uni rules z pn pt (JStr i) op = Inr False"
    and "fetch' z (Some i) s = (Inr JNull, t)"
  shows "\<exists>d d'. authorize_dns_request uni rules m z (Some i) body fetch s = (Inr d, t)
           \<and> authorize_dns_request uni rules m z (Some i) body fetch' s = (Inr d', t)
           \<and> \<not> allowed d \<and> \<not> allowed d' \<and> needs_lock d = needs_lock d'
           \<and> deny_error d = deny_error d' \<and> deny_error d = Some (404, 81044, ''Record does not exist.'')"
proof -
  have "pre \<noteq> JNull" using assms(3) by auto
  with assms show ?thesis
    by (auto simp: authorize_by_id bind_stepR decide_on_image_def record_missing_def RECORD_NOT_FOUND_def)
qed

text \<open>
  A 403 on a by-id request reveals nothing: it is only given to a token that is authorized
  for the record as it is, on a rename or retype that would leave the scope.
\<close>

theorem forbidden_only_on_scope_escape:
  assumes "authorize_dns_request uni rules m z (Some i) body fetch s = (Inr d, t)"
    and "op_of (py_upper m) = Some op" and "deny_error d = Some (403, code, msg)"
  shows "rename_method (py_upper m)
     \<and> (\<exists>pre pn pt qn qt. fetch z (Some i) s = (Inr pre, t)
          \<and> get pre ''name'' = Inr pn \<and> get pre ''type'' = Inr pt
          \<and> (\<exists>r \<in> set rules. grants uni r z pn pt (JStr i) op)
          \<and> merge_patch_image pre (py_or body (JObj [])) = Inr (qn, qt)
          \<and> match_rules uni rules z qn qt (JStr i) op = Inr False)"
proof -
  obtain pre lock where fetch: "fetch z (Some i) s = (Inr pre, t)"
    and d: "decide_on_image uni rules (py_upper m) op lock z (Some i) body pre = Inr d"
    using assms(1) unfolding authorize_by_id [OF assms(2)] by (auto elim: bind_InrE)
  from d show ?thesis
  proof (cases rule: decide_cases)
    case (matched pn pt pz)
    with assms(3) have ren: "rename_method (py_upper m)"
      and "decide_rename uni rules op lock z (Some i) body pre pn pt = Inr d"
      by (auto split: if_splits)
    from this(2) have "\<exists>qn qt. merge_patch_image pre (py_or body (JObj [])) = Inr (qn, qt)
        \<and> match_rules uni rules z qn qt (JStr i) op = Inr False"
      using assms(3) by (cases rule: decide_rename_cases) auto
    with ren fetch matched match_rules_grantsD show ?thesis by fastforce
  qed (use assms(3) in \<open>simp_all add: record_missing_def\<close>)
qed

text \<open>
  The mutation lock is demanded exactly for the by-id mutations that are not exempt, and the
  decision to demand it depends on the path and the rules alone, not on what the fetch returns.
\<close>

theorem needs_lock_iff_not_exempt:
  assumes "authorize_dns_request uni rules m z rid body fetch s = (Inr d, t)"
  shows "needs_lock d \<longleftrightarrow>
    (\<exists>op. mutation_op (py_upper m) = Some op \<and> \<not> is_lock_exempt rules z rid op)"
proof (cases "py_upper m = ''POST'' \<or> op_of (py_upper m) = None")
  case True
  with assms show ?thesis
    by (auto simp: authorize_dns_request_def mutation_op_def op_of_def bind_app Let_def
        split: if_splits sum.splits)
next
  case False
  then obtain op where op: "op_of (py_upper m) = Some op" by auto
  with assms have "needs_lock d \<longleftrightarrow> mutation_op (py_upper m) \<noteq> None \<and> \<not> is_lock_exempt rules z rid op"
    unfolding authorize_by_id [OF op] by (auto elim!: bind_InrE dest: decide_sel)
  with op show ?thesis by (auto simp: op_of_def mutation_op_def split: if_splits)
qed

text \<open>
  Creation is decided from the body alone: a POST is allowed exactly when a rule grants
  creation of the body's name and type (in particular a rule pinned to record ids grants none),
  and neither a POST nor an unsupported method ever calls the fetch.
\<close>

theorem create_decided_from_body:
  assumes "get (py_or body (JObj [])) ''name'' = Inr n" and "get (py_or body (JObj [])) ''type'' = Inr ty"
    and "match_rules uni rules z n ty JNull Create = Inr ok"
  shows "authorize_dns_request uni rules ''POST'' z rid body fetch s
           = (Inr (if ok then allow False JNull else deny False insufficient_scope JNull), s)
       \<and> (ok \<longleftrightarrow> (\<exists>r \<in> set rules. grants uni r z n ty JNull Create
                     \<and> (rule_record_ids r = None \<or> rule_record_ids r = Some [])))"
proof
  have up: "py_upper ''POST'' = ''POST''" by code_simp
  show "authorize_dns_request uni rules ''POST'' z rid body fetch s
           = (Inr (if ok then allow False JNull else deny False insufficient_scope JNull), s)"
    using assms by (simp add: authorize_dns_request_def up)
  have unpinned: "grants uni r z n ty JNull Create \<Longrightarrow> rule_record_ids r = None \<or> rule_record_ids r = Some []" for r :: "'a rule_scheme"
    by (cases "rule_record_ids r") (auto simp: grants_def)
  have "ok \<longleftrightarrow> (\<exists>r \<in> set rules. grants uni r z n ty JNull Create)"
    using assms(3) by (rule match_rules_decides)
  with unpinned show "ok \<longleftrightarrow> (\<exists>r \<in> set rules. grants uni r z n ty JNull Create
                     \<and> (rule_record_ids r = None \<or> rule_record_ids r = Some []))"
    by blast
qed

section \<open>Witnesses\<close>

definition home_record :: json where
  "home_record = JObj [(''id'', JStr ''rec1''), (''zone_id'', JStr ''z1''), (''name'', JStr ''home.example.com''),
     (''type'', JStr ''A''), (''content'', JStr ''1.2.3.4'')]"

definition mail_record :: json where
  "mail_record = JObj [(''id'', JStr ''rec2''), (''zone_id'', JStr ''z1''), (''name'', JStr ''mail.example.com''),
     (''type'', JStr ''MX'')]"

definition fetch_const :: "json \<Rightarrow> string \<Rightarrow> string option \<Rightarrow> (unit, json) prog" where
  "fetch_const j z i = return j"

definition content_patch :: json where
  "content_patch = JObj [(''content'', JStr ''5.6.7.8'')]"

definition escape_patch :: json where
  "escape_patch = JObj [(''name'', JStr ''mail.example.com'')]"

theorem authorized_by_id_in_scope_witness:
  "authorize_dns_request ascii_only [home_rule] ''patch'' ''z1'' (Some ''rec1'') content_patch (fetch_const home_record) ()
     = (Inr (allow True home_record), ())
   \<and> (\<exists>pn pt. get home_record ''name'' = Inr pn \<and> get home_record ''type'' = Inr pt
       \<and> (\<exists>r \<in> set [home_rule]. grants ascii_only r ''z1'' pn pt (JStr ''rec1'') Write))"
proof -
  have run: "authorize_dns_request ascii_only [home_rule] ''patch'' ''z1'' (Some ''rec1'') content_patch
      (fetch_const home_record) () = (Inr (allow True home_record), ())"
    by code_simp
  have up: "py_upper ''patch'' = ''PATCH''" by code_simp
  have op: "op_of ''PATCH'' = Some Write" by code_simp
  from authorized_by_id_in_scope [OF run, unfolded up op] run show ?thesis by fastforce
qed

theorem unauthorized_record_looks_missing_witness:
  "\<exists>d d'. authorize_dns_request ascii_only [home_rule] ''GET'' ''z1'' (Some ''rec2'') JNull (fetch_const mail_record) () = (Inr d, ())
     \<and> authorize_dns_request ascii_only [home_rule] ''GET'' ''z1'' (Some ''rec2'') JNull (fetch_const JNull) () = (Inr d', ())
     \<and> \<not> allowed d \<and> \<not> allowed d' \<and> needs_lock d = needs_lock d'
     \<and> deny_error d = deny_error d' \<and> deny_error d = Some (404, 81044, ''Record does not exist.'')"
proof (rule unauthorized_record_looks_missing)
  show "op_of (py_upper ''GET'') = Some Read" by code_simp
  show "fetch_const mail_record ''z1'' (Some ''rec2'') () = (Inr mail_record, ())" by (simp add: fetch_const_def)
  show "get mail_record ''zone_id'' = Inr (JStr ''z1'')" by code_simp
  show "get mail_record ''name'' = Inr (JStr ''mail.example.com'')" by code_simp
  show "get mail_record ''type'' = Inr (JStr ''MX'')" by code_simp
  have "match_rules ascii_only [home_rule] ''z1'' (JStr ''mail.example.com'') (JStr ''MX'') (JStr ''rec2'') Read = Inr False"
    by code_simp
  then show "\<not> (JStr ''z1'' = JNull \<or> JStr ''z1'' = JStr ''z1'')
      \<or> match_rules ascii_only [home_rule] ''z1'' (JStr ''mail.example.com'') (JStr ''MX'') (JStr ''rec2'') Read = Inr False"
    by simp
  show "fetch_const JNull ''z1'' (Some ''rec2'') () = (Inr JNull, ())" by (simp add: fetch_const_def)
qed

theorem forbidden_only_on_scope_escape_witness:
  "authorize_dns_request ascii_only [home_rule] ''PUT'' ''z1'' (Some ''rec1'') escape_patch (fetch_const home_record) ()
     = (Inr (deny True insufficient_scope home_record), ())
   \<and> rename_method (py_upper ''PUT'')"
proof -
  have run: "authorize_dns_request ascii_only [home_rule] ''PUT'' ''z1'' (Some ''rec1'') escape_patch (fetch_const home_record) ()
     = (Inr (deny True insufficient_scope home_record), ())" by code_simp
  have op: "op_of (py_upper ''PUT'') = Some Write" by code_simp
  have err: "deny_error (deny True insufficient_scope home_record)
      = Some (403, FORBIDDEN, ''Authorization error: insufficient scope'')"
    by (simp add: insufficient_scope_def)
  from forbidden_only_on_scope_escape [OF run op err] run show ?thesis by blast
qed

theorem needs_lock_iff_not_exempt_witness:
  "needs_lock (allow True home_record) \<longleftrightarrow>
    (\<exists>op. mutation_op (py_upper ''PATCH'') = Some op \<and> \<not> is_lock_exempt [home_rule] ''z1'' (Some ''rec1'') op)"
proof -
  have run: "authorize_dns_request ascii_only [home_rule] ''PATCH'' ''z1'' (Some ''rec1'') content_patch (fetch_const home_record) ()
     = (Inr (allow True home_record), ())" by code_simp
  from needs_lock_iff_not_exempt [OF run] show ?thesis .
qed

theorem create_decided_from_body_witness:
  "authorize_dns_request ascii_only [home_rule] ''POST'' ''z1'' None mail_record (fetch_const JNull) ()
     = (Inr (deny False insufficient_scope JNull), ())"
proof -
  have n: "get (py_or mail_record (JObj [])) ''name'' = Inr (JStr ''mail.example.com'')" by code_simp
  have ty: "get (py_or mail_record (JObj [])) ''type'' = Inr (JStr ''MX'')" by code_simp
  have ok: "match_rules ascii_only [home_rule] ''z1'' (JStr ''mail.example.com'') (JStr ''MX'') JNull Create = Inr False"
    by code_simp
  from conjunct1 [OF create_decided_from_body [OF n ty ok, of None "fetch_const JNull" "()"]]
  show ?thesis by simp
qed

end
