(* ===== verification/ListFilter.thy ===== *)
theory ListFilter
  imports Scope
begin

text \<open>
  \<^verbatim>\<open>filtering/list_filter.py\<close>: keeping the readable records of a list and re-paginating them.
  Pages and page sizes are Python integers and the slice is Python's, negative bounds
  included.
\<close>

section \<open>Definitions\<close>

fun filter_records ::
  "idna \<Rightarrow> json list \<Rightarrow> ('a rule_scheme) list \<Rightarrow> string \<Rightarrow> json list res" where
  "filter_records uni [] rules zone_id = Inr []"
| "filter_records uni (rec # records) rules zone_id =
     bind_res (get rec ''name'') (\<lambda>n.
     bind_res (get rec ''type'') (\<lambda>ty.
     bind_res (get rec ''id'') (\<lambda>i.
     bind_res (match_rules uni rules zone_id n ty i Read) (\<lambda>ok.
     bind_res (filter_records uni records rules zone_id) (\<lambda>rest.
       Inr (if ok then rec # rest else rest))))))"

text \<open>\<^verbatim>\<open>xs[i:j]\<close>: a negative bound counts from the end, then both are clamped to the list.\<close>

definition slice_bound :: "nat \<Rightarrow> int \<Rightarrow> nat" where
  "slice_bound n i = (if i < 0 then nat (max 0 (int n + i)) else min n (nat i))"

definition py_slice :: "'a list \<Rightarrow> int \<Rightarrow> int \<Rightarrow> 'a list" where
  "py_slice xs i j =
     (let a = slice_bound (length xs) i; b = slice_bound (length xs) j
      in take (b - a) (drop a xs))"

record result_info =
  ri_page :: int
  ri_per_page :: int
  ri_count :: int
  ri_total_count :: int
  ri_total_pages :: int

definition paginate_and_result_info :: "'a list \<Rightarrow> int \<Rightarrow> int \<Rightarrow> 'a list \<times> result_info" where
  "paginate_and_result_info records page per_page =
     (let total_count = int (length records);
          total_pages = (if per_page > 0 then - (- total_count div per_page) else 0);
          start = (page - 1) * per_page;
          stop = start + per_page;
          page_records = py_slice records start stop
      in (page_records,
          \<lparr>ri_page = page, ri_per_page = per_page, ri_count = int (length page_records),
           ri_total_count = total_count, ri_total_pages = total_pages\<rparr>))"

section \<open>Lemmas\<close>

definition readable :: "idna \<Rightarrow> ('a rule_scheme) list \<Rightarrow> string \<Rightarrow> json \<Rightarrow> bool" where
  "readable uni rules z rec \<longleftrightarrow>
     (\<exists>n ty i. get rec ''name'' = Inr n \<and> get rec ''type'' = Inr ty \<and> get rec ''id'' = Inr i
        \<and> (\<exists>r \<in> set rules. grants uni r z n ty i Read))"

lemma filter_records_filter:
  "filter_records uni records rules z = Inr out \<Longrightarrow> out = filter (readable uni rules z) records"
proof (induction records arbitrary: out)
  case (Cons rec records)
  then obtain n ty i ok rest where
    sel: "get rec ''name'' = Inr n" "get rec ''type'' = Inr ty" "get rec ''id'' = Inr i"
    and ok: "match_rules uni rules z n ty i Read = Inr ok"
    and rest: "filter_records uni records rules z = Inr rest"
    and out: "out = (if ok then rec # rest else rest)"
    by (auto simp: bind_res_Inr_iff)
  have "ok \<longleftrightarrow> readable uni rules z rec"
    using match_rules_decides [OF ok] sel by (simp add: readable_def)
  with Cons.IH [OF rest] out show ?case by simp
qed simp

lemma set_py_slice: "set (py_slice xs i j) \<subseteq> set xs"
  by (auto simp: py_slice_def Let_def dest: in_set_takeD in_set_dropD)

lemma py_slice_nonneg:
  "0 \<le> i \<Longrightarrow> i \<le> j \<Longrightarrow> py_slice xs i j = take (nat (j - i)) (drop (nat i) xs)"
  by (auto simp: py_slice_def slice_bound_def Let_def min_def nat_diff_distrib)

lemma page_slice:
  "1 \<le> page \<Longrightarrow> 0 < per_page \<Longrightarrow>
   fst (paginate_and_result_info xs page per_page) = take (nat per_page) (drop (nat ((page - 1) * per_page)) xs)"
  by (simp add: paginate_and_result_info_def Let_def py_slice_nonneg)

text \<open>The ceiling, in the source's way of writing it.\<close>

lemma neg_floor_neg_is_ceiling:
  assumes "0 < (p :: int)"
  shows "- (- n div p) * p \<ge> n \<and> (- (- n div p) - 1) * p < n"
proof -
  define q r where "q = - n div p" and "r = - n mod p"
  have "q * p + r = - n" unfolding q_def r_def by (rule div_mult_mod_eq)
  moreover have "0 \<le> r" "r < p" using assms by (simp_all add: r_def)
  ultimately have "- q * p \<ge> n \<and> (- q - 1) * p < n" by (simp add: left_diff_distrib)
  then show ?thesis by (simp only: q_def)
qed

text \<open>Dropping whole pages and taking one page, page after page, gives back the list.\<close>

lemma concat_pages:
  assumes "length xs \<le> k * p" and "0 < p"
  shows "concat (map (\<lambda>i. take p (drop (i * p) xs)) [0..<k]) = xs"
  using assms
proof (induction k arbitrary: xs)
  case (Suc k)
  have "concat (map (\<lambda>i. take p (drop (i * p) (drop p xs))) [0..<k]) = drop p xs"
    by (rule Suc.IH) (use Suc.prems in simp_all)
  moreover have "map (\<lambda>i. take p (drop (i * p) xs)) [0..<Suc k]
      = take p xs # map (\<lambda>i. take p (drop (i * p) (drop p xs))) [0..<k]"
    by (subst map_upt_Suc) (simp add: add.commute)
  ultimately show ?case by (metis append_take_drop_id concat.simps(2))
qed simp

text \<open>
  An interface for clients that list a collection page by page: pages are sublists of the
  collection, and the pages 1 to the announced total put together are the collection.
\<close>

locale paged_listing =
  fixes page_of :: "'a list \<Rightarrow> int \<Rightarrow> int \<Rightarrow> 'a list"
    and total_pages_of :: "'a list \<Rightarrow> int \<Rightarrow> int"
  assumes page_subset: "set (page_of xs page per_page) \<subseteq> set xs"
    and pages_cover: "0 < per_page \<Longrightarrow>
      concat (map (\<lambda>k. page_of xs (int k + 1) per_page) [0..<nat (total_pages_of xs per_page)]) = xs"
begin

lemma every_item_on_a_page:
  assumes "0 < per_page" and "x \<in> set xs"
  shows "\<exists>page. 1 \<le> page \<and> page \<le> total_pages_of xs per_page \<and> x \<in> set (page_of xs page per_page)"
proof -
  have "x \<in> set (concat (map (\<lambda>k. page_of xs (int k + 1) per_page) [0..<nat (total_pages_of xs per_page)]))"
    using assms pages_cover by simp
  then obtain k where k: "k < nat (total_pages_of xs per_page)" and x: "x \<in> set (page_of xs (int k + 1) per_page)"
    by auto
  from k have "int k + 1 \<le> total_pages_of xs per_page" by linarith
  with x show ?thesis by (intro exI [of _ "int k + 1"]) simp
qed

lemma page_property: "(\<And>x. x \<in> set xs \<Longrightarrow> P x) \<Longrightarrow> y \<in> set (page_of xs page per_page) \<Longrightarrow> P y"
  using page_subset by blast

end

lemma total_pages_bounds:
  fixes xs :: "'a list" and page per_page :: int
  assumes "0 < per_page"
  defines "tp \<equiv> ri_total_pages (snd (paginate_and_result_info xs page per_page))"
  shows "0 \<le> tp" and "int (length xs) \<le> tp * per_page" and "(tp - 1) * per_page < int (length xs)"
proof -
  have tp: "tp = - (- int (length xs) div per_page)"
    using assms by (simp add: tp_def paginate_and_result_info_def Let_def)
  show "int (length xs) \<le> tp * per_page" "(tp - 1) * per_page < int (length xs)"
    unfolding tp using neg_floor_neg_is_ceiling [OF assms(1), of "int (length xs)"] by simp_all
  have "- int (length xs) div per_page \<le> 0"
    using assms(1) by (simp add: div_nonpos_pos_le0)
  then show "0 \<le> tp" unfolding tp by simp
qed

interpretation paginate: paged_listing
  "\<lambda>xs page per_page. fst (paginate_and_result_info xs page per_page)"
  "\<lambda>xs per_page. ri_total_pages (snd (paginate_and_result_info xs 1 per_page))"
proof unfold_locales
  fix xs :: "'a list" and page per_page :: int
  show "set (fst (paginate_and_result_info xs page per_page)) \<subseteq> set xs"
    by (simp add: paginate_and_result_info_def Let_def set_py_slice)
next
  fix xs :: "'a list" and per_page :: int
  assume pos: "0 < per_page"
  define tp where "tp = ri_total_pages (snd (paginate_and_result_info xs 1 per_page))"
  have "length xs \<le> nat tp * nat per_page"
    using total_pages_bounds [OF pos, of xs 1] pos unfolding tp_def [symmetric]
    by (metis nat_int nat_mono nat_mult_distrib)
  moreover have "nat ((int k + 1 - 1) * per_page) = k * nat per_page" for k
    using pos by (simp add: nat_mult_distrib)
  ultimately show "concat (map (\<lambda>k. fst (paginate_and_result_info xs (int k + 1) per_page))
      [0..<nat (ri_total_pages (snd (paginate_and_result_info xs 1 per_page)))]) = xs"
    using pos concat_pages [of xs "nat tp" "nat per_page"]
    by (simp add: page_slice tp_def)
qed

section \<open>Properties\<close>

text \<open>
  List filtering is exact: when \<open>filter_records\<close> returns, its result is the input list, in
  order, with exactly the records kept that some rule grants reading. No unreadable record
  leaks and no readable one is lost.
\<close>

theorem filter_records_exact:
  assumes "filter_records uni records rules z = Inr out"
  shows "out = filter (readable uni rules z) records"
  using assms by (rule filter_records_filter)

text \<open>
  C28: local pagination loses and repeats nothing: for a positive page size the pages 1 to
  \<open>total_pages\<close>, in order, are the whole list, and \<open>total_pages\<close> is the least number of pages
  that can hold it.
\<close>

theorem pages_partition_records:
  assumes "0 < per_page"
  shows "concat (map (\<lambda>k. fst (paginate_and_result_info xs (int k + 1) per_page))
           [0..<nat (ri_total_pages (snd (paginate_and_result_info xs 1 per_page)))]) = xs
       \<and> int (length xs) \<le> ri_total_pages (snd (paginate_and_result_info xs 1 per_page)) * per_page
       \<and> (ri_total_pages (snd (paginate_and_result_info xs 1 per_page)) - 1) * per_page < int (length xs)"
  using paginate.pages_cover [OF assms] total_pages_bounds [OF assms] by blast

text \<open>
  Pagination never invents a record, whatever integers the client sends: for every page
  number and page size, negative and zero included, the page holds records of the list
  only, and the announced counts are those of the page and of the list.
\<close>

theorem page_within_records:
  "set (fst (paginate_and_result_info xs page per_page)) \<subseteq> set xs
   \<and> ri_count (snd (paginate_and_result_info xs page per_page))
       = int (length (fst (paginate_and_result_info xs page per_page)))
   \<and> ri_total_count (snd (paginate_and_result_info xs page per_page)) = int (length xs)
   \<and> (0 < per_page \<and> 1 \<le> page \<longrightarrow> ri_count (snd (paginate_and_result_info xs page per_page)) \<le> per_page)"
  by (intro conjI paginate.page_subset) (auto simp: paginate_and_result_info_def Let_def py_slice_nonneg of_nat_min)

section \<open>Witnesses\<close>

definition zone_listing :: "json list" where
  "zone_listing =
     [JObj [(''id'', JStr ''rec1''), (''name'', JStr ''home.example.com''), (''type'', JStr ''A'')],
      JObj [(''id'', JStr ''rec2''), (''name'', JStr ''mail.example.com''), (''type'', JStr ''MX'')]]"

theorem filter_records_exact_witness:
  "filter_records ascii_only zone_listing [home_rule] ''z1'' = Inr [hd zone_listing]
   \<and> [hd zone_listing] = filter (readable ascii_only [home_rule] ''z1'') zone_listing"
proof -
  have h: "filter_records ascii_only zone_listing [home_rule] ''z1'' = Inr [hd zone_listing]" by code_simp
  with filter_records_exact [OF h] show ?thesis by blast
qed

theorem pages_partition_records_witness:
  "concat (map (\<lambda>k. fst (paginate_and_result_info [1, 2, 3, 4, 5 :: int] (int k + 1) 2)) [0..<3]) = [1, 2, 3, 4, 5]"
proof -
  have "ri_total_pages (snd (paginate_and_result_info [1, 2, 3, 4, 5 :: int] 1 2)) = 3" by code_simp
  with conjunct1 [OF pages_partition_records [of 2 "[1, 2, 3, 4, 5 :: int]"]] show ?thesis by simp
qed

theorem page_within_records_witness:
  "ri_count (snd (paginate_and_result_info [1, 2, 3, 4, 5 :: int] 3 2)) \<le> 2
   \<and> set (fst (paginate_and_result_info [1, 2, 3, 4, 5 :: int] (- 1) 2)) \<subseteq> {1, 2, 3, 4, 5}"
  using page_within_records [of "[1, 2, 3, 4, 5 :: int]" 3 2] page_within_records [of "[1, 2, 3, 4, 5 :: int]" "- 1" 2]
  by simp

end
