(* ===== verification/Models.thy ===== *)
theory Models
  imports Scope
begin

text \<open>
  \<^verbatim>\<open>db/models.py\<close> and the world the effectful functions run in: the committed tables, the Redis
  store, the trace of externally visible events, the clock and the positions on the sources
  of nondeterminism; and the environment, which collects everything that is not under the
  sources' control: Cloudflare, Redis availability, commit failures, random numbers, the
  advisory lock server, the Fernet and SHA-256 primitives, and the settings.
\<close>

section \<open>Time stamps\<close>

text \<open>
  A Python \<^verbatim>\<open>datetime\<close>: an instant and whether it carries a time zone. Ordering a naive and an
  aware value raises \<^verbatim>\<open>TypeError\<close>.
\<close>

record datetime =
  instant :: int
  aware :: bool

definition dt_less :: "datetime \<Rightarrow> datetime \<Rightarrow> bool res" where
  "dt_less a b = (if aware a \<noteq> aware b then Inl TypeError else Inr (instant a < instant b))"

definition dt_plus :: "datetime \<Rightarrow> int \<Rightarrow> datetime" where
  "dt_plus d secs = d\<lparr>instant := instant d + secs\<rparr>"

section \<open>Rows\<close>

record user =
  u_id :: string
  u_email :: "string option"
  u_password_hash :: "string option"
  u_auth_provider :: string
  u_cf_sub :: "string option"
  u_is_active :: bool
  u_created_at :: datetime
  u_updated_at :: datetime

record credential =
  c_id :: string
  c_user_id :: string
  c_label :: string
  c_cred_type :: string
  c_secret_enc :: "string option"
  c_access_token_enc :: "string option"
  c_refresh_token_enc :: "string option"
  c_token_expires_at :: "datetime option"
  c_oauth_scopes :: "string option"
  c_key_version :: int
  c_cred_version :: int
  c_cf_account_email :: "string option"
  c_verify_status :: "string option"
  c_verified_at :: "datetime option"
  c_created_at :: datetime

record scoped_token =
  t_id :: string
  t_user_id :: string
  t_upstream_credential_id :: string
  t_name :: string
  t_lookup_id :: string
  t_token_prefix :: string
  t_token_hash :: string
  t_version :: int
  t_status :: string
  t_expires_at :: "datetime option"
  t_last_used_at :: "datetime option"
  t_created_at :: datetime
  t_revoked_at :: "datetime option"

record scope_rule = rule +
  r_id :: string
  r_scoped_token_id :: string
  r_content_lock :: "string option"
  r_created_at :: datetime

record audit_log =
  a_id :: string
  a_ts :: datetime
  a_user_id :: "string option"
  a_scoped_token_id :: "string option"
  a_token_prefix :: "string option"
  a_method :: string
  a_path :: string
  a_zone_id :: "string option"
  a_record_id :: "string option"
  a_record_name :: json
  a_record_type :: json
  a_pre_image :: json
  a_post_image :: json
  a_decision :: string
  a_deny_reason :: "string option"
  a_upstream_status :: "int option"
  a_client_ip :: "string option"
  a_latency_ms :: "int option"

section \<open>Requests to Cloudflare and visible events\<close>

record http_request =
  q_method :: string
  q_host :: string
  q_path :: string
  q_headers :: "(string \<times> string) list"
  q_params :: "(string \<times> json) list"
  q_content :: "string option"

text \<open>A Cloudflare response: its status, and its body when that parses as JSON.\<close>

record http_response =
  p_status :: int
  p_json :: "json option"

datatype event = Sent http_request | Locked string | Unlocked string

section \<open>Environment and world\<close>

text \<open>\<^verbatim>\<open>config.py\<close>: the settings that the modelled code reads.\<close>

record settings =
  s_jwt_ttl_seconds :: int
  s_upstream_base_url :: string
  s_cf_oauth_issuer :: string
  s_cf_oauth_client_id :: string
  s_cf_oauth_client_secret :: string
  s_cf_oauth_redirect_uri :: string
  s_cf_oauth_base_scopes :: string
  s_cf_oauth_dns_scope :: string
  s_token_brand :: string
  s_oauth_state_ttl :: int
  s_rules_cache_ttl :: int
  s_access_token_skew :: int

record env =
  e_idna :: idna
  e_sha256 :: "string \<Rightarrow> string"
  e_fernet_encrypt :: "nat \<Rightarrow> string \<Rightarrow> string"
  e_fernet_decrypt :: "string \<Rightarrow> string res"
  e_json_dumps :: "json \<Rightarrow> string"
  e_json_loads :: "string \<Rightarrow> json res"
  e_http :: "event list \<Rightarrow> http_request \<Rightarrow> http_response res"
  e_redis_up :: "nat \<Rightarrow> bool"
  e_commit_ok :: "nat \<Rightarrow> bool"
  e_tape :: "nat \<Rightarrow> nat"
  e_uuid :: "nat \<Rightarrow> string"
  e_get_lock :: "nat \<Rightarrow> string \<Rightarrow> bool"
  e_mysql :: bool
  e_dt_load :: "datetime \<Rightarrow> datetime"
  e_settings :: settings

text \<open>
  What a Redis key holds: a JSON document, or bytes that do not decode as JSON. Each entry has
  the instant at which it expires, if it has one.
\<close>

datatype redis_raw = Raw_json json | Raw_garbage

record world =
  w_users :: "user list"
  w_credentials :: "credential list"
  w_tokens :: "scoped_token list"
  w_rules :: "scope_rule list"
  w_audit :: "audit_log list"
  w_redis :: "string \<Rightarrow> (redis_raw \<times> int option) option"
  w_redis_calls :: nat
  w_commits :: nat
  w_rand :: nat
  w_lock_calls :: nat
  w_now :: int
  w_cf_client :: bool
  w_jwks :: "json \<times> int"
  w_trace :: "event list"
  w_schema_versions :: "int list"

text \<open>\<^verbatim>\<open>datetime.now(UTC)\<close>\<close>

definition utcnow :: "world \<Rightarrow> datetime" where
  "utcnow w = \<lparr>instant = w_now w, aware = True\<rparr>"

text \<open>\<^verbatim>\<open>str(uuid4())\<close>\<close>

definition new_uuid :: "env \<Rightarrow> (world, string) prog" where
  "new_uuid E = (\<lambda>w. (Inr (e_uuid E (w_rand w)), w\<lparr>w_rand := Suc (w_rand w)\<rparr>))"

text \<open>The requests that left the proxy, oldest first.\<close>

fun sent_of :: "event list \<Rightarrow> http_request list" where
  "sent_of [] = []"
| "sent_of (Sent q # es) = q # sent_of es"
| "sent_of (Locked _ # es) = sent_of es"
| "sent_of (Unlocked _ # es) = sent_of es"

section \<open>Table constraints\<close>

text \<open>
  The primary keys and unique constraints of the schema. A flush or commit that would break
  one raises \<^verbatim>\<open>IntegrityError\<close> and the transaction is rolled back. A null value never
  collides. Foreign keys are enforced by MySQL only (SQLite's enforcement is off by default).
\<close>

definition unique_opt :: "'a option list \<Rightarrow> bool" where
  "unique_opt xs \<longleftrightarrow> distinct (filter (\<lambda>x. x \<noteq> None) xs)"

definition users_ok :: "user list \<Rightarrow> bool" where
  "users_ok us \<longleftrightarrow> distinct (map u_id us) \<and> unique_opt (map u_email us) \<and> unique_opt (map u_cf_sub us)"

definition credentials_ok :: "credential list \<Rightarrow> bool" where
  "credentials_ok cs \<longleftrightarrow> distinct (map c_id cs) \<and> distinct (map (\<lambda>c. (c_user_id c, c_label c)) cs)"

definition tokens_ok :: "scoped_token list \<Rightarrow> bool" where
  "tokens_ok ts \<longleftrightarrow> distinct (map t_id ts) \<and> distinct (map t_lookup_id ts) \<and> distinct (map t_token_hash ts)"

definition rules_ok :: "scope_rule list \<Rightarrow> bool" where
  "rules_ok rs \<longleftrightarrow> distinct (map r_id rs)"

definition foreign_keys_ok :: "world \<Rightarrow> bool" where
  "foreign_keys_ok w \<longleftrightarrow>
     (\<forall>c \<in> set (w_credentials w). c_user_id c \<in> u_id ` set (w_users w))
     \<and> (\<forall>t \<in> set (w_tokens w). t_user_id t \<in> u_id ` set (w_users w)
          \<and> t_upstream_credential_id t \<in> c_id ` set (w_credentials w))
     \<and> (\<forall>r \<in> set (w_rules w). r_scoped_token_id r \<in> t_id ` set (w_tokens w))"

definition constraints_ok :: "env \<Rightarrow> world \<Rightarrow> bool" where
  "constraints_ok E w \<longleftrightarrow>
     users_ok (w_users w) \<and> credentials_ok (w_credentials w) \<and> tokens_ok (w_tokens w)
     \<and> rules_ok (w_rules w) \<and> distinct (map a_id (w_audit w)) \<and> distinct (w_schema_versions w)
     \<and> (e_mysql E \<longrightarrow> foreign_keys_ok w)"

text \<open>
  One transaction: the pending change is applied and committed. It fails with
  \<^verbatim>\<open>IntegrityError\<close> when it breaks a constraint and with \<^verbatim>\<open>OperationalError\<close> when the
  database cannot commit; both leave the tables as they were.
\<close>

definition commit_db :: "env \<Rightarrow> (world \<Rightarrow> world) \<Rightarrow> (world, unit) prog" where
  "commit_db E f = (\<lambda>w.
     let w' = w\<lparr>w_commits := Suc (w_commits w)\<rparr>
     in if \<not> e_commit_ok E (w_commits w) then (Inl OperationalError, w')
        else if \<not> constraints_ok E (f w) then (Inl IntegrityError, w')
        else (Inr (), (f w)\<lparr>w_commits := Suc (w_commits w)\<rparr>))"

section \<open>Lemmas\<close>

lemma foreign_keys_ok_upd [simp]:
  "foreign_keys_ok (w\<lparr>w_commits := n\<rparr>) = foreign_keys_ok w"
  "foreign_keys_ok (w\<lparr>w_rand := n\<rparr>) = foreign_keys_ok w"
  "foreign_keys_ok (w\<lparr>w_redis_calls := n\<rparr>) = foreign_keys_ok w"
  "foreign_keys_ok (w\<lparr>w_redis := m\<rparr>) = foreign_keys_ok w"
  "foreign_keys_ok (w\<lparr>w_trace := tr\<rparr>) = foreign_keys_ok w"
  "foreign_keys_ok (w\<lparr>w_lock_calls := n\<rparr>) = foreign_keys_ok w"
  "foreign_keys_ok (w\<lparr>w_now := i\<rparr>) = foreign_keys_ok w"
  "foreign_keys_ok (w\<lparr>w_cf_client := b\<rparr>) = foreign_keys_ok w"
  "foreign_keys_ok (w\<lparr>w_audit := l\<rparr>) = foreign_keys_ok w"
  "foreign_keys_ok (w\<lparr>w_jwks := j\<rparr>) = foreign_keys_ok w"
  by (simp_all add: foreign_keys_ok_def)

lemma constraints_ok_upd [simp]:
  "constraints_ok E (w\<lparr>w_commits := n\<rparr>) = constraints_ok E w"
  "constraints_ok E (w\<lparr>w_rand := n\<rparr>) = constraints_ok E w"
  "constraints_ok E (w\<lparr>w_redis_calls := n\<rparr>) = constraints_ok E w"
  "constraints_ok E (w\<lparr>w_redis := m\<rparr>) = constraints_ok E w"
  "constraints_ok E (w\<lparr>w_trace := tr\<rparr>) = constraints_ok E w"
  "constraints_ok E (w\<lparr>w_lock_calls := n\<rparr>) = constraints_ok E w"
  "constraints_ok E (w\<lparr>w_now := i\<rparr>) = constraints_ok E w"
  "constraints_ok E (w\<lparr>w_cf_client := b\<rparr>) = constraints_ok E w"
  "constraints_ok E (w\<lparr>w_jwks := j\<rparr>) = constraints_ok E w"
  by (simp_all add: constraints_ok_def)

text \<open>Every transaction keeps the constraints, whatever change it tries to make.\<close>

lemma keeps_constraints_commit [keeps_intros]: "keeps (constraints_ok E) (commit_db E f)"
  by (rule keepsI) (simp add: commit_db_def Let_def)

lemma keeps_constraints_uuid [keeps_intros]: "keeps (constraints_ok E) (new_uuid E)"
  by (rule keepsI) (simp add: new_uuid_def)

lemma commit_db_cases:
  assumes "commit_db E f w = (r, t)"
  obtains (failed) e where "r = Inl e" and "t = w\<lparr>w_commits := Suc (w_commits w)\<rparr>"
    | (committed) "r = Inr ()" and "constraints_ok E (f w)" and "t = (f w)\<lparr>w_commits := Suc (w_commits w)\<rparr>"
  using assms by (auto simp: commit_db_def Let_def split: if_splits)

lemma distinct_map_find:
  "distinct (map f xs) \<Longrightarrow> x \<in> set xs \<Longrightarrow> find (\<lambda>y. f y = f x) xs = Some x"
  by (induction xs) (auto simp: image_iff)

lemma find_SomeD: "find p xs = Some x \<Longrightarrow> x \<in> set xs \<and> p x"
  by (induction xs) (auto split: if_splits)

lemma find_NoneD: "find p xs = None \<Longrightarrow> x \<in> set xs \<Longrightarrow> \<not> p x"
  by (simp add: find_None_iff)

lemma sent_of_append [simp]: "sent_of (xs @ ys) = sent_of xs @ sent_of ys"
  by (induction xs rule: sent_of.induct) auto

section \<open>What a program adds to the trace\<close>

text \<open>
  \<open>emits P m\<close>: \<open>m\<close> only appends to the trace, and every event it appends satisfies \<open>P\<close>, whether it
  returns or raises. The effects of the components are stated with it.
\<close>

definition emits :: "(event \<Rightarrow> bool) \<Rightarrow> (world, 'a) prog \<Rightarrow> bool" where
  "emits P m \<longleftrightarrow> (\<forall>w. \<exists>es. w_trace (snd (m w)) = w_trace w @ es \<and> (\<forall>e \<in> set es. P e))"

lemma emitsI: "(\<And>w. \<exists>es. w_trace (snd (m w)) = w_trace w @ es \<and> (\<forall>e \<in> set es. P e)) \<Longrightarrow> emits P m"
  by (simp add: emits_def)

lemma emitsD:
  assumes "emits P m" and "m w = (r, t)"
  obtains es where "w_trace t = w_trace w @ es" and "\<forall>e \<in> set es. P e"
  using assms unfolding emits_def by (metis snd_conv)

lemma emits_same_trace: "(\<And>w. w_trace (snd (m w)) = w_trace w) \<Longrightarrow> emits P m"
  by (simp add: emits_def)

lemma emits_mono: "emits P m \<Longrightarrow> (\<And>e. P e \<Longrightarrow> Q e) \<Longrightarrow> emits Q m"
  unfolding emits_def by meson

lemma emits_pure [emits_intros]:
  "emits P (return x)" "emits P (raise e)" "emits P (lift r)" "emits P (gets f)"
  by (auto intro: emits_same_trace)

lemma emits_read [emits_intros]: "emits P (\<lambda>w. (f w, w))"
  by (auto intro: emits_same_trace)

lemma emits_bind [emits_intros]:
  assumes m: "emits P m" and f: "\<And>x. emits P (f x)"
  shows "emits P (bind m f)"
proof (rule emitsI)
  fix w
  obtain r t where mt: "m w = (r, t)" by (cases "m w")
  obtain es where es: "w_trace t = w_trace w @ es" "\<forall>e \<in> set es. P e"
    using m mt by (rule emitsD)
  show "\<exists>es. w_trace (snd (bind m f w)) = w_trace w @ es \<and> (\<forall>e \<in> set es. P e)"
  proof (cases r)
    case (Inl e)
    with mt es show ?thesis by (auto simp: bind_app)
  next
    case (Inr x)
    obtain r' u where fu: "f x t = (r', u)" by (cases "f x t")
    obtain fs where "w_trace u = w_trace t @ fs" "\<forall>e \<in> set fs. P e"
      using f fu by (rule emitsD)
    with mt es Inr fu show ?thesis by (auto simp: bind_app intro!: exI [of _ "es @ fs"])
  qed
qed

lemma emits_catch [emits_intros]:
  assumes m: "emits P m" and h: "\<And>e. emits P (h e)"
  shows "emits P (catch m h)"
proof (rule emitsI)
  fix w
  obtain r t where mt: "m w = (r, t)" by (cases "m w")
  obtain es where es: "w_trace t = w_trace w @ es" "\<forall>e \<in> set es. P e"
    using m mt by (rule emitsD)
  show "\<exists>es. w_trace (snd (catch m h w)) = w_trace w @ es \<and> (\<forall>e \<in> set es. P e)"
  proof (cases r)
    case (Inr x)
    with mt es show ?thesis by (auto simp: catch_app)
  next
    case (Inl x)
    obtain r' u where hu: "h x t = (r', u)" by (cases "h x t")
    obtain fs where "w_trace u = w_trace t @ fs" "\<forall>e \<in> set fs. P e"
      using h hu by (rule emitsD)
    with mt es Inl hu show ?thesis by (auto simp: catch_app intro!: exI [of _ "es @ fs"])
  qed
qed

lemma emits_if [emits_intros]: "emits P m \<Longrightarrow> emits P n \<Longrightarrow> emits P (if b then m else n)"
  by simp

lemma emits_option [emits_intros]:
  "emits P m \<Longrightarrow> (\<And>x. emits P (f x)) \<Longrightarrow> emits P (case q of None \<Rightarrow> m | Some x \<Rightarrow> f x)"
  by (cases q) simp_all

lemma emits_prod [emits_intros]: "(\<And>a b. emits P (f a b)) \<Longrightarrow> emits P (case p of (a, b) \<Rightarrow> f a b)"
  by (cases p) simp

lemma emits_let [emits_intros]: "emits P (f x) \<Longrightarrow> emits P (let y = x in f y)"
  by simp

lemma emits_commit [emits_intros]: "(\<And>w. w_trace (f w) = w_trace w) \<Longrightarrow> emits P (commit_db E f)"
  by (rule emits_same_trace) (simp add: commit_db_def Let_def)

lemma emits_uuid [emits_intros]: "emits P (new_uuid E)"
  by (rule emits_same_trace) (simp add: new_uuid_def)

section \<open>Concrete inputs for the witnesses\<close>

text \<open>
  An environment with a toy cipher and hash, a reachable Redis, commits and locks that
  succeed, and a Cloudflare that answers every request with one record; and a world with one
  user, one credential, one scoped token and its rule.
\<close>

definition demo_settings :: settings where
  "demo_settings = \<lparr>s_jwt_ttl_seconds = 86400, s_upstream_base_url = ''https://api.cloudflare.com'',
     s_cf_oauth_issuer = ''https://dash.cloudflare.com'', s_cf_oauth_client_id = ''client'',
     s_cf_oauth_client_secret = ''secret'', s_cf_oauth_redirect_uri = ''https://proxy/cb'',
     s_cf_oauth_base_scopes = ''openid offline_access'', s_cf_oauth_dns_scope = [],
     s_token_brand = ''cfsx'', s_oauth_state_ttl = 600, s_rules_cache_ttl = 300, s_access_token_skew = 60\<rparr>"

definition demo_record :: json where
  "demo_record = JObj [(''id'', JStr ''rec1''), (''zone_id'', JStr ''z1''),
     (''name'', JStr ''home.example.com''), (''type'', JStr ''A'')]"

definition demo_http :: "event list \<Rightarrow> http_request \<Rightarrow> http_response res" where
  "demo_http tr q = Inr \<lparr>p_status = 200, p_json = Some (JObj [(''success'', JBool True), (''result'', demo_record)])\<rparr>"

definition demo_env :: env where
  "demo_env = \<lparr>e_idna = ascii_only, e_sha256 = (\<lambda>s. ''sha:'' @ s),
     e_fernet_encrypt = (\<lambda>n s. CHR ''!'' # s),
     e_fernet_decrypt = (\<lambda>s. case s of [] \<Rightarrow> Inl InvalidToken | c # cs \<Rightarrow> if c = CHR ''!'' then Inr cs else Inl InvalidToken),
     e_json_dumps = (\<lambda>_. []), e_json_loads = (\<lambda>_. Inl JSONDecodeError), e_http = demo_http, e_redis_up = (\<lambda>_. True), e_commit_ok = (\<lambda>_. True), e_tape = (\<lambda>n. n),
     e_uuid = (\<lambda>n. ''u'' @ nat_str n), e_get_lock = (\<lambda>_ _. True), e_mysql = True,
     e_dt_load = (\<lambda>d. d\<lparr>aware := False\<rparr>), e_settings = demo_settings\<rparr>"

definition demo_time :: datetime where
  "demo_time = \<lparr>instant = 0, aware = True\<rparr>"

definition demo_user :: user where
  "demo_user = \<lparr>u_id = ''user1'', u_email = Some ''op@example.com'', u_password_hash = Some ''pw'',
     u_auth_provider = ''local'', u_cf_sub = None, u_is_active = True, u_created_at = demo_time, u_updated_at = demo_time\<rparr>"

definition demo_credential :: credential where
  "demo_credential = \<lparr>c_id = ''cred1'', c_user_id = ''user1'', c_label = ''prod'', c_cred_type = ''token'',
     c_secret_enc = Some ''!cf-token'', c_access_token_enc = None, c_refresh_token_enc = None,
     c_token_expires_at = None, c_oauth_scopes = None, c_key_version = 1, c_cred_version = 1,
     c_cf_account_email = None, c_verify_status = None, c_verified_at = None, c_created_at = demo_time\<rparr>"

definition demo_full :: string where
  "demo_full = ''cfsx_abcdefghijklmnop_0123456789012345678901234567890123456789''"

definition demo_token :: scoped_token where
  "demo_token = \<lparr>t_id = ''tok1'', t_user_id = ''user1'', t_upstream_credential_id = ''cred1'', t_name = ''ddns'',
     t_lookup_id = ''abcdefghijklmnop'', t_token_prefix = ''cfsx_abcdef'', t_token_hash = ''sha:'' @ demo_full,
     t_version = 1, t_status = ''active'', t_expires_at = None, t_last_used_at = None,
     t_created_at = demo_time, t_revoked_at = None\<rparr>"

definition demo_rule :: scope_rule where
  "demo_rule = \<lparr>rule_zone_id = ''z1'', rule_name_pattern = Some ''home.example.com'',
     rule_name_match = ''exact'', rule_record_types = [''A''], rule_record_ids = None,
     rule_allow_read = True, rule_allow_create = False, rule_allow_write = True, rule_allow_delete = False,
     r_id = ''rule1'', r_scoped_token_id = ''tok1'', r_content_lock = None, r_created_at = demo_time\<rparr>"

definition demo_world :: world where
  "demo_world = \<lparr>w_users = [demo_user], w_credentials = [demo_credential], w_tokens = [demo_token],
     w_rules = [demo_rule], w_audit = [], w_redis = (\<lambda>_. None), w_redis_calls = 0, w_commits = 0,
     w_rand = 0, w_lock_calls = 0, w_now = 1000, w_cf_client = False, w_jwks = (JNull, 0), w_trace = [],
     w_schema_versions = [1]\<rparr>"

end
