(* ===== verification/AuditService.thy ===== *)
theory AuditService
  imports ListFilter Models
begin

text \<open>
  \<^verbatim>\<open>services/audit_service.py\<close>: the audit trail. \<open>write_audit\<close> appends one row in its own
  transaction; \<open>list_audit_logs\<close> reads the rows of one owner, newest first, one page at a time.
\<close>

text \<open>The keyword arguments of \<^verbatim>\<open>write_audit\<close> with their defaults; id and time stamp are the columns' defaults.\<close>

definition audit_entry :: "string \<Rightarrow> string \<Rightarrow> string \<Rightarrow> audit_log" where
  "audit_entry http_method path decision =
     \<lparr>a_id = [], a_ts = \<lparr>instant = 0, aware = True\<rparr>, a_user_id = None, a_scoped_token_id = None, a_token_prefix = None,
      a_method = http_method, a_path = path, a_zone_id = None, a_record_id = None, a_record_name = JNull,
      a_record_type = JNull, a_pre_image = JNull, a_post_image = JNull, a_decision = decision, a_deny_reason = None,
      a_upstream_status = None, a_client_ip = None, a_latency_ms = None\<rparr>"

definition write_audit :: "env \<Rightarrow> audit_log \<Rightarrow> (world, audit_log) prog" where
  "write_audit E entry =
     bind (new_uuid E) (\<lambda>i.
     bind (gets utcnow) (\<lambda>now.
       let row = entry\<lparr>a_id := i, a_ts := now\<rparr>
       in bind (commit_db E (\<lambda>w. w\<lparr>w_audit := w_audit w @ [row]\<rparr>)) (\<lambda>_. return row)))"

definition audit_selected :: "string \<Rightarrow> string option \<Rightarrow> string option \<Rightarrow> int option \<Rightarrow> audit_log \<Rightarrow> bool" where
  "audit_selected user_id token_id zone_id since a \<longleftrightarrow>
     a_user_id a = Some user_id
     \<and> (token_id \<noteq> None \<longrightarrow> a_scoped_token_id a = token_id)
     \<and> (zone_id \<noteq> None \<longrightarrow> a_zone_id a = zone_id)
     \<and> (case since of None \<Rightarrow> True | Some s \<Rightarrow> s \<le> instant (a_ts a))"

text \<open>
  The router admits \<^verbatim>\<open>page >= 1\<close> and \<^verbatim>\<open>1 <= per_page <= 200\<close> only, so offset and limit are
  natural numbers here.
\<close>

definition list_audit_logs ::
  "string \<Rightarrow> string option \<Rightarrow> string option \<Rightarrow> int option \<Rightarrow> nat \<Rightarrow> nat \<Rightarrow> world \<Rightarrow> audit_log list \<times> json" where
  "list_audit_logs user_id token_id zone_id since page per_page w =
     (let base = filter (audit_selected user_id token_id zone_id since) (w_audit w);
          entries = take per_page (drop ((page - 1) * per_page) (sort_key (\<lambda>a. - instant (a_ts a)) base))
      in (entries, JObj [(''page'', JNum (int page)), (''per_page'', JNum (int per_page)),
                         (''count'', JNum (int (length entries))), (''total_count'', JNum (int (length base)))]))"

section \<open>Lemmas\<close>

text \<open>A write either appends the row it was given or changes no table.\<close>

lemma write_audit_cases:
  assumes "write_audit E entry w = (r, t)"
  shows "(\<exists>e. r = Inl e) \<and> t = w\<lparr>w_rand := Suc (w_rand w), w_commits := Suc (w_commits w)\<rparr>
       \<or> (let row = entry\<lparr>a_id := e_uuid E (w_rand w), a_ts := utcnow w\<rparr> in
          r = Inr row \<and> t = w\<lparr>w_rand := Suc (w_rand w), w_commits := Suc (w_commits w), w_audit := w_audit w @ [row]\<rparr>)"
  using assms
  by (auto simp: write_audit_def bind_app new_uuid_def commit_db_def Let_def utcnow_def split: if_splits)

lemma write_audit_ok:
  assumes "constraints_ok E w" and "e_commit_ok E (w_commits w)" and "e_uuid E (w_rand w) \<notin> a_id ` set (w_audit w)"
  shows "\<exists>t. write_audit E entry w = (Inr (entry\<lparr>a_id := e_uuid E (w_rand w), a_ts := utcnow w\<rparr>), t)
     \<and> w_audit t = w_audit w @ [entry\<lparr>a_id := e_uuid E (w_rand w), a_ts := utcnow w\<rparr>]"
proof -
  have "constraints_ok E (w\<lparr>w_rand := Suc (w_rand w), w_audit := w_audit w @ [entry\<lparr>a_id := e_uuid E (w_rand w), a_ts := utcnow w\<rparr>]\<rparr>)"
    using assms(1,3) by (auto simp: constraints_ok_def)
  with assms(2) show ?thesis
    by (simp add: write_audit_def bind_app new_uuid_def commit_db_def Let_def utcnow_def)
qed

lemma keeps_constraints_write_audit [keeps_intros]: "keeps (constraints_ok E) (write_audit E entry)"
  unfolding write_audit_def Let_def by (intro keeps_intros)

lemma emits_write_audit [emits_intros]: "emits P (write_audit E entry)"
  unfolding write_audit_def by (intro emits_intros) simp

section \<open>Properties\<close>

text \<open>
  The audit trail is confined to its owner and loses nothing: every listed row belongs to the
  asking user and satisfies the filters, a page is sorted newest first, and the pages of a
  positive size together hold every selected row exactly once.
\<close>

theorem audit_pages_complete:
  assumes "0 < per_page" and "length (w_audit w) \<le> k * per_page"
  shows "concat (map (\<lambda>i. fst (list_audit_logs user_id token_id zone_id since (Suc i) per_page w)) [0..<k])
           = sort_key (\<lambda>a. - instant (a_ts a)) (filter (audit_selected user_id token_id zone_id since) (w_audit w))
       \<and> (\<forall>page. \<forall>a \<in> set (fst (list_audit_logs user_id token_id zone_id since page per_page w)). a_user_id a = Some user_id)
       \<and> (\<forall>page. sorted (map (\<lambda>a. - instant (a_ts a)) (fst (list_audit_logs user_id token_id zone_id since page per_page w))))"
proof (intro conjI allI ballI)
  let ?base = "filter (audit_selected user_id token_id zone_id since) (w_audit w)"
  have len: "length (sort_key (\<lambda>a. - instant (a_ts a)) ?base) \<le> k * per_page"
    using order_trans [OF length_filter_le assms(2)] by simp
  show "concat (map (\<lambda>i. fst (list_audit_logs user_id token_id zone_id since (Suc i) per_page w)) [0..<k])
      = sort_key (\<lambda>a. - instant (a_ts a)) ?base"
    using concat_pages [OF len assms(1)] by (simp add: list_audit_logs_def Let_def)
next
  fix page a
  assume "a \<in> set (fst (list_audit_logs user_id token_id zone_id since page per_page w))"
  then have "audit_selected user_id token_id zone_id since a"
    by (auto simp: list_audit_logs_def Let_def dest!: in_set_takeD in_set_dropD)
  then show "a_user_id a = Some user_id" by (simp add: audit_selected_def)
next
  fix page
  show "sorted (map (\<lambda>a. - instant (a_ts a)) (fst (list_audit_logs user_id token_id zone_id since page per_page w)))"
    by (simp add: list_audit_logs_def Let_def take_map [symmetric] drop_map [symmetric] sorted_wrt_take sorted_wrt_drop)
qed

section \<open>Witnesses\<close>

definition sample_audit :: "string \<Rightarrow> int \<Rightarrow> audit_log" where
  "sample_audit i at = (audit_entry ''GET'' ''/p'' ''deny'')\<lparr>a_id := i, a_user_id := Some ''user1'', a_ts := \<lparr>instant = at, aware = True\<rparr>\<rparr>"

theorem audit_pages_complete_witness:
  "map a_id (concat (map (\<lambda>i. fst (list_audit_logs ''user1'' None None None (Suc i) 1
      (demo_world\<lparr>w_audit := [sample_audit ''a'' 5, sample_audit ''b'' 9]\<rparr>))) [0..<2])) = [''b'', ''a'']"
proof -
  let ?w = "demo_world\<lparr>w_audit := [sample_audit ''a'' 5, sample_audit ''b'' 9]\<rparr>"
  have "concat (map (\<lambda>i. fst (list_audit_logs ''user1'' None None None (Suc i) 1 ?w)) [0..<2])
      = sort_key (\<lambda>a. - instant (a_ts a)) (filter (audit_selected ''user1'' None None None) (w_audit ?w))"
    using conjunct1 [OF audit_pages_complete [of 1 ?w 2 "''user1''" None None None]] by simp
  then show ?thesis
    by (simp add: sample_audit_def audit_entry_def audit_selected_def)
qed

end
