(* ===== verification/Locks.thy ===== *)
theory Locks
  imports Models
begin

text \<open>
  \<^verbatim>\<open>db/locks.py\<close>: the advisory lock around a block and the lock name of a record. The answer of
  the lock server (MySQL's \<^verbatim>\<open>GET_LOCK\<close> within its timeout, or the process-local
  \<^verbatim>\<open>asyncio.Lock\<close> on other dialects) comes from the environment, call by call. Taking and
  releasing the lock are events of the trace.
\<close>

definition mutation_lock_name :: "env \<Rightarrow> string \<Rightarrow> string \<Rightarrow> string" where
  "mutation_lock_name E zone_id record_id = ''m'' @ take 60 (e_sha256 E (zone_id @ '':'' @ record_id))"

definition acquire_lock :: "env \<Rightarrow> string \<Rightarrow> (world, unit) prog" where
  "acquire_lock E name = (\<lambda>w.
     let w' = w\<lparr>w_lock_calls := Suc (w_lock_calls w)\<rparr>
     in if e_get_lock E (w_lock_calls w) name
        then (Inr (), w'\<lparr>w_trace := w_trace w @ [Locked name]\<rparr>)
        else (Inl LockUnavailable, w'))"

definition release_lock :: "string \<Rightarrow> world \<Rightarrow> world" where
  "release_lock name w = w\<lparr>w_trace := w_trace w @ [Unlocked name]\<rparr>"

text \<open>
  \<^verbatim>\<open>async with advisory_lock(conn, name): body\<close>. The release is in a \<^verbatim>\<open>finally\<close>, so it runs when
  the body raises as well; on both dialects a failed acquisition raises
  \<^verbatim>\<open>LockUnavailable\<close> before the body starts.
\<close>

definition advisory_lock :: "env \<Rightarrow> string \<Rightarrow> (world, 'a) prog \<Rightarrow> (world, 'a) prog" where
  "advisory_lock E name body =
     bind (acquire_lock E name) (\<lambda>_. \<lambda>w. (case body w of (r, t) \<Rightarrow> (r, release_lock name t)))"

section \<open>Lemmas\<close>

lemma advisory_lock_unavailable:
  "\<not> e_get_lock E (w_lock_calls w) name \<Longrightarrow>
   advisory_lock E name body w = (Inl LockUnavailable, w\<lparr>w_lock_calls := Suc (w_lock_calls w)\<rparr>)"
  by (simp add: advisory_lock_def acquire_lock_def bind_app Let_def)

lemma advisory_lock_acquired:
  "e_get_lock E (w_lock_calls w) name \<Longrightarrow>
   body (w\<lparr>w_lock_calls := Suc (w_lock_calls w), w_trace := w_trace w @ [Locked name]\<rparr>) = (r, t) \<Longrightarrow>
   advisory_lock E name body w = (r, release_lock name t)"
  by (simp add: advisory_lock_def acquire_lock_def bind_app Let_def)

lemma keeps_advisory_lock:
  assumes "keeps P body"
    and "\<And>w n. P w \<Longrightarrow> P (w\<lparr>w_lock_calls := n\<rparr>)"
    and "\<And>w tr. P w \<Longrightarrow> P (w\<lparr>w_trace := tr\<rparr>)"
  shows "keeps P (advisory_lock E name body)"
proof (rule keepsI)
  fix w assume P: "P w"
  show "P (snd (advisory_lock E name body w))"
  proof (cases "e_get_lock E (w_lock_calls w) name")
    case True
    define w' where "w' = w\<lparr>w_lock_calls := Suc (w_lock_calls w), w_trace := w_trace w @ [Locked name]\<rparr>"
    obtain r t where run: "body w' = (r, t)" by (cases "body w'")
    have "P w'" unfolding w'_def using assms(2,3) P by blast
    then have "P t" using keepsD [OF assms(1)] run by blast
    then have "P (release_lock name t)" unfolding release_lock_def using assms(3) by blast
    moreover have "advisory_lock E name body w = (r, release_lock name t)"
      using True run unfolding w'_def by (rule advisory_lock_acquired)
    ultimately show ?thesis by simp
  next
    case False
    with P assms(2) show ?thesis by (simp add: advisory_lock_unavailable)
  qed
qed

lemma keeps_constraints_lock [keeps_intros]:
  "keeps (constraints_ok E) body \<Longrightarrow> keeps (constraints_ok E) (advisory_lock E name body)"
  by (rule keeps_advisory_lock) simp_all

section \<open>Properties\<close>

text \<open>
  Lock names fit MySQL: every mutation lock name has at most 61 characters, below the limit of
  64 that \<^verbatim>\<open>GET_LOCK\<close> imposes, whatever the ids and the digest.
\<close>

theorem mutation_lock_name_bounded:
  "length (mutation_lock_name E zone_id record_id) \<le> 61 \<and> hd (mutation_lock_name E zone_id record_id) = CHR ''m''"
  by (simp add: mutation_lock_name_def)

end
