(* ===== verification/Crypto.thy ===== *)
theory Crypto
  imports Models
begin

text \<open>
  \<^verbatim>\<open>core/crypto.py\<close>: scoped-token generation, parsing and hashing, and the Fernet helpers.
  SHA-256 and Fernet are primitives of the environment; \<^verbatim>\<open>secrets.choice\<close> reads the
  environment's random tape.
\<close>

section \<open>Definitions\<close>

definition TOKEN_ALPHABET :: string where
  "TOKEN_ALPHABET = ''ABCDEFGHIJKLMNOPQRSTUVWXYZabcdefghijklmnopqrstuvwxyz0123456789''"

definition LOOKUP_ID_LEN :: nat where "LOOKUP_ID_LEN = 16"

definition SECRET_LEN :: nat where "SECRET_LEN = 40"

definition secrets_choice :: "env \<Rightarrow> 'a list \<Rightarrow> (world, 'a) prog" where
  "secrets_choice E xs = (\<lambda>w. (Inr (xs ! (e_tape E (w_rand w) mod length xs)), w\<lparr>w_rand := Suc (w_rand w)\<rparr>))"

fun generate_random_string :: "env \<Rightarrow> nat \<Rightarrow> (world, string) prog" where
  "generate_random_string E 0 = return []"
| "generate_random_string E (Suc n) =
     bind (secrets_choice E TOKEN_ALPHABET) (\<lambda>c.
     bind (generate_random_string E n) (\<lambda>cs. return (c # cs)))"

definition encrypt_secret :: "env \<Rightarrow> string \<Rightarrow> (world, string) prog" where
  "encrypt_secret E plaintext =
     (\<lambda>w. (Inr (e_fernet_encrypt E (w_rand w) plaintext), w\<lparr>w_rand := Suc (w_rand w)\<rparr>))"

definition decrypt_secret :: "env \<Rightarrow> string \<Rightarrow> string res" where
  "decrypt_secret E ciphertext = e_fernet_decrypt E ciphertext"

definition hash_token :: "env \<Rightarrow> string \<Rightarrow> string" where
  "hash_token E full = e_sha256 E full"

definition verify_token :: "env \<Rightarrow> string \<Rightarrow> string \<Rightarrow> bool" where
  "verify_token E full token_hash \<longleftrightarrow> hash_token E full = token_hash"

record generated =
  g_lookup_id :: string
  g_secret :: string
  g_full :: string
  g_token_hash :: string
  g_token_prefix :: string

definition build_token :: "env \<Rightarrow> string \<Rightarrow> string \<Rightarrow> generated" where
  "build_token E lookup_id secret =
     (let brand = s_token_brand (e_settings E);
          full = brand @ ''_'' @ lookup_id @ ''_'' @ secret
      in \<lparr>g_lookup_id = lookup_id, g_secret = secret, g_full = full,
          g_token_hash = hash_token E full, g_token_prefix = brand @ ''_'' @ take 6 lookup_id\<rparr>)"

definition generate_scoped_token :: "env \<Rightarrow> (world, generated) prog" where
  "generate_scoped_token E =
     bind (generate_random_string E LOOKUP_ID_LEN) (\<lambda>lookup_id.
     bind (generate_random_string E SECRET_LEN) (\<lambda>secret.
       return (build_token E lookup_id secret)))"

definition parse_scoped_token :: "string \<Rightarrow> (string \<times> string) option" where
  "parse_scoped_token full =
     (case py_split CHR ''_'' full of
        [_, lookup_id, secret] \<Rightarrow>
          if length lookup_id \<noteq> LOOKUP_ID_LEN \<or> length secret \<noteq> SECRET_LEN then None
          else if \<not> py_isalnum lookup_id \<or> \<not> py_isalnum secret then None
          else Some (lookup_id, secret)
      | _ \<Rightarrow> None)"

section \<open>Lemmas\<close>

lemma alphabet_alnum: "c \<in> set TOKEN_ALPHABET \<Longrightarrow> alnum_char c \<and> c \<noteq> CHR ''_''"
proof -
  have "list_all (\<lambda>c. alnum_char c \<and> c \<noteq> CHR ''_'') TOKEN_ALPHABET" by code_simp
  then show "c \<in> set TOKEN_ALPHABET \<Longrightarrow> alnum_char c \<and> c \<noteq> CHR ''_''" by (simp add: list_all_iff)
qed

lemma alphabet_length: "0 < length TOKEN_ALPHABET"
  by (simp add: TOKEN_ALPHABET_def)

lemma generate_random_string_spec:
  "\<exists>s t. generate_random_string E n w = (Inr s, t) \<and> length s = n \<and> set s \<subseteq> set TOKEN_ALPHABET
     \<and> t = w\<lparr>w_rand := w_rand w + n\<rparr>"
proof (induction n arbitrary: w)
  case (Suc n)
  define c where "c = TOKEN_ALPHABET ! (e_tape E (w_rand w) mod length TOKEN_ALPHABET)"
  have "c \<in> set TOKEN_ALPHABET" unfolding c_def using alphabet_length by simp
  moreover obtain s t where "generate_random_string E n (w\<lparr>w_rand := Suc (w_rand w)\<rparr>) = (Inr s, t)"
    "length s = n" "set s \<subseteq> set TOKEN_ALPHABET" "t = w\<lparr>w_rand := w_rand w + Suc n\<rparr>"
    using Suc [of "w\<lparr>w_rand := Suc (w_rand w)\<rparr>"] by auto
  ultimately show ?case
    by (simp add: bind_app secrets_choice_def c_def [symmetric])
qed simp

lemma alphabet_string:
  "set s \<subseteq> set TOKEN_ALPHABET \<Longrightarrow> s \<noteq> [] \<Longrightarrow> py_isalnum s \<and> CHR ''_'' \<notin> set s"
  using alphabet_alnum by (auto simp: py_isalnum_def list_all_iff)

lemma generate_scoped_token_spec:
  "\<exists>l s. length l = LOOKUP_ID_LEN \<and> length s = SECRET_LEN
     \<and> set l \<subseteq> set TOKEN_ALPHABET \<and> set s \<subseteq> set TOKEN_ALPHABET
     \<and> generate_scoped_token E w = (Inr (build_token E l s), w\<lparr>w_rand := w_rand w + (LOOKUP_ID_LEN + SECRET_LEN)\<rparr>)"
proof -
  obtain l where l: "generate_random_string E LOOKUP_ID_LEN w = (Inr l, w\<lparr>w_rand := w_rand w + LOOKUP_ID_LEN\<rparr>)"
    "length l = LOOKUP_ID_LEN" "set l \<subseteq> set TOKEN_ALPHABET"
    using generate_random_string_spec by blast
  obtain s where s: "generate_random_string E SECRET_LEN (w\<lparr>w_rand := w_rand w + LOOKUP_ID_LEN\<rparr>)
      = (Inr s, w\<lparr>w_rand := w_rand w + (LOOKUP_ID_LEN + SECRET_LEN)\<rparr>)"
    "length s = SECRET_LEN" "set s \<subseteq> set TOKEN_ALPHABET"
    using generate_random_string_spec [of E SECRET_LEN "w\<lparr>w_rand := w_rand w + LOOKUP_ID_LEN\<rparr>"]
    by (auto simp: add.assoc)
  show ?thesis
    by (intro exI [of _ l] exI [of _ s]) (simp add: generate_scoped_token_def bind_app l s)
qed

lemma parse_build_token:
  assumes "CHR ''_'' \<notin> set (s_token_brand (e_settings E))"
    and "length l = LOOKUP_ID_LEN" "length s = SECRET_LEN"
    and "set l \<subseteq> set TOKEN_ALPHABET" "set s \<subseteq> set TOKEN_ALPHABET"
  shows "parse_scoped_token (g_full (build_token E l s)) = Some (l, s)"
proof -
  have ne: "l \<noteq> []" "s \<noteq> []" using assms(2,3) by (auto simp: LOOKUP_ID_LEN_def SECRET_LEN_def)
  note al = alphabet_string [OF assms(4) ne(1)] alphabet_string [OF assms(5) ne(2)]
  have "g_full (build_token E l s) = s_token_brand (e_settings E) @ CHR ''_'' # l @ CHR ''_'' # s"
    by (simp add: build_token_def Let_def)
  then have "py_split CHR ''_'' (g_full (build_token E l s)) = [s_token_brand (e_settings E), l, s]"
    using assms(1) al by (simp only:) (simp add: py_split_append_sep py_split_no_sep)
  then show ?thesis using al assms(2,3) by (simp add: parse_scoped_token_def)
qed

lemma parse_scoped_token_SomeD:
  assumes "parse_scoped_token full = Some (l, s)"
  shows "\<exists>brand. full = brand @ ''_'' @ l @ ''_'' @ s \<and> CHR ''_'' \<notin> set brand
     \<and> length l = LOOKUP_ID_LEN \<and> length s = SECRET_LEN \<and> py_isalnum l \<and> py_isalnum s"
proof -
  from assms obtain brand where sp: "py_split CHR ''_'' full = [brand, l, s]"
    and rest: "length l = LOOKUP_ID_LEN" "length s = SECRET_LEN" "py_isalnum l" "py_isalnum s"
    by (auto simp: parse_scoped_token_def split: list.splits if_splits)
  have "full = py_join CHR ''_'' [brand, l, s]" using sp py_join_split by metis
  moreover have "CHR ''_'' \<notin> set brand" using sp sep_not_in_split [of brand "CHR ''_''" full] by simp
  ultimately show ?thesis using rest by simp
qed

lemma keeps_constraints_crypto [keeps_intros]:
  "keeps (constraints_ok E) (generate_scoped_token E)"
  "keeps (constraints_ok E) (encrypt_secret E p)"
proof -
  show "keeps (constraints_ok E) (generate_scoped_token E)"
    using generate_scoped_token_spec [of E] by (intro keepsI) (metis constraints_ok_upd(2) snd_conv)
  show "keeps (constraints_ok E) (encrypt_secret E p)"
    by (rule keepsI) (simp add: encrypt_secret_def)
qed

section \<open>Properties\<close>

text \<open>
  Token round trip: a freshly generated scoped token always parses back to its lookup id and
  secret (for a brand without underscores, as the default \<^verbatim>\<open>cfsx\<close>), and verifies against the
  hash stored for it.
\<close>

theorem generated_token_parses:
  assumes "CHR ''_'' \<notin> set (s_token_brand (e_settings E))"
    and "generate_scoped_token E w = (Inr g, t)"
  shows "parse_scoped_token (g_full g) = Some (g_lookup_id g, g_secret g)
       \<and> verify_token E (g_full g) (g_token_hash g)"
proof -
  obtain l s where "length l = LOOKUP_ID_LEN" "length s = SECRET_LEN"
    "set l \<subseteq> set TOKEN_ALPHABET" "set s \<subseteq> set TOKEN_ALPHABET" and g: "g = build_token E l s"
    using generate_scoped_token_spec [of E w] assms(2) by auto
  then show ?thesis
    using parse_build_token [OF assms(1)] by (auto simp: build_token_def Let_def verify_token_def)
qed

text \<open>
  What parses is well formed: \<open>parse_scoped_token\<close> accepts exactly the strings
  \<^verbatim>\<open>brand_lookup_secret\<close> with a 16-character alphanumeric lookup id, a 40-character
  alphanumeric secret and no further underscore; it does not look at the brand.
\<close>

theorem parse_scoped_token_iff:
  "parse_scoped_token full = Some (l, s) \<longleftrightarrow>
     (\<exists>brand. full = brand @ ''_'' @ l @ ''_'' @ s \<and> CHR ''_'' \<notin> set brand
        \<and> CHR ''_'' \<notin> set l \<and> CHR ''_'' \<notin> set s
        \<and> length l = 16 \<and> length s = 40 \<and> py_isalnum l \<and> py_isalnum s)"
proof
  assume p: "parse_scoped_token full = Some (l, s)"
  have "\<not> alnum_char CHR ''_''" by code_simp
  then have "py_isalnum x \<Longrightarrow> CHR ''_'' \<notin> set x" for x by (auto simp: py_isalnum_def list_all_iff)
  with parse_scoped_token_SomeD [OF p]
  show "\<exists>brand. full = brand @ ''_'' @ l @ ''_'' @ s \<and> CHR ''_'' \<notin> set brand
        \<and> CHR ''_'' \<notin> set l \<and> CHR ''_'' \<notin> set s
        \<and> length l = 16 \<and> length s = 40 \<and> py_isalnum l \<and> py_isalnum s"
    by (auto simp: LOOKUP_ID_LEN_def SECRET_LEN_def)
next
  assume "\<exists>brand. full = brand @ ''_'' @ l @ ''_'' @ s \<and> CHR ''_'' \<notin> set brand
        \<and> CHR ''_'' \<notin> set l \<and> CHR ''_'' \<notin> set s
        \<and> length l = 16 \<and> length s = 40 \<and> py_isalnum l \<and> py_isalnum s"
  then obtain brand where "full = brand @ CHR ''_'' # l @ CHR ''_'' # s" "CHR ''_'' \<notin> set brand"
    "CHR ''_'' \<notin> set l" "CHR ''_'' \<notin> set s" "length l = 16" "length s = 40" "py_isalnum l" "py_isalnum s"
    by auto
  then show "parse_scoped_token full = Some (l, s)"
    by (simp add: parse_scoped_token_def py_split_append_sep py_split_no_sep LOOKUP_ID_LEN_def SECRET_LEN_def)
qed

text \<open>The token shown in the OpenAPI examples of \<^verbatim>\<open>schemas/management.py\<close> does not parse.\<close>

lemma documented_token_malformed:
  "parse_scoped_token ''cfsx_AbCdEf0123456789AbCd_1234567890abcdefghijklmnopqrstuvwxyzABCD'' = None"
  by (simp add: parse_scoped_token_def LOOKUP_ID_LEN_def)

section \<open>Witnesses\<close>

theorem generated_token_parses_witness:
  "\<exists>g t. generate_scoped_token demo_env demo_world = (Inr g, t)
     \<and> parse_scoped_token (g_full g) = Some (g_lookup_id g, g_secret g)
     \<and> verify_token demo_env (g_full g) (g_token_hash g)"
proof -
  obtain g t where run: "generate_scoped_token demo_env demo_world = (Inr g, t)"
    using generate_scoped_token_spec [of demo_env demo_world] by blast
  have brand: "CHR ''_'' \<notin> set (s_token_brand (e_settings demo_env))" by code_simp
  from run generated_token_parses [OF brand run] show ?thesis by blast
qed

end
