(* ===== verification/Cache.thy ===== *)
theory Cache
  imports Models
begin

text \<open>
  \<^verbatim>\<open>cache/redis.py\<close>: the Redis accelerator. Every call may fail (the environment decides, call by
  call) and every helper swallows the failure. The locale \<open>tolerant_cache\<close> is the interface the
  rest of the proxy relies on.
\<close>

section \<open>Redis commands\<close>

text \<open>The commands of the Redis client that the sources use; an unreachable server raises.\<close>

definition redis_call :: "env \<Rightarrow> (world, 'a) prog \<Rightarrow> (world, 'a) prog" where
  "redis_call E op = (\<lambda>w.
     let w' = w\<lparr>w_redis_calls := Suc (w_redis_calls w)\<rparr>
     in if e_redis_up E (w_redis_calls w) then op w' else (Inl RedisError, w'))"

fun unexpired :: "int \<Rightarrow> (redis_raw \<times> int option) option \<Rightarrow> redis_raw option" where
  "unexpired now None = None"
| "unexpired now (Some (v, None)) = Some v"
| "unexpired now (Some (v, Some t)) = (if now < t then Some v else None)"

definition live_entry :: "world \<Rightarrow> string \<Rightarrow> redis_raw option" where
  "live_entry w k = unexpired (w_now w) (w_redis w k)"

definition redis_get :: "env \<Rightarrow> string \<Rightarrow> (world, redis_raw option) prog" where
  "redis_get E k = redis_call E (gets (\<lambda>w. live_entry w k))"

text \<open>\<^verbatim>\<open>SET key value EX ttl\<close>; Redis rejects a non-positive expiry.\<close>

definition redis_set :: "env \<Rightarrow> string \<Rightarrow> json \<Rightarrow> int \<Rightarrow> (world, unit) prog" where
  "redis_set E k v ttl = redis_call E
     (if ttl \<le> 0 then raise RedisError
      else modify (\<lambda>w. w\<lparr>w_redis := (w_redis w)(k \<mapsto> (Raw_json v, Some (w_now w + ttl)))\<rparr>))"

definition redis_delete :: "env \<Rightarrow> string list \<Rightarrow> (world, unit) prog" where
  "redis_delete E ks = redis_call E (modify (\<lambda>w. w\<lparr>w_redis := (w_redis w |` (- set ks))\<rparr>))"

definition redis_getdel :: "env \<Rightarrow> string \<Rightarrow> (world, redis_raw option) prog" where
  "redis_getdel E k = redis_call E
     (bind (gets (\<lambda>w. live_entry w k)) (\<lambda>v.
      bind (modify (\<lambda>w. w\<lparr>w_redis := (w_redis w)(k := None)\<rparr>)) (\<lambda>_. return v)))"

text \<open>\<^verbatim>\<open>INCR\<close> keeps the expiry of a live counter and creates a counter without one.\<close>

definition redis_incr :: "env \<Rightarrow> string \<Rightarrow> (world, int) prog" where
  "redis_incr E k = redis_call E (\<lambda>w.
     case live_entry w k of
       None \<Rightarrow> (Inr 1, w\<lparr>w_redis := (w_redis w)(k \<mapsto> (Raw_json (JNum 1), None))\<rparr>)
     | Some (Raw_json (JNum n)) \<Rightarrow>
         (Inr (n + 1), w\<lparr>w_redis := (w_redis w)(k \<mapsto> (Raw_json (JNum (n + 1)), snd (the (w_redis w k))))\<rparr>)
     | Some _ \<Rightarrow> (Inl RedisError, w))"

definition redis_expire :: "env \<Rightarrow> string \<Rightarrow> int \<Rightarrow> (world, unit) prog" where
  "redis_expire E k secs = redis_call E (modify (\<lambda>w.
     case w_redis w k of
       None \<Rightarrow> w
     | Some (v, _) \<Rightarrow> w\<lparr>w_redis := (w_redis w)(k \<mapsto> (v, Some (w_now w + secs)))\<rparr>))"

section \<open>The helpers of the source\<close>

definition decode_raw :: "redis_raw option \<Rightarrow> json" where
  "decode_raw raw = (case raw of None \<Rightarrow> JNull | Some (Raw_json v) \<Rightarrow> v | Some Raw_garbage \<Rightarrow> JNull)"

definition cache_get_json :: "env \<Rightarrow> string \<Rightarrow> (world, json) prog" where
  "cache_get_json E key =
     catch (bind (redis_get E key) (\<lambda>raw. return (decode_raw raw))) (\<lambda>_. return JNull)"

definition cache_set_json :: "env \<Rightarrow> string \<Rightarrow> json \<Rightarrow> int \<Rightarrow> (world, unit) prog" where
  "cache_set_json E key v ttl = catch (redis_set E key v ttl) (\<lambda>_. return ())"

definition cache_del :: "env \<Rightarrow> string list \<Rightarrow> (world, unit) prog" where
  "cache_del E keys = (if keys = [] then return () else catch (redis_delete E keys) (\<lambda>_. return ()))"

definition rate_limit_incr :: "env \<Rightarrow> string \<Rightarrow> int \<Rightarrow> (world, int) prog" where
  "rate_limit_incr E key window =
     catch (bind (redis_incr E key) (\<lambda>count.
              if count = 1 then bind (redis_expire E key window) (\<lambda>_. return count)
              else return count))
           (\<lambda>_. return 0)"

definition rules_key :: "string \<Rightarrow> int \<Rightarrow> string" where
  "rules_key lookup_id version = ''rules:'' @ lookup_id @ '':'' @ int_str version"

definition oauth_at_key :: "string \<Rightarrow> string" where
  "oauth_at_key cred_id = ''oauth_at:'' @ cred_id"

definition zones_key :: "string \<Rightarrow> string" where
  "zones_key cred_id = ''zones:'' @ cred_id"

definition oauth_state_key :: "string \<Rightarrow> string" where
  "oauth_state_key state = ''oauth_state:'' @ state"

section \<open>The interface of a tolerant cache\<close>

text \<open>
  What the clients of the cache rely on: no operation raises, a read gives nothing or the live
  value, a write or a deletion changes at most its own key, and the value at that key is the
  old one, the new one or none. The law about everything else in the state is that the
  predicates in \<open>frame\<close> do not change.
\<close>

definition live_json :: "world \<Rightarrow> string \<Rightarrow> json option" where
  "live_json w k = (case live_entry w k of Some (Raw_json v) \<Rightarrow> Some v | _ \<Rightarrow> None)"

text \<open>The part of the world that no cache operation touches.\<close>

definition same_but_redis :: "world \<Rightarrow> world \<Rightarrow> bool" where
  "same_but_redis w t \<longleftrightarrow> t = w\<lparr>w_redis := w_redis t, w_redis_calls := w_redis_calls t\<rparr>"

locale tolerant_cache =
  fixes cget :: "string \<Rightarrow> (world, json) prog"
    and cset :: "string \<Rightarrow> json \<Rightarrow> int \<Rightarrow> (world, unit) prog"
    and cdel :: "string list \<Rightarrow> (world, unit) prog"
  assumes get_tolerant: "\<exists>v. fst (cget k w) = Inr v \<and> (v = JNull \<or> live_json w k = Some v)"
    and get_frame: "same_but_redis w (snd (cget k w))" "live_json (snd (cget k w)) = live_json w"
    and set_tolerant: "fst (cset k v ttl w) = Inr ()"
    and set_frame: "same_but_redis w (snd (cset k v ttl w))"
      "live_json (snd (cset k v ttl w)) = live_json w \<or> live_json (snd (cset k v ttl w)) = (live_json w)(k \<mapsto> v)"
    and del_tolerant: "fst (cdel ks w) = Inr ()"
    and del_frame: "same_but_redis w (snd (cdel ks w))"
      "\<And>k. live_json (snd (cdel ks w)) k = live_json w k \<or> live_json (snd (cdel ks w)) k = None"
begin

text \<open>A predicate of the cached entries, the shape of every cache-coherence invariant.\<close>

definition entries :: "(string \<Rightarrow> json \<Rightarrow> bool) \<Rightarrow> world \<Rightarrow> bool" where
  "entries P w \<longleftrightarrow> (\<forall>k v. live_json w k = Some v \<longrightarrow> P k v)"

lemma get_entries:
  assumes "entries P w"
  obtains v t where "cget k w = (Inr v, t)" and "v = JNull \<or> P k v" and "same_but_redis w t" and "entries P t"
proof -
  from get_tolerant [of k w] obtain v where v: "fst (cget k w) = Inr v" "v = JNull \<or> live_json w k = Some v"
    by blast
  moreover have "entries P (snd (cget k w))"
    using assms get_frame(2) [of k w] by (simp add: entries_def)
  ultimately show thesis
    using that [of v "snd (cget k w)"] assms get_frame(1) [of w k]
    by (metis entries_def prod.collapse)
qed

lemma set_entries:
  assumes "entries P w" and "P k v"
  obtains t where "cset k v ttl w = (Inr (), t)" and "same_but_redis w t" and "entries P t"
proof -
  have "entries P (snd (cset k v ttl w))"
    using assms set_frame(2) [of k v ttl w] by (auto simp: entries_def split: if_splits)
  then show thesis
    using that [of "snd (cset k v ttl w)"] set_tolerant [of k v ttl w] set_frame(1) [of w k v ttl]
    by (metis prod.collapse)
qed

lemma del_entries:
  assumes "entries P w"
  obtains t where "cdel ks w = (Inr (), t)" and "same_but_redis w t" and "entries P t"
proof -
  have "entries P (snd (cdel ks w))"
    unfolding entries_def by (metis assms del_frame(2) entries_def option.distinct(1))
  then show thesis
    using that [of "snd (cdel ks w)"] del_tolerant [of ks w] del_frame(1) [of w ks]
    by (metis prod.collapse)
qed

end

section \<open>The helpers are a tolerant cache\<close>

lemma live_entry_upd [simp]:
  "live_entry (w\<lparr>w_redis_calls := n\<rparr>) = live_entry w"
  by (simp add: live_entry_def fun_eq_iff)

lemma live_json_upd [simp]:
  "live_json (w\<lparr>w_redis_calls := n\<rparr>) = live_json w"
  by (simp add: live_json_def fun_eq_iff)

lemma live_json_set:
  "0 < ttl \<Longrightarrow> live_json (w\<lparr>w_redis_calls := n, w_redis := (w_redis w)(k \<mapsto> (Raw_json v, Some (w_now w + ttl)))\<rparr>)
     = (live_json w)(k \<mapsto> v)"
  by (auto simp: live_json_def live_entry_def fun_eq_iff)

lemma live_json_del:
  "live_json (w\<lparr>w_redis_calls := n, w_redis := (w_redis w |` (- set ks))\<rparr>) k
     = (if k \<in> set ks then None else live_json w k)"
  by (simp add: live_json_def live_entry_def)

lemma decode_live: "decode_raw (live_entry w k) = v \<Longrightarrow> v = JNull \<or> live_json w k = Some v"
  by (auto simp: decode_raw_def live_json_def split: option.splits redis_raw.splits)

lemma cache_get_json_run:
  "cache_get_json E k w =
     (Inr (if e_redis_up E (w_redis_calls w) then decode_raw (live_entry w k) else JNull),
      w\<lparr>w_redis_calls := Suc (w_redis_calls w)\<rparr>)"
  by (simp add: cache_get_json_def redis_get_def redis_call_def catch_app bind_app Let_def)

lemma cache_set_json_run:
  "cache_set_json E k v ttl w =
     (Inr (), if e_redis_up E (w_redis_calls w) \<and> 0 < ttl
       then w\<lparr>w_redis_calls := Suc (w_redis_calls w), w_redis := (w_redis w)(k \<mapsto> (Raw_json v, Some (w_now w + ttl)))\<rparr>
       else w\<lparr>w_redis_calls := Suc (w_redis_calls w)\<rparr>)"
  by (simp add: cache_set_json_def redis_set_def redis_call_def catch_app Let_def)

lemma cache_del_run:
  "cache_del E ks w =
     (Inr (), if ks = [] then w
       else if e_redis_up E (w_redis_calls w)
       then w\<lparr>w_redis_calls := Suc (w_redis_calls w), w_redis := (w_redis w |` (- set ks))\<rparr>
       else w\<lparr>w_redis_calls := Suc (w_redis_calls w)\<rparr>)"
  by (simp add: cache_del_def redis_delete_def redis_call_def catch_app Let_def)

interpretation redis: tolerant_cache "cache_get_json E" "cache_set_json E" "cache_del E" for E
proof unfold_locales
  fix k w
  show "\<exists>v. fst (cache_get_json E k w) = Inr v \<and> (v = JNull \<or> live_json w k = Some v)"
    using decode_live [of w k] by (auto simp: cache_get_json_run)
  show "same_but_redis w (snd (cache_get_json E k w))"
    by (simp add: cache_get_json_run same_but_redis_def)
  show "live_json (snd (cache_get_json E k w)) = live_json w"
    by (simp add: cache_get_json_run)
next
  fix k v ttl w
  show "fst (cache_set_json E k v ttl w) = Inr ()" by (simp add: cache_set_json_run)
  show "same_but_redis w (snd (cache_set_json E k v ttl w))"
    by (simp add: cache_set_json_run same_but_redis_def)
  show "live_json (snd (cache_set_json E k v ttl w)) = live_json w
      \<or> live_json (snd (cache_set_json E k v ttl w)) = (live_json w)(k \<mapsto> v)"
    by (simp add: cache_set_json_run live_json_set)
next
  fix ks w
  show "fst (cache_del E ks w) = Inr ()" by (simp add: cache_del_run)
  show "same_but_redis w (snd (cache_del E ks w))"
    by (simp add: cache_del_run same_but_redis_def)
  show "live_json (snd (cache_del E ks w)) k = live_json w k \<or> live_json (snd (cache_del E ks w)) k = None" for k
    by (simp add: cache_del_run live_json_del)
qed

lemma emits_cache [emits_intros]:
  "emits P (cache_get_json E k)" "emits P (cache_set_json E k v ttl)" "emits P (cache_del E ks)"
  by (rule emits_same_trace, simp add: cache_get_json_run cache_set_json_run cache_del_run)+

lemma keeps_constraints_cache [keeps_intros]:
  "keeps (constraints_ok E) (cache_get_json E' k)" "keeps (constraints_ok E) (cache_set_json E' k v ttl)"
  "keeps (constraints_ok E) (cache_del E' ks)"
  by (rule keepsI, simp add: cache_get_json_run cache_set_json_run cache_del_run)+

section \<open>Keys\<close>

lemma int_str_no_colon: "CHR '':'' \<notin> set (int_str i)"
proof
  assume "CHR '':'' \<in> set (int_str i)"
  then obtain n where "CHR '':'' \<in> set (nat_str n)" by (auto simp: int_str_def split: if_splits)
  then obtain k where "k < 10" "CHR '':'' = digit_char k" using nat_str_digits by blast
  then have "(of_char CHR '':'' :: nat) = 48 + k" by (simp add: digit_char_def)
  with \<open>k < 10\<close> show False by simp
qed

lemma int_str_inj: "int_str i = int_str j \<Longrightarrow> i = j"
proof -
  have minus: "CHR ''-'' \<notin> set (nat_str n)" for n
  proof
    assume "CHR ''-'' \<in> set (nat_str n)"
    then obtain k where "k < 10" "CHR ''-'' = digit_char k" using nat_str_digits by blast
    then have "(of_char CHR ''-'' :: nat) = 48 + k" by (simp add: digit_char_def)
    then show False by simp
  qed
  assume eq: "int_str i = int_str j"
  then have "i < 0 \<longleftrightarrow> j < 0"
    using minus by (auto simp: int_str_def split: if_splits) (metis list.set_intros(1))+
  with eq nat_str_inj show "i = j"
    by (auto simp: int_str_def split: if_splits) (metis eq_nat_nat_iff neg_0_le_iff_le neg_equal_iff_equal less_imp_le nat_le_eq_zle not_less order_refl)+
qed

text \<open>The last colon of a rules key separates the lookup id from the version.\<close>

lemma rules_key_inj:
  assumes "rules_key l v = rules_key l' v'"
  shows "l = l' \<and> v = v'"
proof -
  have eq: "l @ CHR '':'' # int_str v = l' @ CHR '':'' # int_str v'" using assms by (simp add: rules_key_def)
  have tail: "CHR '':'' \<notin> set s \<Longrightarrow> takeWhile (\<lambda>c. c \<noteq> CHR '':'') (rev (r @ CHR '':'' # s)) = rev s" for r s
    by (induction s rule: rev_induct) auto
  have "rev (int_str v) = rev (int_str v')"
    using tail [OF int_str_no_colon, of l v] tail [OF int_str_no_colon, of l' v'] eq by simp
  then have "int_str v = int_str v'" by simp
  with eq int_str_inj show ?thesis by auto
qed

lemma rules_key_not_other [simp]:
  "rules_key l v \<noteq> oauth_at_key c" "rules_key l v \<noteq> zones_key c" "rules_key l v \<noteq> oauth_state_key c"
  "oauth_at_key c \<noteq> rules_key l v" "zones_key c \<noteq> rules_key l v" "oauth_state_key c \<noteq> rules_key l v"
  by (simp_all add: rules_key_def oauth_at_key_def zones_key_def oauth_state_key_def)

end
