(* ===== verification/Upstream.thy ===== *)
theory Upstream
  imports Crypto Cache Envelopes "HOL-Library.AList"
begin

text \<open>
  \<^verbatim>\<open>upstream/client.py\<close>, with \<^verbatim>\<open>refresh_access_token\<close> of \<^verbatim>\<open>auth/oauth_cf.py\<close>: the pinned client, the
  forwarding of requests with swapped credentials, the record fetch, the page loop, and the
  resolution of a stored credential into authentication headers. Every request that leaves
  the proxy is a \<open>Sent\<close> event of the trace.
\<close>

section \<open>The pinned origin\<close>

definition ALLOWED_UPSTREAM_ORIGIN :: string where
  "ALLOWED_UPSTREAM_ORIGIN = ''https://api.cloudflare.com''"

text \<open>
  \<^verbatim>\<open>urllib.parse.urlsplit\<close> on ASCII input: leading controls and blanks are dropped, tabs and line
  breaks removed; a scheme is a letter followed by scheme characters before the first colon;
  the network location runs from the double slash to the next slash, question mark or hash.
\<close>

definition is_letter :: "char \<Rightarrow> bool" where
  "is_letter c = (let n = of_char c :: nat in (65 \<le> n \<and> n \<le> 90) \<or> (97 \<le> n \<and> n \<le> 122))"

definition scheme_char :: "char \<Rightarrow> bool" where
  "scheme_char c = (let n = of_char c :: nat in is_letter c \<or> (48 \<le> n \<and> n \<le> 57) \<or> c \<in> {CHR ''+'', CHR ''-'', CHR ''.''})"

definition clean_url :: "string \<Rightarrow> string" where
  "clean_url url = filter (\<lambda>c. (of_char c :: nat) \<notin> {9, 10, 13}) (dropWhile (\<lambda>c. (of_char c :: nat) \<le> 32) url)"

definition urlsplit_scheme :: "string \<Rightarrow> string \<times> string" where
  "urlsplit_scheme url =
     (let before = takeWhile (\<lambda>c. c \<noteq> CHR '':'') url; rest = dropWhile (\<lambda>c. c \<noteq> CHR '':'') url
      in if rest \<noteq> [] \<and> before \<noteq> [] \<and> is_letter (hd before) \<and> list_all scheme_char before
         then (py_lower before, tl rest) else ([], url))"

definition urlsplit_netloc :: "string \<Rightarrow> string" where
  "urlsplit_netloc rest =
     (if py_startswith rest ''//'' then takeWhile (\<lambda>c. c \<notin> {CHR ''/'', CHR ''?'', CHR ''#''}) (drop 2 rest) else [])"

definition url_origin :: "string \<Rightarrow> string" where
  "url_origin base_url =
     (let (scheme, rest) = urlsplit_scheme (clean_url base_url)
      in py_rstrip CHR ''/'' (py_lower (scheme @ ''://'' @ urlsplit_netloc rest)))"

definition unpinned :: "string \<Rightarrow> exn" where
  "unpinned base_url = RuntimeError (''upstream_base_url must be '' @ py_repr ALLOWED_UPSTREAM_ORIGIN @
     '', refusing to forward to '' @ py_repr (url_origin base_url))"

definition assert_pinned_origin :: "string \<Rightarrow> unit res" where
  "assert_pinned_origin base_url =
     (if url_origin base_url \<noteq> ALLOWED_UPSTREAM_ORIGIN then Inl (unpinned base_url) else Inr ())"

definition get_cf_client :: "env \<Rightarrow> (world, unit) prog" where
  "get_cf_client E = (\<lambda>w.
     if w_cf_client w then (Inr (), w)
     else (case assert_pinned_origin (s_upstream_base_url (e_settings E)) of
             Inl e \<Rightarrow> (Inl e, w)
           | Inr _ \<Rightarrow> (Inr (), w\<lparr>w_cf_client := True\<rparr>)))"

definition close_cf_client :: "(world, unit) prog" where
  "close_cf_client = modify (\<lambda>w. w\<lparr>w_cf_client := False\<rparr>)"

section \<open>Forwarding\<close>

definition STRIPPED_AUTH_HEADERS :: "string list" where
  "STRIPPED_AUTH_HEADERS = [''authorization'', ''x-auth-email'', ''x-auth-key'', ''x-auth-user-service-key'']"

text \<open>\<^verbatim>\<open>d.update(other)\<close> on dictionaries kept as association lists\<close>

definition dict_update :: "(string \<times> 'v) list \<Rightarrow> (string \<times> 'v) list \<Rightarrow> (string \<times> 'v) list" where
  "dict_update d other = fold (\<lambda>(k, v) acc. AList.update k v acc) other d"

definition forwarded_headers :: "(string \<times> string) list \<Rightarrow> (string \<times> string) list \<Rightarrow> (string \<times> string) list" where
  "forwarded_headers headers auth_headers =
     dict_update (filter (\<lambda>(k, v). py_lower k \<notin> set STRIPPED_AUTH_HEADERS) headers) auth_headers"

text \<open>One HTTP exchange: the request becomes part of the trace, then the peer answers or fails.\<close>

definition send_http :: "env \<Rightarrow> http_request \<Rightarrow> (world, http_response) prog" where
  "send_http E q = (\<lambda>w. (e_http E (w_trace w) q, w\<lparr>w_trace := w_trace w @ [Sent q]\<rparr>))"

definition forward_request ::
  "env \<Rightarrow> string \<Rightarrow> string \<Rightarrow> (string \<times> string) list \<Rightarrow> (string \<times> json) list \<Rightarrow> string option
    \<Rightarrow> (string \<times> string) list \<Rightarrow> (world, http_response) prog" where
  "forward_request E http_method path headers params body_content auth_headers =
     bind (get_cf_client E) (\<lambda>_.
       send_http E \<lparr>q_method = http_method, q_host = s_upstream_base_url (e_settings E), q_path = path,
         q_headers = forwarded_headers headers auth_headers, q_params = params, q_content = body_content\<rparr>)"

text \<open>\<^verbatim>\<open>response.json()\<close> and \<^verbatim>\<open>response.raise_for_status()\<close>\<close>

definition response_json :: "http_response \<Rightarrow> json res" where
  "response_json r = (case p_json r of None \<Rightarrow> Inl JSONDecodeError | Some j \<Rightarrow> Inr j)"

definition raise_for_status :: "http_response \<Rightarrow> unit res" where
  "raise_for_status r = (if 200 \<le> p_status r \<and> p_status r < 300 then Inr () else Inl (HTTPStatusError (p_status r)))"

definition record_path :: "string \<Rightarrow> string \<Rightarrow> string" where
  "record_path zone_id record_id = ''/client/v4/zones/'' @ zone_id @ ''/dns_records/'' @ record_id"

definition records_path :: "string \<Rightarrow> string" where
  "records_path zone_id = ''/client/v4/zones/'' @ zone_id @ ''/dns_records''"

definition fetch_cf_record :: "env \<Rightarrow> string \<Rightarrow> string \<Rightarrow> (string \<times> string) list \<Rightarrow> (world, json) prog" where
  "fetch_cf_record E zone_id record_id auth_headers =
     bind (forward_request E ''GET'' (record_path zone_id record_id) [] [] None auth_headers) (\<lambda>response.
       if p_status response = 404 then return JNull
       else bind (lift (raise_for_status response)) (\<lambda>_.
            bind (lift (response_json response)) (\<lambda>j.
            lift (subscript j ''result''))))"

section \<open>The page loop\<close>

text \<open>\<^verbatim>\<open>xs.extend(v)\<close>: the items a JSON value yields when iterated\<close>

fun json_iter :: "json \<Rightarrow> json list res" where
  "json_iter (JArr xs) = Inr xs"
| "json_iter (JObj kvs) = Inr (map (\<lambda>kv. JStr (fst kv)) kvs)"
| "json_iter (JStr s) = Inr (map (\<lambda>c. JStr [c]) s)"
| "json_iter _ = Inl TypeError"

text \<open>\<^verbatim>\<open>page >= total_pages\<close>\<close>

fun int_ge_json :: "int \<Rightarrow> json \<Rightarrow> bool res" where
  "int_ge_json p (JNum n) = Inr (n \<le> p)"
| "int_ge_json p (JBool b) = Inr ((if b then 1 else 0) \<le> p)"
| "int_ge_json p _ = Inl TypeError"

text \<open>The items of one page and whether it is the last\<close>

definition page_items :: "json \<Rightarrow> int \<Rightarrow> (json list \<times> bool) res" where
  "page_items body page =
     bind_res (get body ''result'') (\<lambda>result.
     bind_res (json_iter (py_or result (JArr []))) (\<lambda>items.
     bind_res (get body ''result_info'') (\<lambda>info.
     bind_res (get_default (py_or info (JObj [])) ''total_pages'' (JNum 1)) (\<lambda>total_pages.
     bind_res (int_ge_json page total_pages) (\<lambda>last.
       Inr (items, last))))))"

text \<open>\<^verbatim>\<open>page_params\<close>: the client's filters, the page, and a page size unless the client gave one\<close>

definition page_params :: "(string \<times> json) list \<Rightarrow> int \<Rightarrow> int \<Rightarrow> (string \<times> json) list" where
  "page_params params page default_size =
     (let ps = AList.update ''page'' (JNum page) params
      in if ''per_page'' \<in> fst ` set ps then ps else ps @ [(''per_page'', JNum default_size)])"

text \<open>
  \<^verbatim>\<open>while True\<close> over the pages, with fuel: out of fuel the result is \<open>Diverges\<close>, which the
  source has no counterpart for; \<open>list_all_records_returns\<close> says when it does not happen.
\<close>

fun list_records_loop ::
  "nat \<Rightarrow> env \<Rightarrow> string \<Rightarrow> (string \<times> json) list \<Rightarrow> (string \<times> string) list \<Rightarrow> int \<Rightarrow> json list
    \<Rightarrow> (world, json list) prog" where
  "list_records_loop 0 E zone_id params auth_headers page records = raise Diverges"
| "list_records_loop (Suc fuel) E zone_id params auth_headers page records =
     bind (forward_request E ''GET'' (records_path zone_id) [] (page_params params page 100) None auth_headers) (\<lambda>response.
     bind (lift (raise_for_status response)) (\<lambda>_.
     bind (lift (response_json response)) (\<lambda>body.
     bind (lift (page_items body page)) (\<lambda>(items, last).
       if last then return (records @ items)
       else list_records_loop fuel E zone_id params auth_headers (page + 1) (records @ items)))))"

definition list_all_records ::
  "nat \<Rightarrow> env \<Rightarrow> string \<Rightarrow> (string \<times> json) list \<Rightarrow> (string \<times> string) list \<Rightarrow> (world, json list) prog" where
  "list_all_records fuel E zone_id params auth_headers = list_records_loop fuel E zone_id params auth_headers 1 []"

definition verify_upstream :: "env \<Rightarrow> (string \<times> string) list \<Rightarrow> (world, json) prog" where
  "verify_upstream E auth_headers =
     bind (forward_request E ''GET'' ''/client/v4/user/tokens/verify'' [] [] None auth_headers) (\<lambda>response.
       lift (response_json response))"

section \<open>Credentials into headers\<close>

text \<open>\<^verbatim>\<open>auth/oauth_cf.py: refresh_access_token\<close>\<close>

definition refresh_access_token :: "env \<Rightarrow> string \<Rightarrow> (world, json) prog" where
  "refresh_access_token E refresh_token =
     bind (send_http E \<lparr>q_method = ''POST'', q_host = s_cf_oauth_issuer (e_settings E), q_path = ''/oauth2/token'',
         q_headers = [],
         q_params = [(''grant_type'', JStr ''refresh_token''), (''refresh_token'', JStr refresh_token),
                     (''client_id'', JStr (s_cf_oauth_client_id (e_settings E))),
                     (''client_secret'', JStr (s_cf_oauth_client_secret (e_settings E)))],
         q_content = None\<rparr>) (\<lambda>response.
     bind (lift (raise_for_status response)) (\<lambda>_.
     lift (response_json response)))"

text \<open>Functions that want a string: any other JSON value has no \<^verbatim>\<open>encode\<close>.\<close>

fun as_str :: "json \<Rightarrow> string res" where
  "as_str (JStr s) = Inr s"
| "as_str _ = Inl AttributeError"

definition decrypt_opt :: "env \<Rightarrow> string option \<Rightarrow> string res" where
  "decrypt_opt E c = (case c of None \<Rightarrow> Inl AttributeError | Some s \<Rightarrow> decrypt_secret E s)"

text \<open>\<^verbatim>\<open>timedelta(seconds=expires_in)\<close>\<close>

fun as_seconds :: "json \<Rightarrow> int res" where
  "as_seconds (JNum n) = Inr n"
| "as_seconds (JBool b) = Inr (if b then 1 else 0)"
| "as_seconds _ = Inl TypeError"

text \<open>The conditional update that stores rotated tokens, fenced by the version that was read.\<close>

definition store_rotated ::
  "string \<Rightarrow> int \<Rightarrow> string \<Rightarrow> string \<Rightarrow> datetime option \<Rightarrow> world \<Rightarrow> world" where
  "store_rotated cid version access refresh expires w =
     w\<lparr>w_credentials := map (\<lambda>c. if c_id c = cid \<and> c_cred_version c = version
         then c\<lparr>c_access_token_enc := Some access, c_refresh_token_enc := Some refresh,
                c_token_expires_at := expires, c_cred_version := version + 1\<rparr>
         else c) (w_credentials w)\<rparr>"

text \<open>
  \<^verbatim>\<open>locked.token_expires_at is not None and locked.token_expires_at - skew > now\<close>. The column gives
  back what the database driver makes of the stored value (\<open>e_dt_load\<close>).
\<close>

definition still_valid :: "env \<Rightarrow> world \<Rightarrow> credential \<Rightarrow> bool res" where
  "still_valid E w c = (case c_token_expires_at c of
      None \<Rightarrow> Inr False
    | Some d \<Rightarrow> dt_less (utcnow w) (dt_plus (e_dt_load E d) (- s_access_token_skew (e_settings E))))"

text \<open>The access token, refresh token, lifetime and expiry in the token endpoint's answer\<close>

definition rotated_tokens :: "env \<Rightarrow> credential \<Rightarrow> json \<Rightarrow> datetime \<Rightarrow> (string \<times> string \<times> json \<times> datetime option) res" where
  "rotated_tokens E locked token_data now =
     bind_res (subscript token_data ''access_token'') (\<lambda>new_access.
     bind_res (get token_data ''refresh_token'') (\<lambda>offered.
     bind_res (if truthy offered then Inr offered
               else bind_res (decrypt_opt E (c_refresh_token_enc locked)) (\<lambda>s. Inr (JStr s))) (\<lambda>new_refresh.
     bind_res (get token_data ''expires_in'') (\<lambda>expires_in.
     bind_res (if expires_in = JNull then Inr None
               else bind_res (as_seconds expires_in) (\<lambda>n. Inr (Some (dt_plus now n)))) (\<lambda>new_expires.
     bind_res (as_str new_access) (\<lambda>access.
     bind_res (as_str new_refresh) (\<lambda>refresh.
       Inr (access, refresh, expires_in, new_expires))))))))"

text \<open>The re-caching of the access token, encrypted, until shortly before it expires\<close>

definition cache_access_token :: "env \<Rightarrow> string \<Rightarrow> string \<Rightarrow> json \<Rightarrow> (world, unit) prog" where
  "cache_access_token E cid access expires_in =
     (if expires_in = JNull then return ()
      else bind (lift (as_seconds expires_in)) (\<lambda>n.
           bind (encrypt_secret E access) (\<lambda>cached_enc.
             cache_set_json E (oauth_at_key cid) (JStr cached_enc) (max (n - s_access_token_skew (e_settings E)) 1))))"

definition refresh_and_store :: "env \<Rightarrow> credential \<Rightarrow> (world, string) prog" where
  "refresh_and_store E locked =
     bind (gets utcnow) (\<lambda>now.
     bind (lift (decrypt_opt E (c_refresh_token_enc locked))) (\<lambda>old_refresh.
     bind (refresh_access_token E old_refresh) (\<lambda>token_data.
     bind (lift (rotated_tokens E locked token_data now)) (\<lambda>(access, refresh, expires_in, new_expires).
     bind (encrypt_secret E access) (\<lambda>access_enc.
     bind (encrypt_secret E refresh) (\<lambda>refresh_enc.
     bind (commit_db E (store_rotated (c_id locked) (c_cred_version locked) access_enc refresh_enc new_expires)) (\<lambda>_.
     bind (cache_access_token E (c_id locked) access expires_in) (\<lambda>_.
       return access))))))))"

definition get_valid_access_token :: "env \<Rightarrow> credential \<Rightarrow> (world, string) prog" where
  "get_valid_access_token E cred =
     (if c_cred_type cred \<noteq> ''oauth'' then lift (decrypt_opt E (c_secret_enc cred))
      else
        bind (cache_get_json E (oauth_at_key (c_id cred))) (\<lambda>cached_enc.
          if truthy cached_enc then
            bind (lift (as_str cached_enc)) (\<lambda>s. lift (decrypt_secret E s))
          else
            bind (gets (\<lambda>w. find (\<lambda>c. c_id c = c_id cred) (w_credentials w))) (\<lambda>row.
              (case row of
                 None \<Rightarrow> raise NoResultFound
               | Some locked \<Rightarrow>
                   bind (\<lambda>w. (still_valid E w locked, w)) (\<lambda>valid.
                     if valid then lift (decrypt_opt E (c_access_token_enc locked))
                     else refresh_and_store E locked)))))"

definition resolve_upstream_auth :: "env \<Rightarrow> credential \<Rightarrow> (world, (string \<times> string) list) prog" where
  "resolve_upstream_auth E cred =
     (if c_cred_type cred = ''global_key'' then
        bind (lift (decrypt_opt E (c_secret_enc cred))) (\<lambda>plain.
        bind (lift (e_json_loads E plain)) (\<lambda>data.
        bind (lift (subscript data ''email'')) (\<lambda>email.
        bind (lift (subscript data ''key'')) (\<lambda>key.
        bind (lift (as_str email)) (\<lambda>email_s.
        bind (lift (as_str key)) (\<lambda>key_s.
          return [(''X-Auth-Email'', email_s), (''X-Auth-Key'', key_s)]))))))
      else
        bind (get_valid_access_token E cred) (\<lambda>token.
          return [(''Authorization'', ''Bearer '' @ token)]))"

section \<open>Lemmas\<close>

text \<open>The configured upstream is the pinned origin.\<close>

definition pinned :: "env \<Rightarrow> bool" where
  "pinned E \<longleftrightarrow> assert_pinned_origin (s_upstream_base_url (e_settings E)) = Inr ()"

text \<open>Invariant of the module-level client: it exists only for the pinned origin.\<close>

definition client_pinned :: "env \<Rightarrow> world \<Rightarrow> bool" where
  "client_pinned E w \<longleftrightarrow> (w_cf_client w \<longrightarrow> pinned E)"

lemma get_cf_client_run:
  "get_cf_client E w =
     (if w_cf_client w \<or> pinned E then (Inr (), w\<lparr>w_cf_client := True\<rparr>)
      else (Inl (unpinned (s_upstream_base_url (e_settings E))), w))"
  by (auto simp: get_cf_client_def pinned_def assert_pinned_origin_def Let_def split: prod.splits if_splits)

lemma close_cf_client_run [simp]: "close_cf_client w = (Inr (), w\<lparr>w_cf_client := False\<rparr>)"
  by (simp add: close_cf_client_def)

definition upstream_request ::
  "env \<Rightarrow> string \<Rightarrow> string \<Rightarrow> (string \<times> string) list \<Rightarrow> (string \<times> json) list \<Rightarrow> string option
    \<Rightarrow> (string \<times> string) list \<Rightarrow> http_request" where
  "upstream_request E http_method path headers params body_content auth_headers =
     \<lparr>q_method = http_method, q_host = s_upstream_base_url (e_settings E), q_path = path,
      q_headers = forwarded_headers headers auth_headers, q_params = params, q_content = body_content\<rparr>"

lemma upstream_request_sel [simp]:
  "q_method (upstream_request E m p h ps c a) = m"
  "q_host (upstream_request E m p h ps c a) = s_upstream_base_url (e_settings E)"
  "q_path (upstream_request E m p h ps c a) = p"
  "q_headers (upstream_request E m p h ps c a) = forwarded_headers h a"
  "q_params (upstream_request E m p h ps c a) = ps"
  "q_content (upstream_request E m p h ps c a) = c"
  by (simp_all add: upstream_request_def)

lemma forward_request_run:
  "forward_request E m p h ps c a w =
     (if w_cf_client w \<or> pinned E
      then (e_http E (w_trace w) (upstream_request E m p h ps c a),
            w\<lparr>w_cf_client := True, w_trace := w_trace w @ [Sent (upstream_request E m p h ps c a)]\<rparr>)
      else (Inl (unpinned (s_upstream_base_url (e_settings E))), w))"
  by (simp add: forward_request_def bind_app get_cf_client_run send_http_def upstream_request_def)

lemma send_http_run:
  "send_http E q w = (e_http E (w_trace w) q, w\<lparr>w_trace := w_trace w @ [Sent q]\<rparr>)"
  by (simp add: send_http_def)

text \<open>Events that are requests to the configured upstream.\<close>

definition cf_sent :: "env \<Rightarrow> (http_request \<Rightarrow> bool) \<Rightarrow> event \<Rightarrow> bool" where
  "cf_sent E P e \<longleftrightarrow> (\<exists>q. e = Sent q \<and> q_host q = s_upstream_base_url (e_settings E) \<and> P q)"

text \<open>Events that are refresh grants at the OAuth issuer.\<close>

definition oauth_sent :: "env \<Rightarrow> event \<Rightarrow> bool" where
  "oauth_sent E e \<longleftrightarrow> (\<exists>q. e = Sent q \<and> q_host q = s_cf_oauth_issuer (e_settings E)
     \<and> q_method q = ''POST'' \<and> q_path q = ''/oauth2/token'')"

lemma emits_forward_request:
  "P (Sent (upstream_request E m p h ps c a)) \<Longrightarrow> emits P (forward_request E m p h ps c a)"
  by (rule emitsI) (auto simp: forward_request_run)

lemma emits_encrypt [emits_intros]: "emits P (encrypt_secret E s)"
  by (rule emits_same_trace) (simp add: encrypt_secret_def)

lemma emits_fetch_cf_record:
  "P (Sent (upstream_request E ''GET'' (record_path z r) [] [] None a)) \<Longrightarrow> emits P (fetch_cf_record E z r a)"
  unfolding fetch_cf_record_def by (intro emits_intros emits_forward_request)

lemma emits_list_records_loop:
  "(\<And>pg. P (Sent (upstream_request E ''GET'' (records_path z) [] (page_params ps pg 100) None a)))
    \<Longrightarrow> emits P (list_records_loop n E z ps a page recs)"
proof (induction n arbitrary: page recs)
  case 0
  show ?case by (simp only: list_records_loop.simps) (rule emits_pure)
next
  case (Suc n)
  show ?case
    by (simp only: list_records_loop.simps)
       (intro emits_intros emits_forward_request Suc)
qed

lemma emits_refresh: "(\<And>e. oauth_sent E e \<Longrightarrow> P e) \<Longrightarrow> emits P (refresh_access_token E s)"
  unfolding refresh_access_token_def
  by (intro emits_intros emitsI) (simp_all add: send_http_run oauth_sent_def)

lemma trace_store_rotated [simp]: "w_trace (store_rotated i v a r x w) = w_trace w"
  by (simp add: store_rotated_def)

lemma emits_resolve_upstream_auth:
  assumes "\<And>e. oauth_sent E e \<Longrightarrow> P e"
  shows "emits P (resolve_upstream_auth E c)"
  unfolding resolve_upstream_auth_def get_valid_access_token_def refresh_and_store_def cache_access_token_def
  by (intro emits_intros emits_refresh [OF assms]) simp_all

lemma keeps_constraints_send [keeps_intros]: "keeps (constraints_ok E) (send_http E' q)"
  by (rule keepsI) (simp add: send_http_run)

lemma keeps_constraints_forward [keeps_intros]: "keeps (constraints_ok E) (forward_request E' m p h ps c a)"
  by (rule keepsI) (simp add: forward_request_run)

lemma keeps_constraints_fetch [keeps_intros]: "keeps (constraints_ok E) (fetch_cf_record E' z r a)"
  unfolding fetch_cf_record_def by (intro keeps_intros)

lemma keeps_constraints_list_loop [keeps_intros]:
  "keeps (constraints_ok E) (list_records_loop n E' z ps a page recs)"
proof (induction n arbitrary: page recs)
  case 0
  show ?case by (simp only: list_records_loop.simps) (rule keeps_raise)
next
  case (Suc n)
  show ?case by (simp only: list_records_loop.simps) (intro keeps_intros Suc)
qed

lemma keeps_read [keeps_intros]: "keeps P (\<lambda>w. (f w, w))"
  by (simp add: keeps_def)

lemma keeps_constraints_resolve [keeps_intros]: "keeps (constraints_ok E) (resolve_upstream_auth E c)"
  unfolding resolve_upstream_auth_def get_valid_access_token_def refresh_and_store_def refresh_access_token_def cache_access_token_def
  by (intro keeps_intros)

lemma resolved_header_names:
  "resolve_upstream_auth E c w = (Inr auth, t) \<Longrightarrow>
     map fst auth = [''Authorization''] \<or> map fst auth = [''X-Auth-Email'', ''X-Auth-Key'']"
  by (auto simp: resolve_upstream_auth_def bind_Inr_iff split: if_splits)

definition upstream_origin :: "string \<Rightarrow> string \<times> string" where
  "upstream_origin url =
     (let (scheme, rest) = urlsplit_scheme (clean_url url) in (scheme, py_lower (urlsplit_netloc rest)))"

lemma dict_update_keys:
  "fst ` set (dict_update d a) = fst ` set d \<union> fst ` set a"
  unfolding dict_update_def
proof (induction a arbitrary: d)
  case (Cons x a)
  then show ?case by (cases x) (auto simp: dom_update)
qed simp

lemma dict_update_map_of:
  "distinct (map fst a) \<Longrightarrow> map_of (dict_update d a) = map_of d ++ map_of a"
  unfolding dict_update_def
proof (induction a arbitrary: d)
  case (Cons x a)
  obtain k v where x: "x = (k, v)" by (cases x)
  have "map_of a k = None" using Cons.prems x by (simp add: map_of_eq_None_iff)
  then have step: "map_of (AList.update k v d) ++ map_of a = map_of d ++ map_of (x # a)"
    using x by (auto simp: fun_eq_iff map_add_def update_conv' split: option.splits)
  have "map_of (fold (\<lambda>(k, v). AList.update k v) (x # a) d) = map_of (AList.update k v d) ++ map_of a"
    using Cons x by simp
  with step show ?case by (rule trans [rotated])
qed simp

lemma low_char_not_in_lower:
  assumes "(of_char d :: nat) < 65" and "d \<notin> set s"
  shows "d \<notin> set (py_lower s)"
proof
  assume "d \<in> set (py_lower s)"
  then obtain c where "c \<in> set s" and "lower_char c = d" unfolding py_lower_def by auto
  with assms lower_char_eq_low [OF assms(1), of c] show False by simp
qed

lemma scheme_no_colon:
  assumes "urlsplit_scheme url = (scheme, rest)"
  shows "CHR '':'' \<notin> set scheme \<and> py_lower scheme = scheme"
proof -
  have "scheme = [] \<or> scheme = py_lower (takeWhile (\<lambda>c. c \<noteq> CHR '':'') url)"
    using assms by (auto simp: urlsplit_scheme_def Let_def split: if_splits)
  moreover have "CHR '':'' \<notin> set (py_lower (takeWhile (\<lambda>c. c \<noteq> CHR '':'') url))"
    by (rule low_char_not_in_lower) (auto dest: set_takeWhileD)
  ultimately show ?thesis by auto
qed

lemma netloc_no_slash: "CHR ''/'' \<notin> set (urlsplit_netloc rest)"
  by (auto simp: urlsplit_netloc_def dest: set_takeWhileD)

lemma origin_eq_iff:
  assumes "CHR '':'' \<notin> set scheme" and "CHR '':'' \<notin> set scheme'"
    and "CHR ''/'' \<notin> set netloc" and "netloc' \<noteq> []" and "last netloc' \<noteq> CHR '':''"
  shows "py_rstrip CHR ''/'' (scheme @ ''://'' @ netloc) = scheme' @ ''://'' @ netloc' \<longleftrightarrow>
     scheme = scheme' \<and> netloc = netloc'"
proof (cases "netloc = []")
  case True
  have "py_rstrip CHR ''/'' (scheme @ ''://'') = scheme @ '':''"
    using py_rstrip_snoc [of "CHR ''/''" "scheme @ '':/''"] py_rstrip_snoc [of "CHR ''/''" "scheme @ '':''"]
    by (simp add: py_rstrip_id)
  moreover have "scheme @ '':'' \<noteq> scheme' @ ''://'' @ netloc'"
  proof
    assume "scheme @ '':'' = scheme' @ ''://'' @ netloc'"
    then have "last (scheme @ '':'') = last (scheme' @ ''://'' @ netloc')" by (rule arg_cong)
    with assms(4,5) show False by simp
  qed
  ultimately show ?thesis using True assms(4) by auto
next
  case False
  then have "last (scheme @ ''://'' @ netloc) \<noteq> CHR ''/''" using assms(3) by (auto simp: dest: last_in_set)
  then have strip: "py_rstrip CHR ''/'' (scheme @ ''://'' @ netloc) = scheme @ ''://'' @ netloc"
    by (simp add: py_rstrip_id)
  have pre: "CHR '':'' \<notin> set s \<Longrightarrow> takeWhile (\<lambda>c. c \<noteq> CHR '':'') (s @ CHR '':'' # r) = s" for s r
    by (induction s) auto
  have "scheme @ ''://'' @ netloc = scheme' @ ''://'' @ netloc' \<Longrightarrow> scheme = scheme'"
    using pre [OF assms(1)] pre [OF assms(2)] by (metis append_Cons)
  with strip show ?thesis by auto
qed


text \<open>The pin accepts exactly Cloudflare's scheme and network location.\<close>

lemma origin_pinned_iff:
  "assert_pinned_origin url = Inr () \<longleftrightarrow> upstream_origin url = (''https'', ''api.cloudflare.com'')"
proof -
  obtain scheme rest where sp: "urlsplit_scheme (clean_url url) = (scheme, rest)"
    by (cases "urlsplit_scheme (clean_url url)")
  have low: "CHR ''/'' \<notin> set (py_lower (urlsplit_netloc rest))"
    using netloc_no_slash by (intro low_char_not_in_lower) simp_all
  have "py_lower ''://'' = ''://''" by code_simp
  then have "py_lower (scheme @ ''://'' @ urlsplit_netloc rest) = scheme @ ''://'' @ py_lower (urlsplit_netloc rest)"
    using scheme_no_colon [OF sp] by (simp only: py_lower_append)
  moreover have "ALLOWED_UPSTREAM_ORIGIN = ''https'' @ ''://'' @ ''api.cloudflare.com''"
    by (simp add: ALLOWED_UPSTREAM_ORIGIN_def)
  ultimately have "assert_pinned_origin url = Inr () \<longleftrightarrow>
      py_rstrip CHR ''/'' (scheme @ ''://'' @ py_lower (urlsplit_netloc rest)) = ''https'' @ ''://'' @ ''api.cloudflare.com''"
    by (simp only: assert_pinned_origin_def url_origin_def sp Let_def prod.case) simp
  also have "\<dots> \<longleftrightarrow> scheme = ''https'' \<and> py_lower (urlsplit_netloc rest) = ''api.cloudflare.com''"
    by (rule origin_eq_iff) (use scheme_no_colon [OF sp] low in simp_all)
  also have "\<dots> \<longleftrightarrow> upstream_origin url = (''https'', ''api.cloudflare.com'')"
    by (simp only: upstream_origin_def sp Let_def prod.case prod.inject)
  finally show ?thesis .
qed

definition page_answer :: "json \<Rightarrow> json list \<Rightarrow> int \<Rightarrow> bool" where
  "page_answer body items n_pages \<longleftrightarrow> get body ''result'' = Inr (JArr items) \<and>
     (\<exists>info. get body ''result_info'' = Inr (JObj info) \<and> get (JObj info) ''total_pages'' = Inr (JNum n_pages))"

lemma page_items_answer:
  assumes "page_answer body items n_pages"
  shows "page_items body page = Inr (items, n_pages \<le> page)"
proof -
  obtain info where i: "get body ''result_info'' = Inr (JObj info)" "map_of info ''total_pages'' = Some (JNum n_pages)"
    and r: "get body ''result'' = Inr (JArr items)"
    using assms by (auto simp: page_answer_def split: option.splits)
  have "info \<noteq> []" using i(2) by auto
  moreover have "json_iter (py_or (JArr items) (JArr [])) = Inr items" by (simp add: py_or_def)
  ultimately show ?thesis using i r by (simp add: page_items_def py_or_def)
qed

text \<open>The peer serves the listing: page \<open>p\<close> of \<open>n_pages\<close> is \<open>pages p\<close>, whatever happened before.\<close>

definition serves_listing ::
  "env \<Rightarrow> (int \<Rightarrow> http_request) \<Rightarrow> (int \<Rightarrow> json list) \<Rightarrow> int \<Rightarrow> bool" where
  "serves_listing E req pages n_pages \<longleftrightarrow>
     (\<forall>tr p. 1 \<le> p \<and> p \<le> max 1 n_pages \<longrightarrow>
        (\<exists>resp body. e_http E tr (req p) = Inr resp \<and> 200 \<le> p_status resp \<and> p_status resp < 300
           \<and> p_json resp = Some body \<and> page_answer body (pages p) n_pages))"

definition listing_request :: "env \<Rightarrow> string \<Rightarrow> (string \<times> json) list \<Rightarrow> (string \<times> string) list \<Rightarrow> int \<Rightarrow> http_request" where
  "listing_request E zone_id params auth p =
     upstream_request E ''GET'' (records_path zone_id) [] (page_params params p 100) None auth"

lemma list_records_loop_run:
  assumes pin: "pinned E" and srv: "serves_listing E (listing_request E z ps a) pages n"
    and range: "1 \<le> p" "p \<le> max 1 n" and fuel: "nat (max 1 n - p) < fuel"
  shows "\<exists>t. list_records_loop fuel E z ps a p acc w
           = (Inr (acc @ concat (map pages [p..max 1 n])), t)
         \<and> t = w\<lparr>w_cf_client := True, w_trace := w_trace w @ map (\<lambda>q. Sent (listing_request E z ps a q)) [p..max 1 n]\<rparr>"
  using range fuel
proof (induction fuel arbitrary: p acc w)
  case (Suc fuel)
  define q where "q = listing_request E z ps a p"
  define w1 where "w1 = w\<lparr>w_cf_client := True, w_trace := w_trace w @ [Sent q]\<rparr>"
  obtain resp body where peer: "e_http E (w_trace w) q = Inr resp"
    and ok: "200 \<le> p_status resp" "p_status resp < 300" "p_json resp = Some body"
    and ans: "page_answer body (pages p) n"
    using srv Suc.prems unfolding serves_listing_def q_def by blast
  have fwd: "forward_request E ''GET'' (records_path z) [] (page_params ps p 100) None a w = (Inr resp, w1)"
    using pin peer by (simp add: forward_request_run q_def w1_def listing_request_def)
  have step: "list_records_loop (Suc fuel) E z ps a p acc w =
      (if n \<le> p then (Inr (acc @ pages p), w1) else list_records_loop fuel E z ps a (p + 1) (acc @ pages p) w1)"
    using fwd ok by (simp add: bind_app raise_for_status_def response_json_def page_items_answer [OF ans])
  show ?case
  proof (cases "n \<le> p")
    case True
    with Suc.prems have "[p..max 1 n] = [p]" by (simp add: upto.simps)
    with step True show ?thesis by (simp add: w1_def q_def)
  next
    case False
    with Suc.prems have "[p..max 1 n] = p # [p + 1..max 1 n]" by (simp add: upto.simps)
    moreover have "nat (max 1 n - (p + 1)) < fuel" and "1 \<le> p + 1" and "p + 1 \<le> max 1 n" using False Suc.prems by auto
    ultimately show ?thesis using Suc.IH [of "p + 1" "acc @ pages p" w1] step False
      by (simp add: w1_def q_def)
  qed
qed simp

lemma refresh_access_token_frame:
  "refresh_access_token E s w = (r, t) \<Longrightarrow> \<exists>q. t = w\<lparr>w_trace := w_trace w @ [Sent q]\<rparr> \<and> oauth_sent E (Sent q)"
  by (auto simp: refresh_access_token_def bind_app send_http_run oauth_sent_def split: sum.splits)

lemma cache_access_token_frame:
  "cache_access_token E cid access x w = (r, t) \<Longrightarrow> w_credentials t = w_credentials w"
  by (auto simp: cache_access_token_def bind_app encrypt_secret_def cache_set_json_run split: if_splits sum.splits)

lemma refresh_and_store_writes:
  assumes "refresh_and_store E locked w = (Inr access, t)"
  shows "\<exists>n m refresh expires. w_credentials t = w_credentials
      (store_rotated (c_id locked) (c_cred_version locked) (e_fernet_encrypt E n access) (e_fernet_encrypt E m refresh) expires w)"
proof -
  obtain old data w1 refresh x expires w2 w3 w4 u where
    data: "refresh_access_token E old w = (Inr data, w1)"
    and enc: "w2 = w1\<lparr>w_rand := Suc (w_rand w1)\<rparr>" "w3 = w2\<lparr>w_rand := Suc (w_rand w2)\<rparr>"
    and com: "commit_db E (store_rotated (c_id locked) (c_cred_version locked)
         (e_fernet_encrypt E (w_rand w1) access) (e_fernet_encrypt E (w_rand w2) refresh) expires) w3 = (Inr (), w4)"
    and cac: "cache_access_token E (c_id locked) access x w4 = (Inr u, t)"
    using assms by (fastforce simp: refresh_and_store_def encrypt_secret_def elim!: bind_InrE)
  have "w_credentials w1 = w_credentials w" using refresh_access_token_frame [OF data] by auto
  with com enc cache_access_token_frame [OF cac]
  have "w_credentials t = w_credentials (store_rotated (c_id locked) (c_cred_version locked)
      (e_fernet_encrypt E (w_rand w1) access) (e_fernet_encrypt E (w_rand w2) refresh) expires w)"
    by (auto simp: store_rotated_def elim!: commit_db_cases)
  then show ?thesis by blast
qed

lemma decode_none [simp]: "decode_raw None = JNull"
  by (simp add: decode_raw_def)

lemma get_valid_access_token_uncached:
  assumes "c_cred_type cred = ''oauth''" and "live_json w (oauth_at_key (c_id cred)) = None"
    and "find (\<lambda>c. c_id c = c_id cred) (w_credentials w) = Some locked"
  shows "get_valid_access_token E cred w =
     (let w' = w\<lparr>w_redis_calls := Suc (w_redis_calls w)\<rparr> in
      case still_valid E w locked of
        Inl e \<Rightarrow> (Inl e, w')
      | Inr True \<Rightarrow> (decrypt_opt E (c_access_token_enc locked), w')
      | Inr False \<Rightarrow> refresh_and_store E locked w')"
proof -
  have "decode_raw (live_entry w (oauth_at_key (c_id cred))) = JNull"
    using decode_live [OF refl, of w "oauth_at_key (c_id cred)"] assms(2) by simp
  moreover have "still_valid E (w\<lparr>w_redis_calls := Suc (w_redis_calls w)\<rparr>) locked = still_valid E w locked"
    by (simp add: still_valid_def utcnow_def split: option.splits)
  ultimately show ?thesis
    using assms(1,3) by (auto simp: get_valid_access_token_def bind_app cache_get_json_run Let_def split: sum.splits)
qed

text \<open>Fernet decrypts what it encrypted.\<close>

definition fernet_ok :: "env \<Rightarrow> bool" where
  "fernet_ok E \<longleftrightarrow> (\<forall>n s. e_fernet_decrypt E (e_fernet_encrypt E n s) = Inr s)"

text \<open>
  Predicates of the world that talking to Cloudflare and resolving a credential cannot change:
  those that do not look at the trace, the random tape, Redis, the commit counter, the client
  and what a refresh stores in a credential row.
\<close>

definition upstream_frame :: "(world \<Rightarrow> bool) \<Rightarrow> bool" where
  "upstream_frame P \<longleftrightarrow> (\<forall>w tr rn rd rc cm cl.
     P (w\<lparr>w_trace := tr\<rparr>) = P w \<and> P (w\<lparr>w_rand := rn\<rparr>) = P w \<and> P (w\<lparr>w_redis := rd\<rparr>) = P w
     \<and> P (w\<lparr>w_redis_calls := rc\<rparr>) = P w \<and> P (w\<lparr>w_commits := cm\<rparr>) = P w \<and> P (w\<lparr>w_cf_client := cl\<rparr>) = P w
     \<and> (\<forall>i v x y d. P (store_rotated i v x y d w) = P w))"

lemma upstream_frame_fields:
  "upstream_frame (\<lambda>w. w_audit w = A)" "upstream_frame (\<lambda>w. w_lock_calls w = n)" "upstream_frame (\<lambda>w. w_tokens w = ts)"
  "upstream_frame (\<lambda>w. w_rules w = rs)" "upstream_frame (\<lambda>w. map (\<lambda>c. (c_id c, c_user_id c)) (w_credentials w) = L)"
proof -
  have "map (\<lambda>c. (c_id c, c_user_id c)) (w_credentials (store_rotated i v x y d w)) = map (\<lambda>c. (c_id c, c_user_id c)) (w_credentials w)"
    for i v x y d w by (simp add: store_rotated_def)
  then show "upstream_frame (\<lambda>w. map (\<lambda>c. (c_id c, c_user_id c)) (w_credentials w) = L)"
    by (simp add: upstream_frame_def)
qed (simp_all add: upstream_frame_def store_rotated_def)

lemma keeps_frame_forward: "upstream_frame P \<Longrightarrow> keeps P (forward_request E m p h ps c a)"
  by (rule keepsI) (simp add: forward_request_run upstream_frame_def)

lemma keeps_frame_fetch: "upstream_frame P \<Longrightarrow> keeps P (fetch_cf_record E z i a)"
  unfolding fetch_cf_record_def by (intro keeps_intros keeps_frame_forward)

lemma keeps_frame_resolve:
  assumes "upstream_frame P" shows "keeps P (resolve_upstream_auth E c)"
proof -
  have [intro]: "keeps P (send_http E q)" "keeps P (encrypt_secret E s)" "keeps P (cache_get_json E k)"
    "keeps P (cache_set_json E k v ttl)" "keeps P (commit_db E (store_rotated i n x y d))" for q s k v ttl i n x y d
    using assms
    by (auto intro!: keepsI simp: upstream_frame_def send_http_run encrypt_secret_def cache_get_json_run cache_set_json_run
        commit_db_def Let_def)
  show ?thesis
    unfolding resolve_upstream_auth_def get_valid_access_token_def refresh_and_store_def refresh_access_token_def
      cache_access_token_def
    by (intro keeps_intros) blast+
qed

section \<open>Properties\<close>

text \<open>
  C13: forwarding swaps the credential and never leaves the pinned origin: from a world whose
  client, if any, was created for the pinned origin, a forwarded request either raises before
  anything is sent, or sends exactly one request, to the configured base URL whose origin is
  Cloudflare's, in which every authentication header is one of the resolved ones, each of them
  is present, and every other client header is kept.
\<close>

theorem forward_swaps_credentials:
  assumes "client_pinned E w" and "distinct (map fst auth)"
    and "forward_request E http_method path headers params body auth w = (r, t)"
  shows "client_pinned E t \<and>
    (w_trace t = w_trace w \<and> (\<exists>msg. r = Inl (RuntimeError msg))
     \<or> (\<exists>q. w_trace t = w_trace w @ [Sent q] \<and> q_method q = http_method \<and> q_path q = path \<and> q_content q = body
          \<and> upstream_origin (q_host q) = (''https'', ''api.cloudflare.com'')
          \<and> (\<forall>k v. (k, v) \<in> set (q_headers q) \<and> py_lower k \<in> set STRIPPED_AUTH_HEADERS \<longrightarrow> k \<in> fst ` set auth)
          \<and> (\<forall>k v. (k, v) \<in> set auth \<longrightarrow> map_of (q_headers q) k = Some v)
          \<and> (\<forall>k \<in> fst ` set headers. py_lower k \<notin> set STRIPPED_AUTH_HEADERS \<longrightarrow> k \<in> fst ` set (q_headers q))))"
proof (cases "w_cf_client w \<or> pinned E")
  case True
  with assms(1) have pin: "pinned E" by (auto simp: client_pinned_def)
  have keys: "fst ` set (forwarded_headers headers auth)
      = fst ` {(k, v). (k, v) \<in> set headers \<and> py_lower k \<notin> set STRIPPED_AUTH_HEADERS} \<union> fst ` set auth"
    unfolding forwarded_headers_def dict_update_keys by (auto simp: image_iff)
  have "map_of (forwarded_headers headers auth) k = Some v" if "(k, v) \<in> set auth" for k v
    using that assms(2) by (simp add: forwarded_headers_def dict_update_map_of map_add_Some_iff)
  moreover have "k \<in> fst ` set auth"
    if "(k, v) \<in> set (forwarded_headers headers auth)" "py_lower k \<in> set STRIPPED_AUTH_HEADERS" for k v
  proof -
    have "k \<in> fst ` set (forwarded_headers headers auth)" using that(1) by force
    with keys that(2) show ?thesis by auto
  qed
  moreover have "k \<in> fst ` set (forwarded_headers headers auth)"
    if "k \<in> fst ` set headers" "py_lower k \<notin> set STRIPPED_AUTH_HEADERS" for k
    unfolding keys using that by force
  moreover have "upstream_origin (s_upstream_base_url (e_settings E)) = (''https'', ''api.cloudflare.com'')"
    using pin origin_pinned_iff by (simp only: pinned_def)
  ultimately show ?thesis
    using True assms(3) pin by (auto simp: forward_request_run client_pinned_def)
next
  case False
  then show ?thesis using assms(1,3) by (auto simp: forward_request_run client_pinned_def unpinned_def)
qed

text \<open>
  C26: the page loop returns: when Cloudflare serves a listing of \<open>n\<close> pages, \<open>list_all_records\<close>
  with fuel for that many pages returns all the items of all the pages in order, and it sends
  exactly one request per page, in order; a listing that declares no pages is asked for once.
\<close>

theorem list_all_records_returns:
  assumes "pinned E" and "serves_listing E (listing_request E zone_id params auth) pages n"
    and "nat (max 1 n) \<le> fuel"
  shows "\<exists>t. list_all_records fuel E zone_id params auth w = (Inr (concat (map pages [1..max 1 n])), t)
     \<and> sent_of (w_trace t) = sent_of (w_trace w) @ map (listing_request E zone_id params auth) [1..max 1 n]"
proof -
  have "nat (max 1 n - 1) < fuel" using assms(3) by linarith
  moreover have "sent_of (map (\<lambda>q. Sent (f q)) qs) = map f qs" for f :: "int \<Rightarrow> http_request" and qs
    by (induction qs) auto
  ultimately show ?thesis
    using list_records_loop_run [OF assms(1,2), of 1 fuel "[]" w] by (auto simp: list_all_records_def)
qed

text \<open>
  The OAuth refresh is persisted and fenced: when an OAuth credential has no cached access
  token and its stored one is not valid any more, the token that \<open>get_valid_access_token\<close>
  returns is the one the row now holds encrypted, the row's version went up by one, and no
  other credential row changed.
\<close>

theorem oauth_refresh_persisted:
  assumes "fernet_ok E"
    and "c_cred_type cred = ''oauth''" and "live_json w (oauth_at_key (c_id cred)) = None"
    and "find (\<lambda>c. c_id c = c_id cred) (w_credentials w) = Some locked" and "still_valid E w locked = Inr False"
    and "get_valid_access_token E cred w = (Inr token, t)"
  shows "\<exists>row. row \<in> set (w_credentials t) \<and> c_id row = c_id cred
       \<and> decrypt_opt E (c_access_token_enc row) = Inr token \<and> c_cred_version row = c_cred_version locked + 1
       \<and> (\<forall>c. c_id c \<noteq> c_id cred \<longrightarrow> c \<in> set (w_credentials t) \<longleftrightarrow> c \<in> set (w_credentials w))"
proof -
  let ?w = "w\<lparr>w_redis_calls := Suc (w_redis_calls w)\<rparr>"
  have "refresh_and_store E locked ?w = (Inr token, t)"
    using get_valid_access_token_uncached [OF assms(2-4)] assms(5,6) by (simp add: Let_def)
  from refresh_and_store_writes [OF this] obtain n m refresh expires where
    t: "w_credentials t = map (\<lambda>c. if c_id c = c_id locked \<and> c_cred_version c = c_cred_version locked
         then c\<lparr>c_access_token_enc := Some (e_fernet_encrypt E n token), c_refresh_token_enc := Some (e_fernet_encrypt E m refresh),
                c_token_expires_at := expires, c_cred_version := c_cred_version locked + 1\<rparr> else c) (w_credentials w)"
    by (auto simp: store_rotated_def)
  have l: "locked \<in> set (w_credentials w)" "c_id locked = c_id cred" using find_SomeD [OF assms(4)] by simp_all
  define row where "row = locked\<lparr>c_access_token_enc := Some (e_fernet_encrypt E n token), c_refresh_token_enc := Some (e_fernet_encrypt E m refresh),
      c_token_expires_at := expires, c_cred_version := c_cred_version locked + 1\<rparr>"
  have "row \<in> set (w_credentials t)" unfolding t row_def using l(1) by (auto simp: image_iff)
  moreover have "c \<in> set (w_credentials t) \<longleftrightarrow> c \<in> set (w_credentials w)" if "c_id c \<noteq> c_id cred" for c
    unfolding t using that l(2) by (auto simp: image_iff)
  ultimately show ?thesis
    using assms(1) l(2) by (intro exI [of _ row]) (auto simp: row_def decrypt_opt_def decrypt_secret_def fernet_ok_def)
qed

text \<open>
  The expiry check of OAuth credentials raises: the columns are declared without a time zone,
  so when the driver gives back naive values every OAuth credential that has a stored expiry
  and no cached access token ends in \<^verbatim>\<open>TypeError\<close>, before any refresh is attempted.
\<close>

theorem oauth_expiry_check_raises:
  assumes "\<forall>d. \<not> aware (e_dt_load E d)"
    and "c_cred_type cred = ''oauth''" and "live_json w (oauth_at_key (c_id cred)) = None"
    and "find (\<lambda>c. c_id c = c_id cred) (w_credentials w) = Some locked"
    and "c_token_expires_at locked = Some d"
  shows "\<exists>t. resolve_upstream_auth E cred w = (Inl TypeError, t) \<and> w_trace t = w_trace w"
proof -
  have "still_valid E w locked = Inl TypeError"
    using assms(1,5) by (simp add: still_valid_def dt_less_def utcnow_def dt_plus_def)
  then show ?thesis
    using get_valid_access_token_uncached [OF assms(2-4), of E] assms(2)
    by (simp add: resolve_upstream_auth_def bind_app Let_def)
qed

section \<open>Witnesses\<close>

lemma demo_auth: "resolve_upstream_auth E demo_credential w = (Inr [(''Authorization'', ''Bearer cf-token'')], w)"
  if "e_fernet_decrypt E = e_fernet_decrypt demo_env"
  using that by (simp add: resolve_upstream_auth_def get_valid_access_token_def demo_credential_def bind_app decrypt_opt_def
      decrypt_secret_def demo_env_def)

theorem forward_swaps_credentials_witness:
  "\<exists>q. w_trace (snd (forward_request demo_env ''GET'' ''/p'' [(''authorization'', ''Bearer mine''), (''Accept'', ''*'')] [] None
        [(''Authorization'', ''Bearer cf'')] demo_world)) = [Sent q]
     \<and> upstream_origin (q_host q) = (''https'', ''api.cloudflare.com'')
     \<and> map_of (q_headers q) ''Authorization'' = Some ''Bearer cf'' \<and> ''Accept'' \<in> fst ` set (q_headers q)
     \<and> ''authorization'' \<notin> fst ` set (q_headers q)"
proof -
  let ?h = "[(''authorization'', ''Bearer mine''), (''Accept'', ''*'')]" and ?a = "[(''Authorization'', ''Bearer cf'')]"
  obtain r t where run: "forward_request demo_env ''GET'' ''/p'' ?h [] None ?a demo_world = (r, t)"
    by (cases "forward_request demo_env ''GET'' ''/p'' ?h [] None ?a demo_world")
  have c: "client_pinned demo_env demo_world" by (simp add: client_pinned_def demo_world_def)
  have d: "distinct (map fst ?a)" by simp
  have s: "py_lower ''authorization'' \<in> set STRIPPED_AUTH_HEADERS" "py_lower ''Accept'' \<notin> set STRIPPED_AUTH_HEADERS"
    by code_simp+
  have "pinned demo_env" unfolding pinned_def by code_simp
  then have "w_trace t \<noteq> w_trace demo_world" using run by (auto simp: forward_request_run)
  moreover have "w_trace demo_world = []" by (simp add: demo_world_def)
  ultimately obtain q where q: "w_trace t = [Sent q]" "upstream_origin (q_host q) = (''https'', ''api.cloudflare.com'')"
    "\<forall>k v. (k, v) \<in> set (q_headers q) \<and> py_lower k \<in> set STRIPPED_AUTH_HEADERS \<longrightarrow> k \<in> fst ` set ?a"
    "\<forall>k v. (k, v) \<in> set ?a \<longrightarrow> map_of (q_headers q) k = Some v"
    "\<forall>k \<in> fst ` set ?h. py_lower k \<notin> set STRIPPED_AUTH_HEADERS \<longrightarrow> k \<in> fst ` set (q_headers q)"
    using forward_swaps_credentials [OF c d run] by auto
  have "map_of (q_headers q) ''Authorization'' = Some ''Bearer cf''" using q(4) by simp
  moreover have "''Accept'' \<in> fst ` set (q_headers q)" using q(5) s(2) by simp
  moreover have "''authorization'' \<notin> fst ` set (q_headers q)" using q(3) s(1) by auto
  ultimately show ?thesis using q(1,2) run by auto
qed

definition two_pages :: env where
  "two_pages = demo_env\<lparr>e_http := (\<lambda>tr q.
     Inr \<lparr>p_status = 200, p_json = Some (JObj [
       (''result'', JArr [the (map_of (q_params q) ''page'')]), (''result_info'', JObj [(''total_pages'', JNum 2)])])\<rparr>)\<rparr>"

theorem list_all_records_returns_witness:
  "fst (list_all_records 2 two_pages ''z1'' [] [] demo_world) = Inr [JNum 1, JNum 2]"
proof -
  have p: "pinned two_pages" unfolding pinned_def by code_simp
  have s: "serves_listing two_pages (listing_request two_pages ''z1'' [] []) (\<lambda>p. [JNum p]) 2"
    by (simp add: serves_listing_def two_pages_def listing_request_def page_params_def page_answer_def)
  have u: "[1..max 1 2] = [1, 2 :: int]" by code_simp
  have "\<exists>t. list_all_records 2 two_pages ''z1'' [] [] demo_world
      = (Inr (concat (map (\<lambda>p. [JNum p]) [1..max 1 2])), t) \<and>
      sent_of (w_trace t) = sent_of (w_trace demo_world) @ map (listing_request two_pages ''z1'' [] []) [1..max 1 2]"
    by (rule list_all_records_returns [OF p s]) simp
  then show ?thesis unfolding u by auto
qed

definition oauth_credential :: credential where
  "oauth_credential = demo_credential\<lparr>c_cred_type := ''oauth'', c_secret_enc := None, c_access_token_enc := Some ''!old'',
     c_refresh_token_enc := Some ''!r1''\<rparr>"

definition oauth_env :: env where
  "oauth_env = demo_env\<lparr>e_http := (\<lambda>tr q.
     Inr \<lparr>p_status = 200, p_json = Some (JObj [(''access_token'', JStr ''new''), (''expires_in'', JNum 3600)])\<rparr>)\<rparr>"

definition oauth_world :: world where
  "oauth_world = demo_world\<lparr>w_credentials := [oauth_credential]\<rparr>"

theorem oauth_refresh_persisted_witness:
  "\<exists>row t. get_valid_access_token oauth_env oauth_credential oauth_world = (Inr ''new'', t)
     \<and> row \<in> set (w_credentials t) \<and> decrypt_opt oauth_env (c_access_token_enc row) = Inr ''new'' \<and> c_cred_version row = 2"
proof -
  have f: "fernet_ok oauth_env" by (simp add: fernet_ok_def oauth_env_def demo_env_def)
  have ty: "c_cred_type oauth_credential = ''oauth''" by (simp add: oauth_credential_def)
  have l: "live_json oauth_world (oauth_at_key (c_id oauth_credential)) = None"
    by (simp add: live_json_def live_entry_def oauth_world_def demo_world_def)
  have r: "find (\<lambda>c. c_id c = c_id oauth_credential) (w_credentials oauth_world) = Some oauth_credential"
    by (simp add: oauth_world_def)
  have v: "still_valid oauth_env oauth_world oauth_credential = Inr False"
    by (simp add: still_valid_def oauth_credential_def demo_credential_def)
  have "fst (get_valid_access_token oauth_env oauth_credential oauth_world) = Inr ''new''" by code_simp
  then obtain t where run: "get_valid_access_token oauth_env oauth_credential oauth_world = (Inr ''new'', t)"
    by (metis prod.collapse)
  have "c_cred_version oauth_credential = 1" by (simp add: oauth_credential_def demo_credential_def)
  with oauth_refresh_persisted [OF f ty l r v run] run show ?thesis by auto
qed

theorem oauth_expiry_check_raises_witness:
  "fst (resolve_upstream_auth oauth_env (oauth_credential\<lparr>c_token_expires_at := Some \<lparr>instant = 9999, aware = True\<rparr>\<rparr>)
     (oauth_world\<lparr>w_credentials := [oauth_credential\<lparr>c_token_expires_at := Some \<lparr>instant = 9999, aware = True\<rparr>\<rparr>]\<rparr>)) = Inl TypeError"
proof -
  let ?c = "oauth_credential\<lparr>c_token_expires_at := Some \<lparr>instant = 9999, aware = True\<rparr>\<rparr>"
  let ?w = "oauth_world\<lparr>w_credentials := [?c]\<rparr>"
  have n: "\<forall>d. \<not> aware (e_dt_load oauth_env d)" by (simp add: oauth_env_def demo_env_def)
  have ty: "c_cred_type ?c = ''oauth''" by (simp add: oauth_credential_def)
  have l: "live_json ?w (oauth_at_key (c_id ?c)) = None"
    by (simp add: live_json_def live_entry_def oauth_world_def demo_world_def)
  have r: "find (\<lambda>c. c_id c = c_id ?c) (w_credentials ?w) = Some ?c" by simp
  have e: "c_token_expires_at ?c = Some \<lparr>instant = 9999, aware = True\<rparr>" by simp
  from oauth_expiry_check_raises [OF n ty l r e] show ?thesis by auto
qed

end
