(* ===== verification/ProxyAuth.thy ===== *)
theory ProxyAuth
  imports Upstream
begin

text \<open>
  \<^verbatim>\<open>auth/proxy_auth.py\<close>: the resolution of a presented scoped token into the context the proxy
  routes run with. The database decides; Redis only supplies the rules of a token under a key
  that carries the token's version. \<open>db_resolve\<close> is the reference without a cache, and
  \<open>rules_coherent\<close> the invariant under which the cached resolution agrees with it.
\<close>

record proxy_auth_context =
  x_token :: scoped_token
  x_rules :: "rule list"
  x_credential :: credential

definition json_strs :: "string list \<Rightarrow> json" where
  "json_strs xs = JArr (map JStr xs)"

definition rule_to_cache_dict :: "'a rule_scheme \<Rightarrow> json" where
  "rule_to_cache_dict r = JObj [
     (''zone_id'', JStr (rule_zone_id r)), (''name_pattern'', json_opt (rule_name_pattern r)),
     (''name_match'', JStr (rule_name_match r)), (''record_types'', json_strs (rule_record_types r)),
     (''record_ids'', case rule_record_ids r of None \<Rightarrow> JNull | Some ids \<Rightarrow> json_strs ids),
     (''allow_read'', JBool (rule_allow_read r)), (''allow_create'', JBool (rule_allow_create r)),
     (''allow_write'', JBool (rule_allow_write r)), (''allow_delete'', JBool (rule_allow_delete r))]"

text \<open>
  \<^verbatim>\<open>SimpleNamespace(**data)\<close>, read as a rule: a value that is not a dictionary raises
  \<^verbatim>\<open>TypeError\<close>; an attribute that is absent or not of the type a rule has raises
  \<^verbatim>\<open>AttributeError\<close> here, where Python raises it at the first use.
\<close>

definition attr :: "json \<Rightarrow> string \<Rightarrow> json res" where
  "attr data k = (case data of
     JObj kvs \<Rightarrow> (case map_of kvs k of None \<Rightarrow> Inl AttributeError | Some v \<Rightarrow> Inr v)
   | _ \<Rightarrow> Inl TypeError)"

fun to_str :: "json \<Rightarrow> string res" where
  "to_str (JStr s) = Inr s"
| "to_str _ = Inl AttributeError"

fun to_bool :: "json \<Rightarrow> bool res" where
  "to_bool (JBool b) = Inr b"
| "to_bool _ = Inl AttributeError"

fun to_opt_str :: "json \<Rightarrow> string option res" where
  "to_opt_str JNull = Inr None"
| "to_opt_str v = bind_res (to_str v) (\<lambda>s. Inr (Some s))"

fun to_strs :: "json list \<Rightarrow> string list res" where
  "to_strs [] = Inr []"
| "to_strs (v # vs) = bind_res (to_str v) (\<lambda>s. bind_res (to_strs vs) (\<lambda>ss. Inr (s # ss)))"

fun to_str_list :: "json \<Rightarrow> string list res" where
  "to_str_list (JArr vs) = to_strs vs"
| "to_str_list _ = Inl AttributeError"

fun to_opt_str_list :: "json \<Rightarrow> string list option res" where
  "to_opt_str_list JNull = Inr None"
| "to_opt_str_list v = bind_res (to_str_list v) (\<lambda>ss. Inr (Some ss))"

definition cache_dict_to_rule :: "json \<Rightarrow> rule res" where
  "cache_dict_to_rule data =
     bind_res (bind_res (attr data ''zone_id'') to_str) (\<lambda>zone.
     bind_res (bind_res (attr data ''name_pattern'') to_opt_str) (\<lambda>pattern.
     bind_res (bind_res (attr data ''name_match'') to_str) (\<lambda>mtch.
     bind_res (bind_res (attr data ''record_types'') to_str_list) (\<lambda>types.
     bind_res (bind_res (attr data ''record_ids'') to_opt_str_list) (\<lambda>ids.
     bind_res (bind_res (attr data ''allow_read'') to_bool) (\<lambda>r.
     bind_res (bind_res (attr data ''allow_create'') to_bool) (\<lambda>c.
     bind_res (bind_res (attr data ''allow_write'') to_bool) (\<lambda>wr.
     bind_res (bind_res (attr data ''allow_delete'') to_bool) (\<lambda>d.
       Inr \<lparr>rule_zone_id = zone, rule_name_pattern = pattern, rule_name_match = mtch,
            rule_record_types = types, rule_record_ids = ids, rule_allow_read = r,
            rule_allow_create = c, rule_allow_write = wr, rule_allow_delete = d\<rparr>)))))))))"

fun cache_dicts_to_rules :: "json list \<Rightarrow> rule list res" where
  "cache_dicts_to_rules [] = Inr []"
| "cache_dicts_to_rules (v # vs) =
     bind_res (cache_dict_to_rule v) (\<lambda>r. bind_res (cache_dicts_to_rules vs) (\<lambda>rs. Inr (r # rs)))"

definition get_cached_rules :: "env \<Rightarrow> string \<Rightarrow> (world, json) prog" where
  "get_cached_rules E key =
     bind (catch (redis_get E key) (\<lambda>_. return None)) (\<lambda>raw. return (decode_raw raw))"

definition set_cached_rules :: "env \<Rightarrow> string \<Rightarrow> json \<Rightarrow> int \<Rightarrow> (world, unit) prog" where
  "set_cached_rules E key rules ttl = catch (redis_set E key rules ttl) (\<lambda>_. return ())"

text \<open>\<^verbatim>\<open>select(ScopeRule).where(ScopeRule.scoped_token_id == scoped_token.id)\<close>\<close>

definition rules_of :: "world \<Rightarrow> scoped_token \<Rightarrow> scope_rule list" where
  "rules_of w tok = filter (\<lambda>r. r_scoped_token_id r = t_id tok) (w_rules w)"

definition load_rules :: "env \<Rightarrow> scoped_token \<Rightarrow> (world, rule list) prog" where
  "load_rules E tok =
     (let key = rules_key (t_lookup_id tok) (t_version tok) in
      bind (get_cached_rules E key) (\<lambda>cached.
        if cached \<noteq> JNull then
          bind (lift (json_iter cached)) (\<lambda>items. lift (cache_dicts_to_rules items))
        else
          bind (gets (\<lambda>w. rules_of w tok)) (\<lambda>rules.
          bind (set_cached_rules E key (JArr (map rule_to_cache_dict rules)) (s_rules_cache_ttl (e_settings E))) (\<lambda>_.
            return (map rule.truncate rules)))))"

text \<open>\<^verbatim>\<open>scoped_token.expires_at is not None and scoped_token.expires_at < datetime.now(UTC)\<close>\<close>

definition token_expired :: "env \<Rightarrow> world \<Rightarrow> scoped_token \<Rightarrow> bool res" where
  "token_expired E w tok = (case t_expires_at tok of
      None \<Rightarrow> Inr False
    | Some d \<Rightarrow> dt_less (e_dt_load E d) (utcnow w))"

definition resolve_scoped_token :: "env \<Rightarrow> string \<Rightarrow> (world, proxy_auth_context option) prog" where
  "resolve_scoped_token E full_token =
     (case parse_scoped_token full_token of
        None \<Rightarrow> return None
      | Some (lookup_id, secret) \<Rightarrow>
          bind (gets (\<lambda>w. find (\<lambda>k. t_lookup_id k = lookup_id) (w_tokens w))) (\<lambda>row.
            (case row of
               None \<Rightarrow> return None
             | Some tok \<Rightarrow>
                 if \<not> verify_token E full_token (t_token_hash tok) then return None
                 else if t_status tok \<noteq> ''active'' then return None
                 else bind (\<lambda>w. (token_expired E w tok, w)) (\<lambda>expired.
                   if expired then return None
                   else bind (gets (\<lambda>w. find (\<lambda>c. c_id c = t_upstream_credential_id tok) (w_credentials w))) (\<lambda>cred_row.
                     (case cred_row of
                        None \<Rightarrow> return None
                      | Some cred \<Rightarrow>
                          bind (load_rules E tok) (\<lambda>rules.
                            return (Some \<lparr>x_token = tok, x_rules = rules, x_credential = cred\<rparr>))))))))"

definition invalid_api_token :: exn where
  "invalid_api_token = HTTPException 401 TOKEN_INVALID ''Invalid API Token''"

text \<open>The argument is the request's \<^verbatim>\<open>Authorization\<close> header, if it has one.\<close>

definition require_scoped_token :: "env \<Rightarrow> string option \<Rightarrow> (world, proxy_auth_context) prog" where
  "require_scoped_token E header =
     (let (scheme, full_token) = py_partition CHR '' '' (case header of None \<Rightarrow> [] | Some h \<Rightarrow> h) in
      if py_lower scheme \<noteq> ''bearer'' \<or> full_token = [] then raise invalid_api_token
      else bind (resolve_scoped_token E full_token) (\<lambda>context.
        (case context of None \<Rightarrow> raise invalid_api_token | Some ctx \<Rightarrow> return ctx)))"

section \<open>The rules cache\<close>

lemma get_cached_rules_eq: "get_cached_rules E = cache_get_json E"
  by (intro ext) (simp add: get_cached_rules_def cache_get_json_def bind_app catch_app redis_get_def redis_call_def
      decode_raw_def Let_def split: prod.splits sum.splits)

lemma set_cached_rules_eq: "set_cached_rules E = cache_set_json E"
  by (simp add: fun_eq_iff set_cached_rules_def cache_set_json_def)

interpretation rules_cache: tolerant_cache "get_cached_rules E" "set_cached_rules E" "cache_del E" for E
  unfolding get_cached_rules_eq set_cached_rules_eq by (rule redis.tolerant_cache_axioms)

lemma to_strs_JStr [simp]: "to_strs (map JStr xs) = Inr xs"
  by (induction xs) simp_all

lemma to_opt_json_opt [simp]: "to_opt_str (json_opt x) = Inr x"
  by (cases x) simp_all

lemma cache_dict_roundtrip [simp]: "cache_dict_to_rule (rule_to_cache_dict r) = Inr (rule.truncate r)"
proof -
  have "to_opt_str_list (case ids of None \<Rightarrow> JNull | Some ids \<Rightarrow> json_strs ids) = Inr ids" for ids
    by (cases ids) (simp_all add: json_strs_def)
  moreover have "to_str_list (json_strs xs) = Inr xs" for xs by (simp add: json_strs_def)
  ultimately show ?thesis
    by (simp add: cache_dict_to_rule_def rule_to_cache_dict_def attr_def rule.truncate_def)
qed

lemma cache_dicts_roundtrip [simp]:
  "cache_dicts_to_rules (map rule_to_cache_dict rs) = Inr (map rule.truncate rs)"
  by (induction rs) simp_all

text \<open>
  Coherence: a live entry under a key of a token's lookup id is not ahead of the token's version,
  and at the token's current version it holds the token's rules. Entries of lookup ids that no
  row has any more (rotated tokens) are never read.
\<close>

definition rules_entry_ok :: "world \<Rightarrow> string \<Rightarrow> json \<Rightarrow> bool" where
  "rules_entry_ok w k v \<longleftrightarrow>
     (\<forall>tok \<in> set (w_tokens w). \<forall>n. k = rules_key (t_lookup_id tok) n \<longrightarrow>
        n \<le> t_version tok \<and> (n = t_version tok \<longrightarrow> v = JArr (map rule_to_cache_dict (rules_of w tok))))"

definition rules_coherent :: "world \<Rightarrow> bool" where
  "rules_coherent w \<longleftrightarrow> redis.entries (rules_entry_ok w) w"

lemma rules_entry_ok_frame:
  assumes "same_but_redis w t" shows "rules_entry_ok t = rules_entry_ok w"
proof -
  have "w_tokens t = w_tokens w \<and> w_rules t = w_rules w"
    using assms unfolding same_but_redis_def by (metis world.select_convs(3,4) world.surjective world.update_convs(6,7))
  then show ?thesis by (simp add: rules_entry_ok_def rules_of_def fun_eq_iff)
qed

lemma same_but_redis_fields:
  assumes "same_but_redis w t"
  shows "w_tokens t = w_tokens w" "w_rules t = w_rules w" "w_credentials t = w_credentials w"
    "w_trace t = w_trace w" "w_now t = w_now w" "w_audit t = w_audit w" "w_users t = w_users w"
  using assms unfolding same_but_redis_def
  by (metis world.select_convs world.surjective world.update_convs(6,7))+

lemma same_but_redis_trans: "same_but_redis u v \<Longrightarrow> same_but_redis v w \<Longrightarrow> same_but_redis u w"
  unfolding same_but_redis_def by (cases u; cases v; cases w) simp

lemma same_but_redis_refl [simp]: "same_but_redis w w"
  by (simp add: same_but_redis_def)

lemma entry_of_token:
  assumes "tokens_ok (w_tokens w)" and "tok \<in> set (w_tokens w)"
  shows "rules_entry_ok w (rules_key (t_lookup_id tok) (t_version tok)) v
     \<longleftrightarrow> v = JArr (map rule_to_cache_dict (rules_of w tok))"
proof -
  have uniq: "k = tok" if "k \<in> set (w_tokens w)" "t_lookup_id k = t_lookup_id tok" for k
    using assms that unfolding tokens_ok_def by (metis distinct_map inj_onD)
  show ?thesis
  proof
    assume "rules_entry_ok w (rules_key (t_lookup_id tok) (t_version tok)) v"
    with assms(2) show "v = JArr (map rule_to_cache_dict (rules_of w tok))" unfolding rules_entry_ok_def by blast
  next
    assume v: "v = JArr (map rule_to_cache_dict (rules_of w tok))"
    show "rules_entry_ok w (rules_key (t_lookup_id tok) (t_version tok)) v"
      unfolding rules_entry_ok_def
    proof (intro ballI allI impI)
      fix k n assume k: "k \<in> set (w_tokens w)" and "rules_key (t_lookup_id tok) (t_version tok) = rules_key (t_lookup_id k) n"
      then have n: "t_lookup_id k = t_lookup_id tok" "n = t_version tok" by (auto dest: rules_key_inj)
      with uniq [OF k] v show "n \<le> t_version k \<and> (n = t_version k \<longrightarrow> v = JArr (map rule_to_cache_dict (rules_of w k)))" by simp
    qed
  qed
qed

text \<open>
  When the tables change, coherence stays as long as every token row either has a lookup id
  without cached entries, or succeeds a row of the same lookup id with a smaller version or with
  the same version and the same rules.
\<close>

lemma rules_coherent_step:
  assumes coh: "rules_coherent w"
    and live: "\<And>l n v. live_json t (rules_key l n) = Some v \<Longrightarrow> live_json w (rules_key l n) = Some v"
    and rows: "\<And>k'. k' \<in> set (w_tokens t) \<Longrightarrow>
      (\<forall>n. live_json w (rules_key (t_lookup_id k') n) = None)
      \<or> (\<exists>k \<in> set (w_tokens w). t_lookup_id k = t_lookup_id k' \<and>
           (t_version k < t_version k' \<or> (t_version k = t_version k' \<and> rules_of t k' = rules_of w k)))"
  shows "rules_coherent t"
  unfolding rules_coherent_def redis.entries_def rules_entry_ok_def
proof (intro allI impI ballI)
  fix key v k' n
  assume lv: "live_json t key = Some v" and k': "k' \<in> set (w_tokens t)" and key: "key = rules_key (t_lookup_id k') n"
  have "live_json w key = Some v" using live lv unfolding key .
  then obtain k where k: "k \<in> set (w_tokens w)" "t_lookup_id k = t_lookup_id k'"
      "t_version k < t_version k' \<or> (t_version k = t_version k' \<and> rules_of t k' = rules_of w k)"
    and ok: "rules_entry_ok w key v"
    using rows [OF k'] key coh by (auto simp: rules_coherent_def redis.entries_def)
  have "n \<le> t_version k \<and> (n = t_version k \<longrightarrow> v = JArr (map rule_to_cache_dict (rules_of w k)))"
    using ok k(1,2) key unfolding rules_entry_ok_def by metis
  with k(3) show "n \<le> t_version k' \<and> (n = t_version k' \<longrightarrow> v = JArr (map rule_to_cache_dict (rules_of t k')))"
    by auto
qed

lemma load_rules_coherent:
  assumes coh: "rules_coherent w" and ok: "tokens_ok (w_tokens w)" and tok: "tok \<in> set (w_tokens w)"
  obtains t where "load_rules E tok w = (Inr (map rule.truncate (rules_of w tok)), t)"
    and "same_but_redis w t" and "rules_coherent t"
proof -
  let ?key = "rules_key (t_lookup_id tok) (t_version tok)"
  let ?val = "JArr (map rule_to_cache_dict (rules_of w tok))"
  note entry = entry_of_token [OF ok tok]
  obtain v t where get: "get_cached_rules E ?key w = (Inr v, t)" "v = JNull \<or> rules_entry_ok w ?key v"
      and t: "same_but_redis w t" "rules_cache.entries (rules_entry_ok w) t"
    using coh unfolding rules_coherent_def by (rule rules_cache.get_entries)
  show thesis
  proof (cases "v = JNull")
    case False
    with get entry have v: "v = ?val" by simp
    have "rules_coherent t" using t rules_entry_ok_frame [OF t(1)] by (simp add: rules_coherent_def)
    moreover have "load_rules E tok w = (Inr (map rule.truncate (rules_of w tok)), t)"
      using get(1) v by (simp add: load_rules_def Let_def bind_app)
    ultimately show thesis using that t(1) by blast
  next
    case True
    have val: "rules_entry_ok w ?key ?val" by (simp add: entry)
    obtain u where set: "set_cached_rules E ?key ?val (s_rules_cache_ttl (e_settings E)) t = (Inr (), u)"
      and u: "same_but_redis t u" "rules_cache.entries (rules_entry_ok w) u"
      using t(2) val by (rule rules_cache.set_entries)
    have wu: "same_but_redis w u" using t(1) u(1) by (rule same_but_redis_trans)
    have "rules_of t tok = rules_of w tok" using same_but_redis_fields [OF t(1)] by (simp add: rules_of_def)
    then have "load_rules E tok w = (Inr (map rule.truncate (rules_of w tok)), u)"
      using get(1) True set by (simp add: load_rules_def Let_def bind_app)
    moreover have "rules_coherent u" using u(2) rules_entry_ok_frame [OF wu] by (simp add: rules_coherent_def)
    ultimately show thesis using that wu by blast
  qed
qed

section \<open>The reference without a cache\<close>

definition db_resolve :: "env \<Rightarrow> world \<Rightarrow> string \<Rightarrow> proxy_auth_context option res" where
  "db_resolve E w full_token =
     (case parse_scoped_token full_token of
        None \<Rightarrow> Inr None
      | Some (lookup_id, secret) \<Rightarrow>
          (case find (\<lambda>k. t_lookup_id k = lookup_id) (w_tokens w) of
             None \<Rightarrow> Inr None
           | Some tok \<Rightarrow>
               if \<not> verify_token E full_token (t_token_hash tok) \<or> t_status tok \<noteq> ''active'' then Inr None
               else bind_res (token_expired E w tok) (\<lambda>expired.
                 if expired then Inr None
                 else Inr (case find (\<lambda>c. c_id c = t_upstream_credential_id tok) (w_credentials w) of
                    None \<Rightarrow> None
                  | Some cred \<Rightarrow> Some \<lparr>x_token = tok, x_rules = map rule.truncate (rules_of w tok), x_credential = cred\<rparr>))))"

text \<open>A resolution that succeeds passed every check, whatever the cache holds.\<close>

lemma resolve_someD:
  assumes "resolve_scoped_token E full w = (Inr (Some ctx), t)"
  obtains secret where "parse_scoped_token full = Some (t_lookup_id (x_token ctx), secret)"
    and "find (\<lambda>k. t_lookup_id k = t_lookup_id (x_token ctx)) (w_tokens w) = Some (x_token ctx)"
    and "verify_token E full (t_token_hash (x_token ctx))" and "t_status (x_token ctx) = ''active''"
    and "token_expired E w (x_token ctx) = Inr False"
    and "find (\<lambda>c. c_id c = t_upstream_credential_id (x_token ctx)) (w_credentials w) = Some (x_credential ctx)"
    and "load_rules E (x_token ctx) w = (Inr (x_rules ctx), t)"
proof -
  obtain l secret where p: "parse_scoped_token full = Some (l, secret)"
    using assms by (auto simp: resolve_scoped_token_def split: option.splits)
  obtain tok where f: "find (\<lambda>k. t_lookup_id k = l) (w_tokens w) = Some tok"
    using assms p by (cases "find (\<lambda>k. t_lookup_id k = l) (w_tokens w)") (simp_all add: resolve_scoped_token_def bind_app)
  have v: "verify_token E full (t_token_hash tok)" "t_status tok = ''active''" "token_expired E w tok = Inr False"
    using assms p f by (auto simp: resolve_scoped_token_def bind_app split: if_splits sum.splits)
  obtain cred where c: "find (\<lambda>c. c_id c = t_upstream_credential_id tok) (w_credentials w) = Some cred"
    using assms p f v
    by (cases "find (\<lambda>c. c_id c = t_upstream_credential_id tok) (w_credentials w)") (simp_all add: resolve_scoped_token_def bind_app)
  have "load_rules E tok w = (Inr (x_rules ctx), t) \<and> x_token ctx = tok \<and> x_credential ctx = cred"
    using assms p f v c by (auto simp: resolve_scoped_token_def bind_app split: prod.splits sum.splits)
  moreover have "t_lookup_id tok = l" using find_SomeD [OF f] by simp
  ultimately show thesis using that p f v c by auto
qed

lemma resolve_tokenD:
  assumes "resolve_scoped_token E full w = (Inr (Some ctx), t)"
  shows "x_token ctx \<in> set (w_tokens w)" and "hash_token E full = t_token_hash (x_token ctx)"
    and "t_status (x_token ctx) = ''active''" and "token_expired E w (x_token ctx) = Inr False"
    and "x_credential ctx \<in> set (w_credentials w)" and "c_id (x_credential ctx) = t_upstream_credential_id (x_token ctx)"
proof -
  obtain secret where r: "find (\<lambda>k. t_lookup_id k = t_lookup_id (x_token ctx)) (w_tokens w) = Some (x_token ctx)"
    "verify_token E full (t_token_hash (x_token ctx))" "t_status (x_token ctx) = ''active''"
    "token_expired E w (x_token ctx) = Inr False"
    "find (\<lambda>c. c_id c = t_upstream_credential_id (x_token ctx)) (w_credentials w) = Some (x_credential ctx)"
    using assms by (rule resolve_someD)
  show "x_token ctx \<in> set (w_tokens w)" "x_credential ctx \<in> set (w_credentials w)"
    "c_id (x_credential ctx) = t_upstream_credential_id (x_token ctx)"
    using find_SomeD [OF r(1)] find_SomeD [OF r(5)] by simp_all
  show "hash_token E full = t_token_hash (x_token ctx)" "t_status (x_token ctx) = ''active''"
    "token_expired E w (x_token ctx) = Inr False" using r(2-4) by (simp_all add: verify_token_def)
qed

lemma keeps_load_rules [keeps_intros]: "keeps (same_but_redis u) (load_rules E tok)"
proof (rule keepsI)
  fix w assume "same_but_redis u w"
  moreover have "same_but_redis w (snd (load_rules E tok w))"
    by (simp add: load_rules_def Let_def bind_app get_cached_rules_eq set_cached_rules_eq cache_get_json_run
        cache_set_json_run same_but_redis_def split: sum.splits)
  ultimately show "same_but_redis u (snd (load_rules E tok w))" by (rule same_but_redis_trans)
qed

lemma resolve_frame: "same_but_redis w (snd (resolve_scoped_token E full w))"
proof -
  have "keeps (same_but_redis w) (resolve_scoped_token E full)"
    unfolding resolve_scoped_token_def by (intro keeps_intros)
  then show ?thesis by (simp add: keeps_def)
qed

lemma require_frame: "same_but_redis w (snd (require_scoped_token E h w))"
proof -
  have "keeps (same_but_redis w) (require_scoped_token E h)"
    unfolding require_scoped_token_def resolve_scoped_token_def by (intro keeps_intros)
  then show ?thesis by (simp add: keeps_def)
qed

lemma require_InrD:
  "require_scoped_token E h w = (Inr ctx, t) \<Longrightarrow> \<exists>full. resolve_scoped_token E full w = (Inr (Some ctx), t)"
  by (auto simp: require_scoped_token_def Let_def bind_Inr_iff split: prod.splits if_splits option.splits)

lemma emits_require [emits_intros]: "emits P (require_scoped_token E h)"
  using require_frame same_but_redis_fields(4) by (intro emits_same_trace) blast

lemma resolve_database:
  assumes "rules_coherent w" and "tokens_ok (w_tokens w)"
  shows "fst (resolve_scoped_token E full w) = db_resolve E w full
       \<and> rules_coherent (snd (resolve_scoped_token E full w))"
proof (cases "parse_scoped_token full")
  case None
  with assms show ?thesis by (simp add: resolve_scoped_token_def db_resolve_def)
next
  case (Some p)
  obtain l secret where p: "parse_scoped_token full = Some (l, secret)" using Some by (cases p) simp
  show ?thesis
  proof (cases "find (\<lambda>k. t_lookup_id k = l) (w_tokens w)")
    case None
    with assms p show ?thesis by (simp add: resolve_scoped_token_def db_resolve_def bind_app)
  next
    case (Some tok)
    then have tok: "tok \<in> set (w_tokens w)" by (simp add: find_SomeD)
    obtain t where "load_rules E tok w = (Inr (map rule.truncate (rules_of w tok)), t)" "rules_coherent t"
      using assms tok by (rule load_rules_coherent)
    with assms(1) p Some show ?thesis
      by (simp add: resolve_scoped_token_def db_resolve_def bind_app split: sum.splits option.splits)
  qed
qed

section \<open>Properties\<close>

text \<open>
  C20: only a live token is let in: when a presented string resolves, its row was read from the
  database in this request, the string hashes to the row's hash, the row is active and not
  expired, and the context carries the credential that the row names; nothing but the cache
  changes. This holds for every content of the cache, so a revoked or rotated token is refused
  at once.
\<close>

theorem resolves_only_live_tokens:
  assumes "resolve_scoped_token E full w = (Inr (Some ctx), t)"
  shows "x_token ctx \<in> set (w_tokens w) \<and> hash_token E full = t_token_hash (x_token ctx)
       \<and> t_status (x_token ctx) = ''active'' \<and> token_expired E w (x_token ctx) = Inr False
       \<and> x_credential ctx \<in> set (w_credentials w) \<and> c_id (x_credential ctx) = t_upstream_credential_id (x_token ctx)
       \<and> same_but_redis w t"
  using resolve_tokenD [OF assms] resolve_frame [of w E full] assms by simp

text \<open>
  C6: the cache does not change the outcome: while the rules cache is coherent, resolution gives
  exactly what the reference computes from the database alone, error cases included, for every
  pattern of Redis failures, and coherence is kept.
\<close>

theorem resolve_refines_database:
  assumes "rules_coherent w" and "tokens_ok (w_tokens w)"
  shows "fst (resolve_scoped_token E full w) = db_resolve E w full
       \<and> rules_coherent (snd (resolve_scoped_token E full w))"
  using assms by (rule resolve_database)

text \<open>
  C40: a scoped token with an expiry cannot be used where the database gives back naive time
  stamps: its resolution ends in \<^verbatim>\<open>TypeError\<close>, which no handler on this path catches, instead of
  the context or the 401 answer.
\<close>

theorem expiring_token_raises:
  assumes "\<forall>d. \<not> aware (e_dt_load E d)"
    and "parse_scoped_token full = Some (l, secret)" and "find (\<lambda>k. t_lookup_id k = l) (w_tokens w) = Some tok"
    and "verify_token E full (t_token_hash tok)" and "t_status tok = ''active''" and "t_expires_at tok = Some d"
  shows "resolve_scoped_token E full w = (Inl TypeError, w)"
  using assms by (simp add: resolve_scoped_token_def bind_app token_expired_def dt_less_def utcnow_def)

section \<open>Witnesses\<close>

lemma demo_resolves:
  "\<exists>ctx t. resolve_scoped_token demo_env demo_full demo_world = (Inr (Some ctx), t) \<and> x_token ctx = demo_token"
proof -
  have "case fst (resolve_scoped_token demo_env demo_full demo_world) of
      Inl _ \<Rightarrow> False | Inr None \<Rightarrow> False | Inr (Some ctx) \<Rightarrow> x_token ctx = demo_token" by code_simp
  then show ?thesis by (cases "resolve_scoped_token demo_env demo_full demo_world") (auto split: sum.splits option.splits)
qed

theorem resolves_only_live_tokens_witness:
  "\<exists>ctx t. resolve_scoped_token demo_env demo_full demo_world = (Inr (Some ctx), t)
     \<and> x_token ctx \<in> set (w_tokens demo_world) \<and> t_status (x_token ctx) = ''active''"
proof -
  obtain ctx t where "resolve_scoped_token demo_env demo_full demo_world = (Inr (Some ctx), t)"
    using demo_resolves by blast
  from this resolves_only_live_tokens [OF this] show ?thesis by blast
qed

lemma demo_coherent: "rules_coherent demo_world" "tokens_ok (w_tokens demo_world)"
  by (simp_all add: rules_coherent_def redis.entries_def live_json_def live_entry_def demo_world_def tokens_ok_def)

theorem resolve_refines_database_witness:
  "fst (resolve_scoped_token demo_env demo_full demo_world) = db_resolve demo_env demo_world demo_full
   \<and> rules_coherent (snd (resolve_scoped_token demo_env demo_full demo_world))"
  by (rule resolve_refines_database [OF demo_coherent])

theorem expiring_token_raises_witness:
  "fst (resolve_scoped_token demo_env demo_full
     (demo_world\<lparr>w_tokens := [demo_token\<lparr>t_expires_at := Some \<lparr>instant = 9999, aware = True\<rparr>\<rparr>]\<rparr>)) = Inl TypeError"
proof -
  let ?t = "demo_token\<lparr>t_expires_at := Some \<lparr>instant = 9999, aware = True\<rparr>\<rparr>"
  have n: "\<forall>d. \<not> aware (e_dt_load demo_env d)" by (simp add: demo_env_def)
  have p: "parse_scoped_token demo_full = Some (''abcdefghijklmnop'', ''0123456789012345678901234567890123456789'')"
    by code_simp
  have f: "find (\<lambda>k. t_lookup_id k = ''abcdefghijklmnop'') (w_tokens (demo_world\<lparr>w_tokens := [?t]\<rparr>)) = Some ?t"
    by (simp add: demo_token_def)
  have v: "verify_token demo_env demo_full (t_token_hash ?t)" by (simp add: verify_token_def hash_token_def demo_env_def demo_token_def)
  have a: "t_status ?t = ''active''" by (simp add: demo_token_def)
  have e: "t_expires_at ?t = Some \<lparr>instant = 9999, aware = True\<rparr>" by simp
  from expiring_token_raises [OF n p f v a e] show ?thesis by simp
qed

end
