(* ===== verification/ProxyDns.thy ===== *)
theory ProxyDns
  imports Authorizer AuditService Locks ProxyAuth
begin

text \<open>
  \<^verbatim>\<open>routers/proxy_dns.py\<close>: the zone and record endpoints of the machine plane. Each handler runs
  with the context that \<open>require_scoped_token\<close> resolved; the handler of a by-id mutation takes
  the mutation lock before it fetches the record and releases it after it has forwarded.
\<close>

section \<open>The client's request\<close>

text \<open>
  What the handlers read of the incoming request: the query (one value per name), the body as
  parsed JSON (absent when it does not parse) and as raw bytes, the client host and the
  \<^verbatim>\<open>Authorization\<close> header.
\<close>

record client_request =
  cq_query :: "(string \<times> string) list"
  cq_json :: "json option"
  cq_body :: string
  cq_client :: "string option"
  cq_authorization :: "string option"

definition request_json :: "client_request \<Rightarrow> json res" where
  "request_json rq = (case cq_json rq of None \<Rightarrow> Inl JSONDecodeError | Some j \<Rightarrow> Inr j)"

definition client_ip :: "client_request \<Rightarrow> string option" where
  "client_ip rq = cq_client rq"

section \<open>Helpers\<close>

definition DEFAULT_PAGE :: int where "DEFAULT_PAGE = 1"
definition DEFAULT_PER_PAGE :: int where "DEFAULT_PER_PAGE = 20"

definition LOCK_UNAVAILABLE_MESSAGE :: string where
  "LOCK_UNAVAILABLE_MESSAGE = ''Could not acquire the record mutation lock, please retry.''"

definition record_audit :: "env \<Rightarrow> proxy_auth_context \<Rightarrow> audit_log \<Rightarrow> (world, unit) prog" where
  "record_audit E ctx entry =
     catch (bind (write_audit E (entry\<lparr>a_user_id := Some (t_user_id (x_token ctx)),
                    a_scoped_token_id := Some (t_id (x_token ctx)), a_token_prefix := Some (t_token_prefix (x_token ctx))\<rparr>))
              (\<lambda>_. return ()))
           (\<lambda>_. return ())"

definition pop_int :: "(string \<times> string) list \<Rightarrow> string \<Rightarrow> int \<Rightarrow> int res" where
  "pop_int params key dflt = (case map_of params key of
     None \<Rightarrow> Inr dflt | Some s \<Rightarrow> if s = [] then Inr dflt else py_int s)"

definition pop_pagination :: "(string \<times> string) list \<Rightarrow> (int \<times> int \<times> (string \<times> json) list) res" where
  "pop_pagination query_params =
     bind_res (pop_int query_params ''page'' DEFAULT_PAGE) (\<lambda>page.
     bind_res (pop_int query_params ''per_page'' DEFAULT_PER_PAGE) (\<lambda>per_page.
       Inr (page, per_page,
            map (\<lambda>(k, v). (k, JStr v)) (filter (\<lambda>(k, v). k \<notin> {''page'', ''per_page''}) query_params))))"

text \<open>
  The zone listing loop; like \<open>list_records_loop\<close> it carries fuel and ends in \<open>Diverges\<close> without.
  Unlike it, an upstream failure ends the loop with the zones seen so far.
\<close>

fun fetch_zones_loop ::
  "nat \<Rightarrow> env \<Rightarrow> (string \<times> string) list \<Rightarrow> (string \<times> json) list \<Rightarrow> int \<Rightarrow> json list \<Rightarrow> (world, json list) prog" where
  "fetch_zones_loop 0 E auth_headers params page zones = raise Diverges"
| "fetch_zones_loop (Suc fuel) E auth_headers params page zones =
     bind (forward_request E ''GET'' ''/client/v4/zones'' [] (page_params params page 50) None auth_headers) (\<lambda>response.
     bind (lift (response_json response)) (\<lambda>body.
     bind (lift (if 400 \<le> p_status response then Inr JNull else get_default body ''success'' (JBool False))) (\<lambda>success.
       if \<not> truthy success then return zones
       else bind (lift (page_items body page)) (\<lambda>(items, last).
         if last then return (zones @ items)
         else fetch_zones_loop fuel E auth_headers params (page + 1) (zones @ items)))))"

definition fetch_all_zones :: "nat \<Rightarrow> env \<Rightarrow> (string \<times> string) list \<Rightarrow> (string \<times> json) list \<Rightarrow> (world, json list) prog" where
  "fetch_all_zones fuel E auth_headers params = fetch_zones_loop fuel E auth_headers params 1 []"

text \<open>\<^verbatim>\<open>zone.get("id") in in_scope_zone_ids\<close>; a list or a dictionary is not hashable.\<close>

definition zone_in_scope :: "('a rule_scheme) list \<Rightarrow> json \<Rightarrow> bool res" where
  "zone_in_scope rules zone = bind_res (get zone ''id'') (\<lambda>i. (case i of
     JArr _ \<Rightarrow> Inl TypeError
   | JObj _ \<Rightarrow> Inl TypeError
   | _ \<Rightarrow> Inr (list_ex (\<lambda>r. i = JStr (rule_zone_id r)) rules)))"

fun zones_in_scope :: "('a rule_scheme) list \<Rightarrow> json list \<Rightarrow> json list res" where
  "zones_in_scope rules [] = Inr []"
| "zones_in_scope rules (z # zs) =
     bind_res (zone_in_scope rules z) (\<lambda>ok.
     bind_res (zones_in_scope rules zs) (\<lambda>rest. Inr (if ok then z # rest else rest)))"

definition result_info_json :: "result_info \<Rightarrow> json" where
  "result_info_json i = JObj [(''page'', JNum (ri_page i)), (''per_page'', JNum (ri_per_page i)),
     (''count'', JNum (ri_count i)), (''total_count'', JNum (ri_total_count i)), (''total_pages'', JNum (ri_total_pages i))]"

definition paged_response :: "json list \<Rightarrow> int \<Rightarrow> int \<Rightarrow> response" where
  "paged_response items page per_page =
     (let (page_items, info) = paginate_and_result_info items page per_page
      in make_cf_response (JArr page_items) 200 [] (Some (result_info_json info)))"

section \<open>Listing\<close>

definition list_zones :: "nat \<Rightarrow> env \<Rightarrow> client_request \<Rightarrow> proxy_auth_context \<Rightarrow> (world, response) prog" where
  "list_zones fuel E rq ctx =
     bind (lift (pop_pagination (cq_query rq))) (\<lambda>(page, per_page, remaining).
     bind (resolve_upstream_auth E (x_credential ctx)) (\<lambda>auth_headers.
     bind (fetch_all_zones fuel E auth_headers remaining) (\<lambda>all_zones.
     bind (lift (zones_in_scope (x_rules ctx) all_zones)) (\<lambda>zones.
       return (paged_response zones page per_page)))))"

definition list_dns_records :: "nat \<Rightarrow> env \<Rightarrow> string \<Rightarrow> client_request \<Rightarrow> proxy_auth_context \<Rightarrow> (world, response) prog" where
  "list_dns_records fuel E zone_id rq ctx =
     bind (lift (pop_pagination (cq_query rq))) (\<lambda>(page, per_page, remaining).
       if \<not> list_ex (\<lambda>r. rule_zone_id r = zone_id) (x_rules ctx) then
         return (make_cf_response (JArr []) 200 []
           (Some (result_info_json (snd (paginate_and_result_info ([] :: json list) page per_page)))))
       else
         bind (resolve_upstream_auth E (x_credential ctx)) (\<lambda>auth_headers.
         bind (list_all_records fuel E zone_id remaining auth_headers) (\<lambda>all_records.
         bind (lift (filter_records (e_idna E) all_records (x_rules ctx) zone_id)) (\<lambda>authorized.
           return (paged_response authorized page per_page)))))"

section \<open>Creation\<close>

text \<open>\<^verbatim>\<open>v.get(k) if isinstance(v, dict) else None\<close>\<close>

definition dict_get :: "json \<Rightarrow> string \<Rightarrow> json" where
  "dict_get v k = (case v of JObj kvs \<Rightarrow> (case map_of kvs k of None \<Rightarrow> JNull | Some x \<Rightarrow> x) | _ \<Rightarrow> JNull)"

definition deny_reason_of :: "int \<Rightarrow> string \<Rightarrow> string" where
  "deny_reason_of code message = int_str code @ '': '' @ message"

text \<open>\<^verbatim>\<open>JSONResponse(status_code=..., content=...)\<close>: Cloudflare's answer, verbatim\<close>

definition json_response :: "int \<Rightarrow> json \<Rightarrow> response" where
  "json_response status body = \<lparr>status_code = status, content = body\<rparr>"

text \<open>\<^verbatim>\<open>status, code, message = decision.error\<close>, the audit row of the denial, and the error envelope\<close>

definition deny_and_answer :: "env \<Rightarrow> proxy_auth_context \<Rightarrow> auth_decision \<Rightarrow> audit_log \<Rightarrow> (world, response) prog" where
  "deny_and_answer E ctx decision entry =
     (case deny_error decision of
        None \<Rightarrow> raise TypeError
      | Some (status, code, message) \<Rightarrow>
          bind (record_audit E ctx (entry\<lparr>a_deny_reason := Some (deny_reason_of code message)\<rparr>)) (\<lambda>_.
            return (make_cf_error status code message)))"

definition create_dns_record :: "env \<Rightarrow> string \<Rightarrow> client_request \<Rightarrow> proxy_auth_context \<Rightarrow> (world, response) prog" where
  "create_dns_record E zone_id rq ctx =
     bind (lift (request_json rq)) (\<lambda>body.
     let path = records_path zone_id;
         entry = (\<lambda>decision. (audit_entry ''POST'' path decision)\<lparr>a_zone_id := Some zone_id,
                    a_record_name := dict_get body ''name'', a_record_type := dict_get body ''type'', a_client_ip := client_ip rq\<rparr>)
     in
     bind (authorize_dns_request (e_idna E) (x_rules ctx) ''POST'' zone_id None body (\<lambda>_ _. return JNull)) (\<lambda>decision.
       if \<not> allowed decision then deny_and_answer E ctx decision (entry ''deny'')
       else
         bind (resolve_upstream_auth E (x_credential ctx)) (\<lambda>auth_headers.
         bind (forward_request E ''POST'' path [] [] (Some (cq_body rq)) auth_headers) (\<lambda>response.
         bind (lift (response_json response)) (\<lambda>response_body.
         bind (record_audit E ctx ((entry ''allow'')\<lparr>a_post_image := dict_get response_body ''result'',
                 a_upstream_status := Some (p_status response)\<rparr>)) (\<lambda>_.
           return (json_response (p_status response) response_body)))))))"

section \<open>Operations by record id\<close>

definition authorize_by_record_id ::
  "env \<Rightarrow> proxy_auth_context \<Rightarrow> string \<Rightarrow> string \<Rightarrow> string \<Rightarrow> json \<Rightarrow> (string \<times> string) list \<Rightarrow> (world, auth_decision) prog" where
  "authorize_by_record_id E ctx http_method zone_id record_id body auth_headers =
     authorize_dns_request (e_idna E) (x_rules ctx) http_method zone_id (Some record_id) body
       (\<lambda>z r. fetch_cf_record E z (case r of None \<Rightarrow> ''None'' | Some i \<Rightarrow> i) auth_headers)"

text \<open>\<^verbatim>\<open>pre_image.get(k) if pre_image else None\<close>\<close>

definition image_get :: "json \<Rightarrow> string \<Rightarrow> json res" where
  "image_get pre k = (if truthy pre then get pre k else Inr JNull)"

definition image_entry :: "string \<Rightarrow> string \<Rightarrow> string \<Rightarrow> string \<Rightarrow> json \<Rightarrow> client_request \<Rightarrow> audit_log res" where
  "image_entry http_method zone_id record_id decision pre rq =
     bind_res (image_get pre ''name'') (\<lambda>name.
     bind_res (image_get pre ''type'') (\<lambda>rtype.
       Inr ((audit_entry http_method (record_path zone_id record_id) decision)\<lparr>a_zone_id := Some zone_id, a_record_id := Some record_id,
              a_record_name := name, a_record_type := rtype, a_pre_image := pre, a_client_ip := client_ip rq\<rparr>)))"

definition authorize_and_forward ::
  "env \<Rightarrow> string \<Rightarrow> string \<Rightarrow> string \<Rightarrow> json \<Rightarrow> string option \<Rightarrow> proxy_auth_context \<Rightarrow> (string \<times> string) list
    \<Rightarrow> (world, auth_decision \<times> http_response option) prog" where
  "authorize_and_forward E http_method zone_id record_id body body_content ctx auth_headers =
     bind (authorize_by_record_id E ctx http_method zone_id record_id body auth_headers) (\<lambda>decision.
       if \<not> allowed decision then return (decision, None)
       else bind (forward_request E http_method (record_path zone_id record_id) [] [] body_content auth_headers) (\<lambda>upstream.
         return (decision, Some upstream)))"

definition mutation_need :: "string \<Rightarrow> need" where
  "mutation_need http_method = (if py_upper http_method = ''DELETE'' then Delete else Write)"

text \<open>The locked or exempt run; \<open>None\<close> is the handled \<^verbatim>\<open>LockUnavailable\<close>.\<close>

definition guarded_run :: "env \<Rightarrow> bool \<Rightarrow> string \<Rightarrow> (world, 'a) prog \<Rightarrow> (world, 'a option) prog" where
  "guarded_run E exempt name body =
     (if exempt then bind body (\<lambda>x. return (Some x))
      else catch (bind (advisory_lock E name body) (\<lambda>x. return (Some x)))
             (\<lambda>e. if e = LockUnavailable then return None else raise e))"

text \<open>What the handler does with the outcome: audit it and answer.\<close>

definition answer_mutation ::
  "env \<Rightarrow> string \<Rightarrow> string \<Rightarrow> string \<Rightarrow> client_request \<Rightarrow> proxy_auth_context
    \<Rightarrow> (auth_decision \<times> http_response option) option \<Rightarrow> (world, response) prog" where
  "answer_mutation E http_method zone_id record_id rq ctx outcome =
     (case outcome of
        None \<Rightarrow> return (make_cf_error 503 INTERNAL LOCK_UNAVAILABLE_MESSAGE)
      | Some (decision, upstream) \<Rightarrow>
          if \<not> allowed decision then
            bind (lift (image_entry http_method zone_id record_id ''deny'' (pre_image decision) rq)) (\<lambda>entry.
              deny_and_answer E ctx decision entry)
          else
            (case upstream of
               None \<Rightarrow> raise AttributeError
             | Some up \<Rightarrow>
                 bind (lift (response_json up)) (\<lambda>body_json.
                 bind (lift (image_entry http_method zone_id record_id ''allow'' (pre_image decision) rq)) (\<lambda>entry.
                 bind (record_audit E ctx (entry\<lparr>a_post_image := dict_get body_json ''result'',
                         a_upstream_status := Some (p_status up)\<rparr>)) (\<lambda>_.
                   return (json_response (p_status up) body_json))))))"

definition mutate_dns_record_by_id ::
  "env \<Rightarrow> string \<Rightarrow> string \<Rightarrow> string \<Rightarrow> json \<Rightarrow> string option \<Rightarrow> client_request \<Rightarrow> proxy_auth_context \<Rightarrow> (world, response) prog" where
  "mutate_dns_record_by_id E http_method zone_id record_id body body_content rq ctx =
     (let exempt = is_lock_exempt (x_rules ctx) zone_id (Some record_id) (mutation_need http_method) in
      bind (resolve_upstream_auth E (x_credential ctx)) (\<lambda>auth_headers.
      bind (guarded_run E exempt (mutation_lock_name E zone_id record_id)
              (authorize_and_forward E http_method zone_id record_id body body_content ctx auth_headers)) (\<lambda>outcome.
        answer_mutation E http_method zone_id record_id rq ctx outcome)))"

definition get_dns_record :: "env \<Rightarrow> string \<Rightarrow> string \<Rightarrow> client_request \<Rightarrow> proxy_auth_context \<Rightarrow> (world, response) prog" where
  "get_dns_record E zone_id record_id rq ctx =
     bind (resolve_upstream_auth E (x_credential ctx)) (\<lambda>auth_headers.
     bind (authorize_by_record_id E ctx ''GET'' zone_id record_id JNull auth_headers) (\<lambda>decision.
       if \<not> allowed decision then
         bind (lift (image_entry ''GET'' zone_id record_id ''deny'' (pre_image decision) rq)) (\<lambda>entry.
           deny_and_answer E ctx decision entry)
       else return (make_cf_response (pre_image decision) 200 [] None)))"

definition patch_dns_record :: "env \<Rightarrow> string \<Rightarrow> string \<Rightarrow> client_request \<Rightarrow> proxy_auth_context \<Rightarrow> (world, response) prog" where
  "patch_dns_record E zone_id record_id rq ctx =
     bind (lift (request_json rq)) (\<lambda>body.
       mutate_dns_record_by_id E ''PATCH'' zone_id record_id body (Some (cq_body rq)) rq ctx)"

definition put_dns_record :: "env \<Rightarrow> string \<Rightarrow> string \<Rightarrow> client_request \<Rightarrow> proxy_auth_context \<Rightarrow> (world, response) prog" where
  "put_dns_record E zone_id record_id rq ctx =
     bind (lift (request_json rq)) (\<lambda>body.
       mutate_dns_record_by_id E ''PUT'' zone_id record_id body (Some (cq_body rq)) rq ctx)"

definition delete_dns_record :: "env \<Rightarrow> string \<Rightarrow> string \<Rightarrow> client_request \<Rightarrow> proxy_auth_context \<Rightarrow> (world, response) prog" where
  "delete_dns_record E zone_id record_id rq ctx =
     mutate_dns_record_by_id E ''DELETE'' zone_id record_id JNull None rq ctx"

section \<open>Lemmas\<close>

definition fetch_req :: "env \<Rightarrow> string \<Rightarrow> string \<Rightarrow> (string \<times> string) list \<Rightarrow> http_request" where
  "fetch_req E z i auth = upstream_request E ''GET'' (record_path z i) [] [] None auth"

definition mutation_req :: "env \<Rightarrow> string \<Rightarrow> string \<Rightarrow> string \<Rightarrow> string option \<Rightarrow> (string \<times> string) list \<Rightarrow> http_request" where
  "mutation_req E m z i c auth = upstream_request E m (record_path z i) [] [] c auth"

text \<open>The record in an answer to the fetch\<close>

definition record_in :: "http_response res \<Rightarrow> json res" where
  "record_in answer = bind_res answer (\<lambda>response.
     if p_status response = 404 then Inr JNull
     else bind_res (raise_for_status response) (\<lambda>_. bind_res (response_json response) (\<lambda>j. subscript j ''result'')))"

lemma fetch_cf_record_run:
  "fetch_cf_record E z i a w =
     (if w_cf_client w \<or> pinned E
      then (record_in (e_http E (w_trace w) (fetch_req E z i a)),
            w\<lparr>w_cf_client := True, w_trace := w_trace w @ [Sent (fetch_req E z i a)]\<rparr>)
      else (Inl (unpinned (s_upstream_base_url (e_settings E))), w))"
  by (simp add: fetch_cf_record_def fetch_req_def record_in_def bind_app forward_request_run split: sum.splits)

text \<open>
  A by-id operation is in the scope of a set of rules, for the record as it was fetched: the
  record belongs to the zone, a rule grants the operation on its name and type, and for PATCH
  and PUT a rule grants it on the name and type it will have.
\<close>

definition in_scope :: "env \<Rightarrow> rule list \<Rightarrow> string \<Rightarrow> string \<Rightarrow> string \<Rightarrow> json \<Rightarrow> json \<Rightarrow> bool" where
  "in_scope E rules m z i body pre \<longleftrightarrow>
     (\<exists>op pz pn pt. op_of (py_upper m) = Some op
        \<and> get pre ''zone_id'' = Inr pz \<and> (pz = JNull \<or> pz = JStr z)
        \<and> get pre ''name'' = Inr pn \<and> get pre ''type'' = Inr pt
        \<and> (\<exists>r \<in> set rules. grants (e_idna E) r z pn pt (JStr i) op)
        \<and> (rename_method (py_upper m) \<longrightarrow>
             (\<exists>qn qt. merge_patch_image pre (py_or body (JObj [])) = Inr (qn, qt)
                \<and> (\<exists>r \<in> set rules. grants (e_idna E) r z qn qt (JStr i) op))))"

lemma authorize_by_record_id_allowed:
  assumes "authorize_by_record_id E ctx m z i body auth w = (Inr d, t)" and "allowed d" and "py_upper m \<noteq> ''POST''"
  shows "record_in (e_http E (w_trace w) (fetch_req E z i auth)) = Inr (pre_image d)
     \<and> in_scope E (x_rules ctx) m z i body (pre_image d)"
proof -
  from authorize_allowedD [OF assms(1) [unfolded authorize_by_record_id_def] assms(2,3)]
  show ?thesis by (fastforce simp: in_scope_def fetch_cf_record_run split: if_splits)
qed

lemma by_id_methods:
  assumes "m \<in> {''GET'', ''PATCH'', ''PUT'', ''DELETE''}"
  shows "py_upper m = m" and "\<exists>op. op_of (py_upper m) = Some op"
proof -
  have "list_all (\<lambda>m. py_upper m = m) [''GET'', ''PATCH'', ''PUT'', ''DELETE'']" by code_simp
  then show up: "py_upper m = m" using assms by (auto simp: list_all_iff)
  show "\<exists>op. op_of (py_upper m) = Some op" unfolding up using assms by (auto simp: op_of_def mutation_op_def)
qed

text \<open>A by-id authorization sends the fetch and nothing else.\<close>

lemma authorize_by_record_id_trace:
  assumes "authorize_by_record_id E ctx m z i body auth w = (r, t)" and "m \<in> {''GET'', ''PATCH'', ''PUT'', ''DELETE''}"
  shows "w_trace t = w_trace w \<and> (\<exists>e. r = Inl e) \<or> w_trace t = w_trace w @ [Sent (fetch_req E z i auth)]"
proof -
  obtain op where op: "op_of (py_upper m) = Some op" using by_id_methods(2) [OF assms(2)] by blast
  show ?thesis
    using assms(1) unfolding authorize_by_record_id_def authorize_by_id [OF op]
    by (auto simp: bind_app fetch_cf_record_run split: if_splits sum.splits)
qed

text \<open>
  What the guarded part of a mutation adds to the trace: nothing when it failed before the fetch,
  the fetch alone, or the fetch and then the mutation, and the mutation only when the fetched
  record is in scope.
\<close>

definition mutation_core ::
  "env \<Rightarrow> rule list \<Rightarrow> string \<Rightarrow> string \<Rightarrow> string \<Rightarrow> json \<Rightarrow> string option \<Rightarrow> (string \<times> string) list \<Rightarrow> event list \<Rightarrow> event list \<Rightarrow> bool" where
  "mutation_core E rules m z i body c auth before core \<longleftrightarrow>
     core = [] \<or> core = [Sent (fetch_req E z i auth)]
     \<or> (core = [Sent (fetch_req E z i auth), Sent (mutation_req E m z i c auth)]
        \<and> (\<exists>pre. record_in (e_http E before (fetch_req E z i auth)) = Inr pre \<and> in_scope E rules m z i body pre))"

lemma core_mutation:
  assumes "mutation_core E rules m z i body c auth before core" and "m \<noteq> ''GET''"
  shows "Sent (mutation_req E m z i c auth) \<in> set core \<longleftrightarrow> length core = 2"
proof -
  have "fetch_req E z i auth \<noteq> mutation_req E m z i c auth"
    using assms(2) by (metis fetch_req_def mutation_req_def upstream_request_sel(1))
  with assms(1) show ?thesis by (auto simp: mutation_core_def)
qed

lemma authorize_and_forward_trace:
  assumes run: "authorize_and_forward E m z i body c ctx auth w = (r, t)" and m: "m \<in> {''PATCH'', ''PUT'', ''DELETE''}"
  shows "\<exists>core. w_trace t = w_trace w @ core \<and> mutation_core E (x_rules ctx) m z i body c auth (w_trace w) core
     \<and> (\<forall>d up. r = Inr (d, up) \<longrightarrow> (allowed d \<longleftrightarrow> up \<noteq> None) \<and> (allowed d \<longleftrightarrow> length core = 2) \<and> (deny_error d = None \<longleftrightarrow> allowed d)
          \<and> (pre_image d \<noteq> JNull \<longrightarrow> record_in (e_http E (w_trace w) (fetch_req E z i auth)) = Inr (pre_image d)))"
proof -
  obtain ra ta where auth: "authorize_by_record_id E ctx m z i body auth w = (ra, ta)"
    by (cases "authorize_by_record_id E ctx m z i body auth w")
  have m4: "m \<in> {''GET'', ''PATCH'', ''PUT'', ''DELETE''}" using m by simp
  obtain op where op: "op_of (py_upper m) = Some op" using by_id_methods(2) [OF m4] by blast
  note tr = authorize_by_record_id_trace [OF auth m4]
  show ?thesis
  proof (cases ra)
    case (Inl e)
    with run auth have "r = Inl e" "t = ta" by (simp_all add: authorize_and_forward_def bind_app)
    with tr show ?thesis by (auto simp: mutation_core_def)
  next
    case (Inr d)
    then have tr1: "w_trace ta = w_trace w @ [Sent (fetch_req E z i auth)]" using tr by simp
    obtain lock pre where
      dec: "decide_on_image (e_idna E) (x_rules ctx) (py_upper m) op lock z (Some i) body pre = Inr d"
      and pre: "record_in (e_http E (w_trace w) (fetch_req E z i auth)) = Inr pre"
      using auth Inr unfolding authorize_by_record_id_def authorize_by_id [OF op]
      by (auto simp: fetch_cf_record_run elim!: bind_InrE split: if_splits)
    have d: "deny_error d = None \<longleftrightarrow> allowed d" "pre_image d \<noteq> JNull \<Longrightarrow> pre_image d = pre"
      using decide_sel [OF dec] dec by (auto elim!: decide_cases dest: decide_rename_sel split: if_splits)
    show ?thesis
    proof (cases "allowed d")
      case False
      with run auth Inr have "r = Inr (d, None)" "t = ta" by (simp_all add: authorize_and_forward_def bind_app)
      with tr1 False d pre show ?thesis by (auto simp: mutation_core_def)
    next
      case True
      have "py_upper m \<noteq> ''POST''" using m by_id_methods(1) [OF m4] by auto
      from authorize_by_record_id_allowed [OF auth [unfolded Inr] True this]
      have scope: "in_scope E (x_rules ctx) m z i body (pre_image d)"
        and rec: "record_in (e_http E (w_trace w) (fetch_req E z i auth)) = Inr (pre_image d)" by simp_all
      have "w_cf_client ta" using auth Inr unfolding authorize_by_record_id_def authorize_by_id [OF op]
        by (auto simp: fetch_cf_record_run elim!: bind_InrE split: if_splits)
      then have "w_trace t = w_trace w @ [Sent (fetch_req E z i auth), Sent (mutation_req E m z i c auth)]"
        "\<forall>d' up. r = Inr (d', up) \<longrightarrow> d' = d \<and> up \<noteq> None"
        using run auth Inr True tr1
        by (auto simp: authorize_and_forward_def bind_app forward_request_run mutation_req_def split: sum.splits prod.splits)
      with scope rec True d show ?thesis by (auto simp: mutation_core_def)
    qed
  qed
qed

lemma guarded_run_cases:
  assumes "guarded_run E exempt name body w = (r, t)"
  obtains (exempt) rb where "exempt" and "body w = (rb, t)" and "r = (case rb of Inl e \<Rightarrow> Inl e | Inr x \<Rightarrow> Inr (Some x))"
    | (unavailable) "\<not> exempt" and "\<not> e_get_lock E (w_lock_calls w) name" and "r = Inr None"
      and "t = w\<lparr>w_lock_calls := Suc (w_lock_calls w)\<rparr>"
    | (locked) rb tb where "\<not> exempt"
      and "body (w\<lparr>w_lock_calls := Suc (w_lock_calls w), w_trace := w_trace w @ [Locked name]\<rparr>) = (rb, tb)"
      and "t = release_lock name tb"
      and "r = (case rb of Inl e \<Rightarrow> if e = LockUnavailable then Inr None else Inl e | Inr x \<Rightarrow> Inr (Some x))"
proof (cases exempt)
  case True
  obtain rb tb where b: "body w = (rb, tb)" by (cases "body w")
  with True assms that(1) show thesis
    by (cases rb) (simp_all add: guarded_run_def bind_app)
next
  case False
  show thesis
  proof (cases "e_get_lock E (w_lock_calls w) name")
    case True
    let ?w = "w\<lparr>w_lock_calls := Suc (w_lock_calls w), w_trace := w_trace w @ [Locked name]\<rparr>"
    obtain rb tb where b: "body ?w = (rb, tb)" by (cases "body ?w")
    have "advisory_lock E name body w = (rb, release_lock name tb)"
      using True b by (rule advisory_lock_acquired)
    then have "t = release_lock name tb"
      and "r = (case rb of Inl e \<Rightarrow> if e = LockUnavailable then Inr None else Inl e | Inr x \<Rightarrow> Inr (Some x))"
      using assms False by (auto simp: guarded_run_def bind_app catch_app split: sum.splits if_splits)
    then show thesis using locked [OF False b] by blast
  next
    case no: False
    have "advisory_lock E name body w = (Inl LockUnavailable, w\<lparr>w_lock_calls := Suc (w_lock_calls w)\<rparr>)"
      using no by (rule advisory_lock_unavailable)
    then have "r = Inr None" "t = w\<lparr>w_lock_calls := Suc (w_lock_calls w)\<rparr>"
      using assms False by (simp_all add: guarded_run_def bind_app catch_app)
    then show thesis using unavailable [OF False no] by blast
  qed
qed

text \<open>The guarded part of a mutation as a whole, lock events included.\<close>

definition guarded_trace ::
  "env \<Rightarrow> rule list \<Rightarrow> string \<Rightarrow> string \<Rightarrow> string \<Rightarrow> json \<Rightarrow> string option \<Rightarrow> (string \<times> string) list \<Rightarrow> event list \<Rightarrow> event list \<Rightarrow> bool" where
  "guarded_trace E rules m z i body c auth before es \<longleftrightarrow>
     (if is_lock_exempt rules z (Some i) (mutation_need m)
      then mutation_core E rules m z i body c auth before es
      else es = [] \<or> (\<exists>core. es = Locked (mutation_lock_name E z i) # core @ [Unlocked (mutation_lock_name E z i)]
             \<and> mutation_core E rules m z i body c auth (before @ [Locked (mutation_lock_name E z i)]) core))"

lemma guarded_mutation_trace:
  assumes run: "guarded_run E (is_lock_exempt (x_rules ctx) z (Some i) (mutation_need m)) (mutation_lock_name E z i)
      (authorize_and_forward E m z i body c ctx auth) w = (r, t)"
    and m: "m \<in> {''PATCH'', ''PUT'', ''DELETE''}"
  shows "\<exists>es. w_trace t = w_trace w @ es \<and> guarded_trace E (x_rules ctx) m z i body c auth (w_trace w) es
     \<and> (\<forall>d up. r = Inr (Some (d, up)) \<longrightarrow> (allowed d \<longleftrightarrow> up \<noteq> None) \<and> (deny_error d = None \<longleftrightarrow> allowed d)
          \<and> (allowed d \<longleftrightarrow> Sent (mutation_req E m z i c auth) \<in> set es))"
proof -
  have get: "m \<noteq> ''GET''" using m by auto
  from run show ?thesis
  proof (cases rule: guarded_run_cases)
  case (exempt rb)
  obtain core where core: "w_trace t = w_trace w @ core"
    "mutation_core E (x_rules ctx) m z i body c auth (w_trace w) core"
    and res: "\<And>d up. rb = Inr (d, up) \<Longrightarrow> (allowed d \<longleftrightarrow> up \<noteq> None) \<and> (allowed d \<longleftrightarrow> length core = 2) \<and> (deny_error d = None \<longleftrightarrow> allowed d)"
    using authorize_and_forward_trace [OF exempt(2) m] by metis
  show ?thesis
  proof (intro exI conjI allI impI)
    show "w_trace t = w_trace w @ core" by (fact core)
    show "guarded_trace E (x_rules ctx) m z i body c auth (w_trace w) core"
      using core(2) exempt(1) by (simp add: guarded_trace_def)
  next
    fix d up assume "r = Inr (Some (d, up))"
    with exempt(3) have "rb = Inr (d, up)" by (auto split: sum.splits)
    note res = res [OF this]
    show "allowed d \<longleftrightarrow> up \<noteq> None" "deny_error d = None \<longleftrightarrow> allowed d" using res by simp_all
    show "allowed d \<longleftrightarrow> Sent (mutation_req E m z i c auth) \<in> set core" using res core_mutation [OF core(2) get] by auto
  qed
next
  case unavailable
  then show ?thesis by (auto simp: guarded_trace_def)
next
  case (locked rb tb)
  let ?n = "mutation_lock_name E z i"
  define w1 where "w1 = w\<lparr>w_lock_calls := Suc (w_lock_calls w), w_trace := w_trace w @ [Locked ?n]\<rparr>"
  have tr1: "w_trace w1 = w_trace w @ [Locked ?n]" by (simp add: w1_def)
  obtain core where core: "w_trace tb = (w_trace w @ [Locked ?n]) @ core"
    "mutation_core E (x_rules ctx) m z i body c auth (w_trace w @ [Locked ?n]) core"
    and res: "\<And>d up. rb = Inr (d, up) \<Longrightarrow> (allowed d \<longleftrightarrow> up \<noteq> None) \<and> (allowed d \<longleftrightarrow> length core = 2) \<and> (deny_error d = None \<longleftrightarrow> allowed d)"
    using authorize_and_forward_trace [OF locked(2) [folded w1_def] m] unfolding tr1 by metis
  let ?es = "Locked ?n # core @ [Unlocked ?n]"
  show ?thesis
  proof (intro exI conjI allI impI)
    show "w_trace t = w_trace w @ ?es" using core(1) locked(3) by (simp add: release_lock_def)
    show "guarded_trace E (x_rules ctx) m z i body c auth (w_trace w) ?es"
      using core(2) locked(1) by (simp add: guarded_trace_def)
  next
    fix d up assume "r = Inr (Some (d, up))"
    with locked(4) have "rb = Inr (d, up)" by (auto split: sum.splits if_splits)
    note res = res [OF this]
    show "allowed d \<longleftrightarrow> up \<noteq> None" "deny_error d = None \<longleftrightarrow> allowed d" using res by simp_all
    show "allowed d \<longleftrightarrow> Sent (mutation_req E m z i c auth) \<in> set ?es" using res core_mutation [OF core(2) get] by auto
  qed
qed
qed

lemma record_audit_run:
  "\<exists>t. record_audit E ctx entry w = (Inr (), t) \<and> w_trace t = w_trace w"
proof -
  let ?e = "entry\<lparr>a_user_id := Some (t_user_id (x_token ctx)),
                    a_scoped_token_id := Some (t_id (x_token ctx)), a_token_prefix := Some (t_token_prefix (x_token ctx))\<rparr>"
  obtain r t where "write_audit E ?e w = (r, t)" by (cases "write_audit E ?e w")
  moreover have "w_trace t = w_trace w" using write_audit_cases [OF calculation] by (auto simp: Let_def)
  ultimately show ?thesis by (cases r) (simp_all add: record_audit_def bind_app catch_app)
qed

lemma emits_record_audit [emits_intros]: "emits P (record_audit E ctx entry)"
  using record_audit_run [of E ctx entry] by (intro emits_same_trace) (metis snd_conv)

lemma emits_deny_and_answer [emits_intros]: "emits P (deny_and_answer E ctx d entry)"
  unfolding deny_and_answer_def by (intro emits_intros)

lemma emits_answer_mutation [emits_intros]: "emits P (answer_mutation E m z i rq ctx outcome)"
  unfolding answer_mutation_def by (intro emits_intros)

lemma same_trace_answer: "answer_mutation E m z i rq ctx outcome w = (r, t) \<Longrightarrow> w_trace t = w_trace w"
proof -
  assume "answer_mutation E m z i rq ctx outcome w = (r, t)"
  then obtain es where "w_trace t = w_trace w @ es" "\<forall>e \<in> set es. False"
    using emitsD [OF emits_answer_mutation [of "\<lambda>_. False"]] by metis
  then show ?thesis by (cases es) auto
qed

lemma guarded_trace_Nil [simp]: "guarded_trace E rules m z i body c auth before []"
  by (simp add: guarded_trace_def mutation_core_def)

lemma mutate_trace:
  assumes run: "mutate_dns_record_by_id E m z i body c rq ctx w = (r, t)" and m: "m \<in> {''PATCH'', ''PUT'', ''DELETE''}"
  shows "\<exists>auth before es. w_trace t = w_trace w @ before @ es \<and> (\<forall>e \<in> set before. oauth_sent E e)
     \<and> guarded_trace E (x_rules ctx) m z i body c auth (w_trace w @ before) es"
proof -
  let ?ex = "is_lock_exempt (x_rules ctx) z (Some i) (mutation_need m)" and ?n = "mutation_lock_name E z i"
  obtain ra wa where ra: "resolve_upstream_auth E (x_credential ctx) w = (ra, wa)"
    by (cases "resolve_upstream_auth E (x_credential ctx) w")
  have "emits (oauth_sent E) (resolve_upstream_auth E (x_credential ctx))" by (rule emits_resolve_upstream_auth)
  then obtain before where before: "w_trace wa = w_trace w @ before" "\<forall>e \<in> set before. oauth_sent E e"
    using ra by (rule emitsD)
  show ?thesis
  proof (cases ra)
    case (Inl e)
    then have "t = wa" using run ra by (simp add: mutate_dns_record_by_id_def Let_def bind_app)
    then show ?thesis using before by (intro exI [of _ "[]"] exI [of _ before]) simp
  next
    case (Inr auth)
    obtain rg wg where rg: "guarded_run E ?ex ?n (authorize_and_forward E m z i body c ctx auth) wa = (rg, wg)"
      by (cases "guarded_run E ?ex ?n (authorize_and_forward E m z i body c ctx auth) wa")
    have "w_trace t = w_trace wg"
      using run ra Inr rg same_trace_answer
      by (auto simp: mutate_dns_record_by_id_def Let_def bind_app split: sum.splits)
    moreover obtain es where "w_trace wg = w_trace wa @ es" "guarded_trace E (x_rules ctx) m z i body c auth (w_trace wa) es"
      using guarded_mutation_trace [OF rg m] by blast
    ultimately show ?thesis using before by auto
  qed
qed

lemma keeps_frame_authorize_and_forward:
  "upstream_frame P \<Longrightarrow> keeps P (authorize_and_forward E m z i body c ctx auth)"
  unfolding authorize_and_forward_def authorize_by_record_id_def
  by (intro keeps_intros keeps_frame_forward keeps_frame_fetch)

lemma resolve_lock_calls: "resolve_upstream_auth E c w = (r, t) \<Longrightarrow> w_lock_calls t = w_lock_calls w"
  using keepsD [OF keeps_frame_resolve [OF upstream_frame_fields(2)]] by blast

lemma resolve_audit: "resolve_upstream_auth E c w = (r, t) \<Longrightarrow> w_audit t = w_audit w"
  using keepsD [OF keeps_frame_resolve [OF upstream_frame_fields(1)]] by blast

lemma guarded_audit:
  assumes "guarded_run E ex n (authorize_and_forward E m z i body c ctx auth) w = (r, t)"
  shows "w_audit t = w_audit w"
  using assms
proof (cases rule: guarded_run_cases)
  case (exempt rb)
  then show ?thesis using keepsD [OF keeps_frame_authorize_and_forward [OF upstream_frame_fields(1)]] by blast
next
  case unavailable
  then show ?thesis by simp
next
  case (locked rb tb)
  then have "w_audit tb = w_audit w"
    using keepsD [OF keeps_frame_authorize_and_forward [OF upstream_frame_fields(1) [of "w_audit w"]] _ locked(2)] by simp
  with locked show ?thesis by (simp add: release_lock_def)
qed

lemma guarded_run_unavailable:
  "\<not> e_get_lock E (w_lock_calls w) n \<Longrightarrow>
     guarded_run E False n body w = (Inr None, w\<lparr>w_lock_calls := Suc (w_lock_calls w)\<rparr>)"
  by (simp add: guarded_run_def bind_app catch_app advisory_lock_unavailable)

lemma constraints_guarded:
  assumes "guarded_run E ex n (authorize_and_forward E m z i body c ctx auth) w = (r, t)" and "constraints_ok E w"
  shows "constraints_ok E t"
proof -
  have "keeps (constraints_ok E) (guarded_run E ex n (authorize_and_forward E m z i body c ctx auth))"
    unfolding guarded_run_def authorize_and_forward_def authorize_by_record_id_def by (intro keeps_intros)
  with assms show ?thesis by (metis keepsD)
qed

lemma record_audit_ok:
  assumes "constraints_ok E w" and "e_commit_ok E (w_commits w)" and "e_uuid E (w_rand w) \<notin> a_id ` set (w_audit w)"
  shows "\<exists>t row. record_audit E ctx entry w = (Inr (), t) \<and> w_audit t = w_audit w @ [row] \<and> w_trace t = w_trace w
     \<and> row = entry\<lparr>a_user_id := Some (t_user_id (x_token ctx)), a_scoped_token_id := Some (t_id (x_token ctx)),
                 a_token_prefix := Some (t_token_prefix (x_token ctx)), a_id := e_uuid E (w_rand w), a_ts := utcnow w\<rparr>"
proof -
  let ?e = "entry\<lparr>a_user_id := Some (t_user_id (x_token ctx)),
      a_scoped_token_id := Some (t_id (x_token ctx)), a_token_prefix := Some (t_token_prefix (x_token ctx))\<rparr>"
  obtain t where t: "write_audit E ?e w = (Inr (?e\<lparr>a_id := e_uuid E (w_rand w), a_ts := utcnow w\<rparr>), t)"
    "w_audit t = w_audit w @ [?e\<lparr>a_id := e_uuid E (w_rand w), a_ts := utcnow w\<rparr>]"
    using write_audit_ok [OF assms, of ?e] by blast
  moreover obtain t' where "record_audit E ctx entry w = (Inr (), t')" "w_trace t' = w_trace w"
    using record_audit_run by blast
  ultimately show ?thesis by (auto simp: record_audit_def bind_app catch_app)
qed

text \<open>An audit entry of a by-id operation\<close>

lemma image_entry_sel:
  "image_entry m z i dec pre rq = Inr entry \<Longrightarrow>
     a_method entry = m \<and> a_zone_id entry = Some z \<and> a_record_id entry = Some i \<and> a_decision entry = dec
     \<and> a_pre_image entry = pre \<and> a_path entry = record_path z i"
  by (auto simp: image_entry_def bind_res_Inr_iff audit_entry_def)

lemma answer_mutation_audit:
  assumes run: "answer_mutation E m z i rq ctx (Some (d, up)) w = (Inr resp, t)"
    and ok: "constraints_ok E w" "\<forall>n. e_commit_ok E n" "\<forall>n. e_uuid E n \<notin> a_id ` set (w_audit w)"
  shows "\<exists>row. w_audit t = w_audit w @ [row] \<and> a_scoped_token_id row = Some (t_id (x_token ctx))
     \<and> a_user_id row = Some (t_user_id (x_token ctx)) \<and> a_method row = m \<and> a_record_id row = Some i
     \<and> a_pre_image row = pre_image d \<and> a_decision row = (if allowed d then ''allow'' else ''deny'')"
proof -
  note audit = record_audit_ok [OF ok(1) ok(2) [rule_format] ok(3) [rule_format]]
  show ?thesis
  proof (cases "allowed d")
    case True
    with run obtain u where up: "up = Some u" by (cases up) (simp_all add: answer_mutation_def)
    with True run obtain bj entry where "image_entry m z i ''allow'' (pre_image d) rq = Inr entry"
      and "record_audit E ctx (entry\<lparr>a_post_image := dict_get bj ''result'', a_upstream_status := Some (p_status u)\<rparr>) w = (Inr (), t)"
      by (fastforce simp: answer_mutation_def bind_Inr_iff)
    with True show ?thesis
      using audit [of ctx "entry\<lparr>a_post_image := dict_get bj ''result'', a_upstream_status := Some (p_status u)\<rparr>"]
      by (auto dest!: image_entry_sel)
  next
    case False
    then obtain s code msg entry where "image_entry m z i ''deny'' (pre_image d) rq = Inr entry"
      and "record_audit E ctx (entry\<lparr>a_deny_reason := Some (deny_reason_of code msg)\<rparr>) w = (Inr (), t)"
      using run by (auto simp: answer_mutation_def deny_and_answer_def bind_Inr_iff split: option.splits)
    with False show ?thesis
      using audit [of ctx "entry\<lparr>a_deny_reason := Some (deny_reason_of code msg)\<rparr>"]
      by (auto dest!: image_entry_sel)
  qed
qed

lemma paged_response_content:
  "\<exists>items info. content (paged_response xs page per_page)
     = JObj [(''success'', JBool True), (''errors'', JArr []), (''messages'', JArr []), (''result'', JArr items), (''result_info'', info)]
     \<and> set items \<subseteq> set xs"
  using paginate.page_subset [of xs page per_page]
  by (auto simp: paged_response_def make_cf_response_def split: prod.splits)

lemma zones_in_scope_filter:
  "zones_in_scope rules zs = Inr out \<Longrightarrow>
     out = filter (\<lambda>z. \<exists>r \<in> set rules. get z ''id'' = Inr (JStr (rule_zone_id r))) zs"
proof (induction zs arbitrary: out)
  case (Cons z zs)
  then obtain ok rest where "zone_in_scope rules z = Inr ok" "zones_in_scope rules zs = Inr rest"
    "out = (if ok then z # rest else rest)" by (auto simp: bind_res_Inr_iff)
  moreover obtain i where i: "get z ''id'' = Inr i" using calculation(1) by (auto simp: zone_in_scope_def bind_res_Inr_iff)
  then have "ok \<longleftrightarrow> (\<exists>r \<in> set rules. get z ''id'' = Inr (JStr (rule_zone_id r)))"
    using calculation(1) by (cases i) (auto simp: zone_in_scope_def list_ex_iff)
  ultimately show ?case using Cons.IH by auto
qed simp

section \<open>Properties\<close>

text \<open>
  C7: nothing is changed at Cloudflare out of scope, and never outside the lock. Whatever a by-id
  mutation does, what it adds to the trace is: refresh grants at the OAuth issuer; then, unless
  the token is exempt, the record's lock is taken, then the record is fetched, then at most one
  mutation is sent, and the lock is released; and the mutation is sent only when the record as it
  was fetched in that very run, under the lock, is in the token's scope, before and after the
  change.
\<close>

theorem mutation_only_in_scope_under_lock:
  assumes "mutate_dns_record_by_id E m z i body c rq ctx w = (r, t)" and "m \<in> {''PATCH'', ''PUT'', ''DELETE''}"
  shows "\<exists>auth before es. w_trace t = w_trace w @ before @ es \<and> (\<forall>e \<in> set before. oauth_sent E e)
     \<and> guarded_trace E (x_rules ctx) m z i body c auth (w_trace w @ before) es"
  using assms by (rule mutate_trace)

text \<open>
  C24: without the lock the mutation fails closed: when the token is not exempt and the lock cannot
  be had, the answer is the 503 envelope, no request is sent after the credential was resolved,
  and no audit row is written.
\<close>

theorem lock_unavailable_fails_closed:
  assumes "\<not> is_lock_exempt (x_rules ctx) z (Some i) (mutation_need m)"
    and "\<not> e_get_lock E (w_lock_calls w) (mutation_lock_name E z i)"
    and "resolve_upstream_auth E (x_credential ctx) w = (Inr auth, wa)"
  shows "\<exists>t. mutate_dns_record_by_id E m z i body c rq ctx w = (Inr (make_cf_error 503 INTERNAL LOCK_UNAVAILABLE_MESSAGE), t)
     \<and> w_trace t = w_trace wa \<and> w_audit t = w_audit wa"
proof -
  have l: "\<not> e_get_lock E (w_lock_calls wa) (mutation_lock_name E z i)"
    using assms(2) resolve_lock_calls [OF assms(3)] by simp
  show ?thesis
    using assms(1,3) by (simp add: mutate_dns_record_by_id_def Let_def bind_app guarded_run_unavailable [OF l] answer_mutation_def)
qed


text \<open>
  C14: every decided mutation leaves its audit row: when the handler answers anything but the lock
  error and the database takes the row, exactly one row was appended, for this token, its owner,
  the method, the record and the fetched image; it says \<^verbatim>\<open>allow\<close> exactly when the mutation was
  sent to Cloudflare.
\<close>

theorem mutation_audited:
  assumes run: "mutate_dns_record_by_id E m z i body c rq ctx w = (Inr resp, t)" and m: "m \<in> {''PATCH'', ''PUT'', ''DELETE''}"
    and nolock: "resp \<noteq> make_cf_error 503 INTERNAL LOCK_UNAVAILABLE_MESSAGE"
    and ok: "constraints_ok E w" "\<forall>n. e_commit_ok E n" "\<forall>n. e_uuid E n \<notin> a_id ` set (w_audit w)"
  shows "\<exists>row auth before es. w_audit t = w_audit w @ [row] \<and> a_scoped_token_id row = Some (t_id (x_token ctx))
     \<and> a_user_id row = Some (t_user_id (x_token ctx)) \<and> a_method row = m \<and> a_record_id row = Some i
     \<and> w_trace t = w_trace w @ before @ es \<and> (\<forall>e \<in> set before. oauth_sent E e)
     \<and> guarded_trace E (x_rules ctx) m z i body c auth (w_trace w @ before) es
     \<and> a_decision row = (if Sent (mutation_req E m z i c auth) \<in> set es then ''allow'' else ''deny'')"
proof -
  let ?ex = "is_lock_exempt (x_rules ctx) z (Some i) (mutation_need m)" and ?n = "mutation_lock_name E z i"
  obtain auth wa outcome wg where ra: "resolve_upstream_auth E (x_credential ctx) w = (Inr auth, wa)"
    and rg: "guarded_run E ?ex ?n (authorize_and_forward E m z i body c ctx auth) wa = (Inr outcome, wg)"
    and ans: "answer_mutation E m z i rq ctx outcome wg = (Inr resp, t)"
    using run by (auto simp: mutate_dns_record_by_id_def Let_def elim!: bind_InrE)
  obtain before where before: "w_trace wa = w_trace w @ before" "\<forall>e \<in> set before. oauth_sent E e"
    using emitsD [OF emits_resolve_upstream_auth [of E "oauth_sent E"] ra] by blast
  obtain d up where out: "outcome = Some (d, up)"
    using ans nolock by (cases outcome) (auto simp: answer_mutation_def)
  obtain es where es: "w_trace wg = w_trace wa @ es" "guarded_trace E (x_rules ctx) m z i body c auth (w_trace wa) es"
    "allowed d \<longleftrightarrow> Sent (mutation_req E m z i c auth) \<in> set es"
    using guarded_mutation_trace [OF rg [unfolded out] m] by blast
  have audit: "w_audit wg = w_audit w" using guarded_audit [OF rg] resolve_audit [OF ra] by simp
  have "constraints_ok E wa" using keepsD [OF keeps_constraints_resolve ok(1) ra] .
  then have "constraints_ok E wg" by (rule constraints_guarded [OF rg])
  from answer_mutation_audit [OF ans [unfolded out] this ok(2)] ok(3) audit es(3)
  obtain row where "w_audit t = w_audit w @ [row]" "a_scoped_token_id row = Some (t_id (x_token ctx))"
    "a_user_id row = Some (t_user_id (x_token ctx))" "a_method row = m" "a_record_id row = Some i"
    "a_decision row = (if Sent (mutation_req E m z i c auth) \<in> set es then ''allow'' else ''deny'')"
    by auto
  moreover have "w_trace t = w_trace w @ before @ es"
    using same_trace_answer [OF ans] es(1) before(1) by simp
  ultimately show ?thesis using before es by auto
qed

text \<open>
  An answer that is not JSON escapes the audit: when Cloudflare performs the mutation but answers
  with a body that does not parse, the handler raises and no audit row records the mutation.
\<close>

theorem unparsable_answer_not_audited:
  assumes "resolve_upstream_auth E (x_credential ctx) w = (Inr auth, wa)"
    and "guarded_run E (is_lock_exempt (x_rules ctx) z (Some i) (mutation_need m)) (mutation_lock_name E z i)
           (authorize_and_forward E m z i body c ctx auth) wa = (Inr (Some (d, Some up)), wg)"
    and "m \<in> {''PATCH'', ''PUT'', ''DELETE''}" and "p_json up = None"
  shows "mutate_dns_record_by_id E m z i body c rq ctx w = (Inl JSONDecodeError, wg)
     \<and> Sent (mutation_req E m z i c auth) \<in> set (w_trace wg) \<and> w_audit wg = w_audit w"
proof -
  obtain es where es: "w_trace wg = w_trace wa @ es" "allowed d \<longleftrightarrow> Some up \<noteq> None"
    "allowed d \<longleftrightarrow> Sent (mutation_req E m z i c auth) \<in> set es"
    using guarded_mutation_trace [OF assms(2,3)] by blast
  have "mutate_dns_record_by_id E m z i body c rq ctx w = (Inl JSONDecodeError, wg)"
    using assms es(2) by (simp add: mutate_dns_record_by_id_def Let_def bind_app answer_mutation_def response_json_def)
  with es guarded_audit [OF assms(2)] resolve_audit [OF assms(1)] show ?thesis by auto
qed

text \<open>
  C23: a listing shows only records the token may read: every record in the answer is granted for
  reading by a rule of the token for that zone, and a token without a rule for the zone gets an
  empty list without anything being asked of Cloudflare.
\<close>

theorem listing_shows_only_readable:
  assumes "list_dns_records fuel E z rq ctx w = (Inr resp, t)"
  shows "\<exists>items info. content resp
     = JObj [(''success'', JBool True), (''errors'', JArr []), (''messages'', JArr []), (''result'', JArr items), (''result_info'', info)]
     \<and> (\<forall>x \<in> set items. readable (e_idna E) (x_rules ctx) z x)
     \<and> ((\<forall>r \<in> set (x_rules ctx). rule_zone_id r \<noteq> z) \<longrightarrow> items = [] \<and> t = w)"
proof -
  obtain page per_page remaining where pop: "pop_pagination (cq_query rq) = Inr (page, per_page, remaining)"
    using assms by (cases "pop_pagination (cq_query rq)") (auto simp: list_dns_records_def bind_app)
  show ?thesis
  proof (cases "list_ex (\<lambda>r. rule_zone_id r = z) (x_rules ctx)")
    case False
    then show ?thesis using assms pop by (auto simp: list_dns_records_def bind_app make_cf_response_def)
  next
    case True
    then obtain records out where "filter_records (e_idna E) records (x_rules ctx) z = Inr out" "resp = paged_response out page per_page"
      using assms pop by (auto simp: list_dns_records_def bind_Inr_iff)
    moreover from this(1) have "\<forall>x \<in> set out. readable (e_idna E) (x_rules ctx) z x"
      by (auto dest: filter_records_filter)
    moreover have "\<not> (\<forall>r \<in> set (x_rules ctx). rule_zone_id r \<noteq> z)" using True by (auto simp: list_ex_iff)
    ultimately show ?thesis using paged_response_content [of out page per_page] by blast
  qed
qed

text \<open>
  The zone listing shows only zones that a rule of the token names.
\<close>

theorem zones_only_in_scope:
  assumes "list_zones fuel E rq ctx w = (Inr resp, t)"
  shows "\<exists>items info. content resp
     = JObj [(''success'', JBool True), (''errors'', JArr []), (''messages'', JArr []), (''result'', JArr items), (''result_info'', info)]
     \<and> (\<forall>x \<in> set items. \<exists>r \<in> set (x_rules ctx). get x ''id'' = Inr (JStr (rule_zone_id r)))"
proof -
  obtain zs out page per_page where "zones_in_scope (x_rules ctx) zs = Inr out" "resp = paged_response out page per_page"
    using assms by (auto simp: list_zones_def bind_Inr_iff)
  moreover from this(1) have "\<forall>x \<in> set out. \<exists>r \<in> set (x_rules ctx). get x ''id'' = Inr (JStr (rule_zone_id r))"
    by (auto dest: zones_in_scope_filter)
  ultimately show ?thesis using paged_response_content [of out page per_page] by blast
qed

text \<open>
  Reading one record: the answer of \<open>get_dns_record\<close> is either the fetched record, which a rule
  of the token grants for reading, or exactly the envelope of a record that does not exist.
\<close>

theorem get_record_in_scope_or_missing:
  assumes "get_dns_record E z i rq ctx w = (Inr resp, t)"
  shows "(\<exists>auth tr pre. record_in (e_http E tr (fetch_req E z i auth)) = Inr pre \<and> in_scope E (x_rules ctx) ''GET'' z i JNull pre
            \<and> resp = make_cf_response pre 200 [] None)
       \<or> resp = make_cf_error 404 81044 ''Record does not exist.''"
proof -
  have up: "py_upper ''GET'' = ''GET''" by (rule by_id_methods) simp
  obtain auth wa d wd where au: "authorize_by_record_id E ctx ''GET'' z i JNull auth wa = (Inr d, wd)"
    and rest: "(if \<not> allowed d then bind (lift (image_entry ''GET'' z i ''deny'' (pre_image d) rq)) (\<lambda>entry. deny_and_answer E ctx d entry)
        else return (make_cf_response (pre_image d) 200 [] None)) wd = (Inr resp, t)"
    using assms by (auto simp: get_dns_record_def elim!: bind_InrE)
  show ?thesis
  proof (cases "allowed d")
    case True
    with rest authorize_by_record_id_allowed [OF au] up show ?thesis by auto
  next
    case False
    obtain lock pre where dec: "decide_on_image (e_idna E) (x_rules ctx) ''GET'' Read lock z (Some i) JNull pre = Inr d"
      using au unfolding authorize_by_record_id_def
      by (subst (asm) authorize_by_id [of _ Read]) (auto simp: up op_of_def elim!: bind_InrE)
    have "deny_error d = Some record_missing"
      using dec False by (cases rule: decide_cases) (simp_all add: rename_method_def)
    then show ?thesis
      using rest False by (auto simp: deny_and_answer_def record_missing_def RECORD_NOT_FOUND_def bind_Inr_iff)
  qed
qed

section \<open>Witnesses\<close>

definition demo_context :: proxy_auth_context where
  "demo_context = \<lparr>x_token = demo_token, x_rules = [rule.truncate demo_rule], x_credential = demo_credential\<rparr>"

definition demo_request :: client_request where
  "demo_request = \<lparr>cq_query = [], cq_json = Some (JObj [(''content'', JStr ''1.2.3.4'')]), cq_body = ''{}'',
     cq_client = Some ''10.0.0.1'', cq_authorization = Some (''Bearer '' @ demo_full)\<rparr>"

definition demo_body :: json where
  "demo_body = JObj [(''content'', JStr ''1.2.3.4'')]"

theorem mutation_only_in_scope_under_lock_witness:
  "length (w_trace (snd (mutate_dns_record_by_id demo_env ''PATCH'' ''z1'' ''rec1'' demo_body None demo_request demo_context demo_world))) = 4
   \<and> (\<exists>auth before es. w_trace (snd (mutate_dns_record_by_id demo_env ''PATCH'' ''z1'' ''rec1'' demo_body None demo_request demo_context demo_world))
        = w_trace demo_world @ before @ es \<and> (\<forall>e \<in> set before. oauth_sent demo_env e)
      \<and> guarded_trace demo_env (x_rules demo_context) ''PATCH'' ''z1'' ''rec1'' demo_body None auth (w_trace demo_world @ before) es)"
proof
  show "length (w_trace (snd (mutate_dns_record_by_id demo_env ''PATCH'' ''z1'' ''rec1'' demo_body None demo_request demo_context demo_world))) = 4"
    by code_simp
  obtain r t where run: "mutate_dns_record_by_id demo_env ''PATCH'' ''z1'' ''rec1'' demo_body None demo_request demo_context demo_world = (r, t)"
    by (cases "mutate_dns_record_by_id demo_env ''PATCH'' ''z1'' ''rec1'' demo_body None demo_request demo_context demo_world")
  from mutation_only_in_scope_under_lock [OF run] show "\<exists>auth before es.
      w_trace (snd (mutate_dns_record_by_id demo_env ''PATCH'' ''z1'' ''rec1'' demo_body None demo_request demo_context demo_world))
        = w_trace demo_world @ before @ es \<and> (\<forall>e \<in> set before. oauth_sent demo_env e)
      \<and> guarded_trace demo_env (x_rules demo_context) ''PATCH'' ''z1'' ''rec1'' demo_body None auth (w_trace demo_world @ before) es"
    unfolding run by simp
qed

definition busy_env :: env where
  "busy_env = demo_env\<lparr>e_get_lock := (\<lambda>_ _. False)\<rparr>"

theorem lock_unavailable_fails_closed_witness:
  "\<exists>t. mutate_dns_record_by_id busy_env ''PATCH'' ''z1'' ''rec1'' demo_body None demo_request demo_context demo_world
       = (Inr (make_cf_error 503 INTERNAL LOCK_UNAVAILABLE_MESSAGE), t) \<and> w_trace t = [] \<and> w_audit t = []"
proof -
  have ex: "\<not> is_lock_exempt (x_rules demo_context) ''z1'' (Some ''rec1'') (mutation_need ''PATCH'')" by code_simp
  have l: "\<not> e_get_lock busy_env (w_lock_calls demo_world) (mutation_lock_name busy_env ''z1'' ''rec1'')"
    by (simp add: busy_env_def)
  have a: "resolve_upstream_auth busy_env (x_credential demo_context) demo_world
      = (Inr [(''Authorization'', ''Bearer cf-token'')], demo_world)"
    unfolding demo_context_def by (simp add: demo_auth busy_env_def)
  from lock_unavailable_fails_closed [OF ex l a, of demo_body None demo_request] show ?thesis
    by (simp add: demo_world_def)
qed

theorem mutation_audited_witness:
  "\<exists>row. w_audit (snd (mutate_dns_record_by_id demo_env ''PATCH'' ''z1'' ''rec1'' demo_body None demo_request demo_context demo_world)) = [row]
     \<and> a_record_id row = Some ''rec1'' \<and> a_scoped_token_id row = Some ''tok1''"
proof -
  let ?run = "mutate_dns_record_by_id demo_env ''PATCH'' ''z1'' ''rec1'' demo_body None demo_request demo_context demo_world"
  have "case fst ?run of Inl _ \<Rightarrow> False | Inr resp \<Rightarrow> status_code resp = 200" by code_simp
  then obtain resp t where run: "?run = (Inr resp, t)" and st: "status_code resp = 200"
    by (cases ?run) (auto split: sum.splits)
  have m: "''PATCH'' \<in> {''PATCH'', ''PUT'', ''DELETE''}" by simp
  have n: "resp \<noteq> make_cf_error 503 INTERNAL LOCK_UNAVAILABLE_MESSAGE" using st by auto
  have c: "constraints_ok demo_env demo_world"
    by (simp add: constraints_ok_def users_ok_def credentials_ok_def tokens_ok_def rules_ok_def foreign_keys_ok_def unique_opt_def
        demo_world_def demo_user_def demo_credential_def demo_token_def demo_rule_def)
  have k: "\<forall>n. e_commit_ok demo_env n" by (simp add: demo_env_def)
  have u: "\<forall>n. e_uuid demo_env n \<notin> a_id ` set (w_audit demo_world)" by (simp add: demo_world_def)
  from mutation_audited [OF run m n c k u] run show ?thesis by (auto simp: demo_world_def demo_context_def demo_token_def)
qed

definition html_env :: env where
  "html_env = demo_env\<lparr>e_http := (\<lambda>tr q. if q_method q = ''GET'' then demo_http tr q else Inr \<lparr>p_status = 502, p_json = None\<rparr>)\<rparr>"

theorem unparsable_answer_not_audited_witness:
  "\<exists>wg auth. mutate_dns_record_by_id html_env ''DELETE'' ''z1'' ''rec1'' JNull None demo_request
       (demo_context\<lparr>x_rules := [(rule.truncate demo_rule)\<lparr>rule_allow_delete := True\<rparr>]\<rparr>) demo_world = (Inl JSONDecodeError, wg)
     \<and> Sent (mutation_req html_env ''DELETE'' ''z1'' ''rec1'' None auth) \<in> set (w_trace wg) \<and> w_audit wg = []"
proof -
  let ?c = "demo_context\<lparr>x_rules := [(rule.truncate demo_rule)\<lparr>rule_allow_delete := True\<rparr>]\<rparr>"
  let ?a = "[(''Authorization'', ''Bearer cf-token'')]"
  let ?run = "guarded_run html_env (is_lock_exempt (x_rules ?c) ''z1'' (Some ''rec1'') (mutation_need ''DELETE''))
      (mutation_lock_name html_env ''z1'' ''rec1'') (authorize_and_forward html_env ''DELETE'' ''z1'' ''rec1'' JNull None ?c ?a) demo_world"
  have a: "resolve_upstream_auth html_env (x_credential ?c) demo_world = (Inr ?a, demo_world)"
    unfolding demo_context_def by (simp add: demo_auth html_env_def)
  have "case fst ?run of Inr (Some (d, Some up)) \<Rightarrow> p_json up = None | _ \<Rightarrow> False" by code_simp
  then obtain d up wg where g: "?run = (Inr (Some (d, Some up)), wg)" and up: "p_json up = None"
    by (cases ?run) (auto split: sum.splits option.splits prod.splits)
  have m: "''DELETE'' \<in> {''PATCH'', ''PUT'', ''DELETE''}" by simp
  from unparsable_answer_not_audited [OF a g m up, of demo_request] show ?thesis
    by (auto simp: demo_world_def)
qed

definition list_env :: env where
  "list_env = demo_env\<lparr>e_http := (\<lambda>tr q. Inr \<lparr>p_status = 200, p_json = Some (JObj [(''success'', JBool True),
     (''result'', JArr (if q_path q = ''/client/v4/zones'' then [JObj [(''id'', JStr ''z1'')], JObj [(''id'', JStr ''z2'')]]
                      else [demo_record, mail_record]))])\<rparr>)\<rparr>"

theorem listing_shows_only_readable_witness:
  "\<exists>resp t items info. list_dns_records 1 list_env ''z1'' demo_request demo_context demo_world = (Inr resp, t)
     \<and> content resp = JObj [(''success'', JBool True), (''errors'', JArr []), (''messages'', JArr []), (''result'', JArr items), (''result_info'', info)]
     \<and> (\<forall>x \<in> set items. readable (e_idna list_env) (x_rules demo_context) ''z1'' x)"
proof -
  let ?run = "list_dns_records 1 list_env ''z1'' demo_request demo_context demo_world"
  have "case fst ?run of Inl _ \<Rightarrow> False | Inr _ \<Rightarrow> True" by code_simp
  then obtain resp t where run: "?run = (Inr resp, t)" by (cases ?run) (auto split: sum.splits)
  from listing_shows_only_readable [OF run] run show ?thesis by blast
qed

theorem zones_only_in_scope_witness:
  "\<exists>resp t items info. list_zones 1 list_env demo_request demo_context demo_world = (Inr resp, t)
     \<and> content resp = JObj [(''success'', JBool True), (''errors'', JArr []), (''messages'', JArr []), (''result'', JArr items), (''result_info'', info)]
     \<and> (\<forall>x \<in> set items. \<exists>r \<in> set (x_rules demo_context). get x ''id'' = Inr (JStr (rule_zone_id r)))"
proof -
  let ?run = "list_zones 1 list_env demo_request demo_context demo_world"
  have "case fst ?run of Inl _ \<Rightarrow> False | Inr _ \<Rightarrow> True" by code_simp
  then obtain resp t where run: "?run = (Inr resp, t)" by (cases ?run) (auto split: sum.splits)
  from zones_only_in_scope [OF run] run show ?thesis by blast
qed

theorem get_record_in_scope_or_missing_witness:
  "\<exists>auth tr pre. record_in (e_http demo_env tr (fetch_req demo_env ''z1'' ''rec1'' auth)) = Inr pre
     \<and> in_scope demo_env (x_rules demo_context) ''GET'' ''z1'' ''rec1'' JNull pre
     \<and> fst (get_dns_record demo_env ''z1'' ''rec1'' demo_request demo_context demo_world) = Inr (make_cf_response pre 200 [] None)"
proof -
  let ?run = "get_dns_record demo_env ''z1'' ''rec1'' demo_request demo_context demo_world"
  have "case fst ?run of Inl _ \<Rightarrow> False | Inr resp \<Rightarrow> status_code resp = 200" by code_simp
  then obtain resp t where run: "?run = (Inr resp, t)" and st: "status_code resp = 200"
    by (cases ?run) (auto split: sum.splits)
  have "resp \<noteq> make_cf_error 404 81044 ''Record does not exist.''" using st by auto
  with get_record_in_scope_or_missing [OF run] run show ?thesis by auto
qed

end
