(* ===== verification/Encoding.thy ===== *)
theory Encoding
  imports Crypto
begin

text \<open>
  The parts of Python's \<^verbatim>\<open>base64\<close>, \<^verbatim>\<open>hashlib\<close>, \<^verbatim>\<open>secrets\<close> and \<^verbatim>\<open>urllib.parse\<close> that the
  OAuth login uses: bytes from hexadecimal digests, unpadded URL-safe base64, random URL-safe
  strings, and \<^verbatim>\<open>urlencode\<close>, with a decoder and the round trips.
\<close>

section \<open>Bytes\<close>

definition hex_val :: "char \<Rightarrow> nat" where
  "hex_val c = (let n = of_char c :: nat in
     if 48 \<le> n \<and> n \<le> 57 then n - 48 else if 97 \<le> n \<and> n \<le> 102 then n - 87
     else if 65 \<le> n \<and> n \<le> 70 then n - 55 else 0)"

text \<open>\<^verbatim>\<open>bytes.fromhex\<close>, which relates \<^verbatim>\<open>digest()\<close> to \<^verbatim>\<open>hexdigest()\<close>\<close>

fun unhex :: "string \<Rightarrow> nat list" where
  "unhex (a # b # cs) = (16 * hex_val a + hex_val b) # unhex cs"
| "unhex _ = []"

definition sha256_digest :: "env \<Rightarrow> string \<Rightarrow> nat list" where
  "sha256_digest E s = unhex (e_sha256 E s)"

section \<open>URL-safe base64 without padding\<close>

definition b64_alphabet :: string where
  "b64_alphabet = ''ABCDEFGHIJKLMNOPQRSTUVWXYZabcdefghijklmnopqrstuvwxyz0123456789-_''"

definition b64_char :: "nat \<Rightarrow> char" where
  "b64_char n = b64_alphabet ! (n mod 64)"

text \<open>\<^verbatim>\<open>base64.urlsafe_b64encode(bs).rstrip(b"=").decode()\<close>\<close>

fun b64url :: "nat list \<Rightarrow> string" where
  "b64url [] = []"
| "b64url [a] = [b64_char (a div 4), b64_char (a mod 4 * 16)]"
| "b64url [a, b] = [b64_char (a div 4), b64_char (a mod 4 * 16 + b div 16), b64_char (b mod 16 * 4)]"
| "b64url (a # b # c # bs) = b64_char (a div 4) # b64_char (a mod 4 * 16 + b div 16)
     # b64_char (b mod 16 * 4 + c div 64) # b64_char (c mod 64) # b64url bs"

text \<open>\<^verbatim>\<open>secrets.token_bytes(n)\<close> and \<^verbatim>\<open>secrets.token_urlsafe(n)\<close>\<close>

fun token_bytes :: "env \<Rightarrow> nat \<Rightarrow> (world, nat list) prog" where
  "token_bytes E 0 = return []"
| "token_bytes E (Suc n) =
     bind (secrets_choice E [0..<256]) (\<lambda>b. bind (token_bytes E n) (\<lambda>bs. return (b # bs)))"

definition token_urlsafe :: "env \<Rightarrow> nat \<Rightarrow> (world, string) prog" where
  "token_urlsafe E n = bind (token_bytes E n) (\<lambda>bs. return (b64url bs))"

section \<open>Query strings\<close>

text \<open>UTF-8 of a character up to U+00FF\<close>

definition utf8 :: "char \<Rightarrow> nat list" where
  "utf8 c = (let n = of_char c :: nat in if n < 128 then [n] else [192 + n div 64, 128 + n mod 64])"

definition unreserved :: "nat \<Rightarrow> bool" where
  "unreserved n \<longleftrightarrow> (48 \<le> n \<and> n \<le> 57) \<or> (65 \<le> n \<and> n \<le> 90) \<or> (97 \<le> n \<and> n \<le> 122) \<or> n \<in> {45, 46, 95, 126}"

definition upper_hex :: "nat \<Rightarrow> char" where
  "upper_hex n = (if n < 10 then digit_char n else char_of (55 + n))"

definition quote_byte :: "nat \<Rightarrow> string" where
  "quote_byte n = (if unreserved n then [char_of n] else if n = 32 then ''+''
     else [CHR ''%'', upper_hex (n div 16), upper_hex (n mod 16)])"

definition quote_plus :: "string \<Rightarrow> string" where
  "quote_plus s = concat (map quote_byte (concat (map utf8 s)))"

definition urlencode :: "(string \<times> string) list \<Rightarrow> string" where
  "urlencode params = py_join CHR ''&'' (map (\<lambda>(k, v). quote_plus k @ CHR ''='' # quote_plus v) params)"

text \<open>The reading end of the query string\<close>

fun unquote_plus :: "string \<Rightarrow> nat list" where
  "unquote_plus [] = []"
| "unquote_plus (c # cs) =
     (if c = CHR ''+'' then 32 # unquote_plus cs
      else if c = CHR ''%'' then
        (case cs of a # b # ds \<Rightarrow> (16 * hex_val a + hex_val b) # unquote_plus ds | _ \<Rightarrow> [])
      else of_char c # unquote_plus cs)"

fun utf8_decode :: "nat list \<Rightarrow> string" where
  "utf8_decode [] = []"
| "utf8_decode (n # ns) =
     (if n < 128 then char_of n # utf8_decode ns
      else (case ns of m # ms \<Rightarrow> char_of ((n - 192) * 64 + (m - 128)) # utf8_decode ms | [] \<Rightarrow> []))"

definition decode_pair :: "string \<Rightarrow> string \<times> string" where
  "decode_pair s = (case py_partition CHR ''='' s of (k, v) \<Rightarrow> (utf8_decode (unquote_plus k), utf8_decode (unquote_plus v)))"

definition parse_qsl :: "string \<Rightarrow> (string \<times> string) list" where
  "parse_qsl s = map decode_pair (py_split CHR ''&'' s)"

section \<open>Lemmas\<close>

lemma hex_val_upper_hex: "k < 16 \<Longrightarrow> hex_val (upper_hex k) = k"
  by (auto simp: hex_val_def upper_hex_def digit_char_def Let_def)

lemma char_of_eqD: "char_of n = c \<Longrightarrow> n < 256 \<Longrightarrow> n = (of_char c :: nat)"
  by auto

lemma upper_hex_plain: "k < 16 \<Longrightarrow> upper_hex k \<noteq> CHR ''&'' \<and> upper_hex k \<noteq> CHR ''=''"
  by (auto simp: upper_hex_def digit_char_def dest!: char_of_eqD)

lemma unreserved_plain:
  assumes "unreserved n"
  shows "char_of n \<noteq> CHR ''+'' \<and> char_of n \<noteq> CHR ''%'' \<and> char_of n \<noteq> CHR ''&'' \<and> char_of n \<noteq> CHR ''='' \<and> n < 256"
proof -
  have n: "n < 256" "n \<notin> {43, 37, 38, 61}" using assms by (auto simp: unreserved_def)
  then show ?thesis by (auto dest!: char_of_eqD)
qed

lemma unquote_quote_byte: "n < 256 \<Longrightarrow> unquote_plus (quote_byte n @ cs) = n # unquote_plus cs"
  using unreserved_plain [of n] by (simp add: quote_byte_def hex_val_upper_hex)

lemma quote_byte_plain: "n < 256 \<Longrightarrow> c \<in> set (quote_byte n) \<Longrightarrow> c \<noteq> CHR ''&'' \<and> c \<noteq> CHR ''=''"
proof -
  assume n: "n < 256" and c: "c \<in> set (quote_byte n)"
  from n have "n div 16 < 16" "n mod 16 < 16" by auto
  with c show "c \<noteq> CHR ''&'' \<and> c \<noteq> CHR ''=''" using unreserved_plain [of n] upper_hex_plain [of "n div 16"] upper_hex_plain [of "n mod 16"]
    by (auto simp: quote_byte_def split: if_splits)
qed

lemma utf8_bound: "n \<in> set (utf8 c) \<Longrightarrow> n < 256"
proof -
  have "(of_char c :: nat) < 256" by simp
  then have "of_char c div 64 < (64 :: nat)" by (intro less_mult_imp_div_less) linarith
  then show "n \<in> set (utf8 c) \<Longrightarrow> n < 256" by (auto simp: utf8_def Let_def split: if_splits)
qed

lemma utf8_decode_utf8: "utf8_decode (utf8 c @ ns) = c # utf8_decode ns"
proof (cases "(of_char c :: nat) < 128")
  case True
  then show ?thesis by (simp add: utf8_def)
next
  case False
  have "(of_char c :: nat) div 64 * 64 + of_char c mod 64 = of_char c" by (rule div_mult_mod_eq)
  with False show ?thesis by (simp add: utf8_def Let_def)
qed

lemma utf8_decode_concat: "utf8_decode (concat (map utf8 s)) = s"
  by (induction s) (simp_all add: utf8_decode_utf8)

lemma unquote_quote_bytes: "\<forall>n \<in> set ns. n < 256 \<Longrightarrow> unquote_plus (concat (map quote_byte ns)) = ns"
  by (induction ns) (simp_all add: unquote_quote_byte)

lemma unquote_quote_plus: "utf8_decode (unquote_plus (quote_plus s)) = s"
  using utf8_bound by (simp add: quote_plus_def unquote_quote_bytes utf8_decode_concat)

lemma quote_plus_plain: "c \<in> set (quote_plus s) \<Longrightarrow> c \<noteq> CHR ''&'' \<and> c \<noteq> CHR ''=''"
proof -
  assume "c \<in> set (quote_plus s)"
  then obtain d n where "n \<in> set (utf8 d)" "c \<in> set (quote_byte n)" by (auto simp: quote_plus_def)
  then show "c \<noteq> CHR ''&'' \<and> c \<noteq> CHR ''=''" using quote_byte_plain utf8_bound by blast
qed

lemma decode_pair_encoded: "decode_pair (quote_plus k @ CHR ''='' # quote_plus v) = (k, v)"
proof -
  have "CHR ''='' \<notin> set (quote_plus k)" using quote_plus_plain by blast
  then have "py_partition CHR ''='' (quote_plus k @ CHR ''='' # quote_plus v) = (quote_plus k, quote_plus v)"
    by (auto simp: py_partition_def takeWhile_append dropWhile_append)
  then show ?thesis by (simp add: decode_pair_def unquote_quote_plus)
qed

text \<open>Any list of parameters survives the query string, whatever characters its values have.\<close>

lemma parse_urlencode:
  assumes "params \<noteq> []"
  shows "parse_qsl (urlencode params) = params"
proof -
  let ?enc = "\<lambda>(k, v). quote_plus k @ CHR ''='' # quote_plus v"
  have "\<forall>s \<in> set (map ?enc params). CHR ''&'' \<notin> set s" using quote_plus_plain by fastforce
  then have "py_split CHR ''&'' (urlencode params) = map ?enc params"
    using assms unfolding urlencode_def by (intro py_split_join) simp_all
  then show ?thesis by (simp add: parse_qsl_def o_def case_prod_unfold decode_pair_encoded)
qed

end
