(* ===== verification/OAuth.thy ===== *)
theory OAuth
  imports Upstream Encoding
begin

text \<open>
  \<^verbatim>\<open>auth/oauth_cf.py\<close>, \<^verbatim>\<open>services/oauth_service.py\<close> and the JWT and password helpers of
  \<^verbatim>\<open>core/security.py\<close>: the Cloudflare login by authorization code with PKCE. What PyJWT and
  argon2 compute is a parameter (\<open>libs\<close>); the secrets they use (\<^verbatim>\<open>jwt_secret\<close>) are part of it.
\<close>

section \<open>The libraries\<close>

record libs =
  l_unverified_header :: "json \<Rightarrow> json res"
  l_from_jwk :: "json \<Rightarrow> string res"
  l_decode_id_token :: "json \<Rightarrow> string \<Rightarrow> string \<Rightarrow> string \<Rightarrow> int \<Rightarrow> int \<Rightarrow> json res"
  l_jwt_encode :: "json \<Rightarrow> string"
  l_jwt_decode :: "int \<Rightarrow> string \<Rightarrow> json res"
  l_argon2_hash :: "nat \<Rightarrow> string \<Rightarrow> string"
  l_argon2_verify :: "string \<Rightarrow> string \<Rightarrow> unit res"

section \<open>Passwords and session tokens\<close>

definition hash_password :: "libs \<Rightarrow> string \<Rightarrow> (world, string) prog" where
  "hash_password L pw = (\<lambda>w. (Inr (l_argon2_hash L (w_rand w) pw), w\<lparr>w_rand := Suc (w_rand w)\<rparr>))"

definition verify_password :: "libs \<Rightarrow> string \<Rightarrow> string \<Rightarrow> bool res" where
  "verify_password L pw h =
     (case l_argon2_verify L h pw of
        Inr _ \<Rightarrow> Inr True
      | Inl e \<Rightarrow> if e = VerifyMismatchError then Inr False else Inl e)"

text \<open>PyJWT turns the two time stamps into numbers of seconds.\<close>

definition create_jwt :: "env \<Rightarrow> libs \<Rightarrow> string \<Rightarrow> (world, string) prog" where
  "create_jwt E L sub = gets (\<lambda>w. l_jwt_encode L (JObj [(''sub'', JStr sub), (''iat'', JNum (w_now w)),
     (''exp'', JNum (w_now w + s_jwt_ttl_seconds (e_settings E)))]))"

definition decode_jwt :: "libs \<Rightarrow> world \<Rightarrow> string \<Rightarrow> json res" where
  "decode_jwt L w tok = l_jwt_decode L (w_now w) tok"

section \<open>Talking to the issuer\<close>

definition ALLOWED_ALGS :: "json list" where "ALLOWED_ALGS = [JStr ''RS256'']"

definition JWKS_CACHE_TTL_SECONDS :: int where "JWKS_CACHE_TTL_SECONDS = 3600"

definition make_pkce :: "env \<Rightarrow> (world, string \<times> string) prog" where
  "make_pkce E = bind (token_urlsafe E 64) (\<lambda>verifier. return (verifier, b64url (sha256_digest E verifier)))"

definition authorize_params :: "env \<Rightarrow> string \<Rightarrow> string \<Rightarrow> string \<Rightarrow> (string \<times> string) list" where
  "authorize_params E state nonce code_challenge =
     (let settings = e_settings E;
          base = s_cf_oauth_base_scopes settings;
          scopes = (if s_cf_oauth_dns_scope settings \<noteq> [] then base @ '' '' @ s_cf_oauth_dns_scope settings else base)
      in [(''response_type'', ''code''), (''client_id'', s_cf_oauth_client_id settings),
          (''redirect_uri'', s_cf_oauth_redirect_uri settings), (''scope'', scopes), (''state'', state), (''nonce'', nonce),
          (''code_challenge'', code_challenge), (''code_challenge_method'', ''S256'')])"

definition build_authorize_url :: "env \<Rightarrow> string \<Rightarrow> string \<Rightarrow> string \<Rightarrow> string" where
  "build_authorize_url E state nonce code_challenge =
     s_cf_oauth_issuer (e_settings E) @ ''/oauth2/auth?'' @ urlencode (authorize_params E state nonce code_challenge)"

text \<open>A request to \<^verbatim>\<open>host\<close> outside the pinned client, its status checked and its body parsed\<close>

definition call_json :: "env \<Rightarrow> http_request \<Rightarrow> (world, json) prog" where
  "call_json E q = bind (send_http E q) (\<lambda>response.
     bind (lift (raise_for_status response)) (\<lambda>_. lift (response_json response)))"

definition issuer_request ::
  "env \<Rightarrow> string \<Rightarrow> string \<Rightarrow> (string \<times> string) list \<Rightarrow> (string \<times> json) list \<Rightarrow> http_request" where
  "issuer_request E http_method path headers data =
     \<lparr>q_method = http_method, q_host = s_cf_oauth_issuer (e_settings E), q_path = path, q_headers = headers,
      q_params = data, q_content = None\<rparr>"

definition exchange_request :: "env \<Rightarrow> string \<Rightarrow> json \<Rightarrow> http_request" where
  "exchange_request E code code_verifier = issuer_request E ''POST'' ''/oauth2/token'' []
     [(''grant_type'', JStr ''authorization_code''), (''code'', JStr code),
      (''redirect_uri'', JStr (s_cf_oauth_redirect_uri (e_settings E))),
      (''client_id'', JStr (s_cf_oauth_client_id (e_settings E))),
      (''client_secret'', JStr (s_cf_oauth_client_secret (e_settings E))), (''code_verifier'', code_verifier)]"

definition exchange_code :: "env \<Rightarrow> string \<Rightarrow> json \<Rightarrow> (world, json) prog" where
  "exchange_code E code code_verifier = call_json E (exchange_request E code code_verifier)"

definition fetch_userinfo :: "env \<Rightarrow> string \<Rightarrow> (world, json) prog" where
  "fetch_userinfo E access_token =
     call_json E (issuer_request E ''GET'' ''/oauth2/userinfo'' [(''Authorization'', ''Bearer '' @ access_token)] [])"

text \<open>
  The module's JWKS cache is the document and the time it was fetched; \<^verbatim>\<open>time.monotonic()\<close> is read
  off the same clock as the time of day, of which the code uses differences only.
\<close>

definition fetch_jwks :: "env \<Rightarrow> (world, json) prog" where
  "fetch_jwks E = (\<lambda>w.
     let now = w_now w; (cached, fetched_at) = w_jwks w
     in if cached \<noteq> JNull \<and> now - fetched_at < JWKS_CACHE_TTL_SECONDS then (Inr cached, w)
        else bind (call_json E (issuer_request E ''GET'' ''/.well-known/jwks.json'' [] [])) (\<lambda>jwks.
               bind (modify (\<lambda>t. t\<lparr>w_jwks := (jwks, now)\<rparr>)) (\<lambda>_. return jwks)) w)"

definition clear_jwks_cache :: "(world, unit) prog" where
  "clear_jwks_cache = modify (\<lambda>w. w\<lparr>w_jwks := (JNull, 0)\<rparr>)"

text \<open>\<^verbatim>\<open>[k for k in keys if kid is None or k.get("kid") == kid]\<close>\<close>

fun matching_keys :: "json \<Rightarrow> json list \<Rightarrow> json list res" where
  "matching_keys kid [] = Inr []"
| "matching_keys kid (k # ks) =
     bind_res (if kid = JNull then Inr True else bind_res (get k ''kid'') (\<lambda>v. Inr (py_eq v kid))) (\<lambda>matches.
     bind_res (matching_keys kid ks) (\<lambda>rest. Inr (if matches then k # rest else rest)))"

definition jwks_matches :: "json \<Rightarrow> json \<Rightarrow> json list res" where
  "jwks_matches kid jwks =
     bind_res (get_default jwks ''keys'' (JArr [])) (\<lambda>keys. bind_res (json_iter keys) (matching_keys kid))"

definition resolve_signing_key :: "env \<Rightarrow> libs \<Rightarrow> json \<Rightarrow> (world, string) prog" where
  "resolve_signing_key E L kid =
     bind (fetch_jwks E) (\<lambda>jwks.
     bind (lift (jwks_matches kid jwks)) (\<lambda>matches.
     bind (if matches = [] then
             bind clear_jwks_cache (\<lambda>_. bind (fetch_jwks E) (\<lambda>fresh. lift (jwks_matches kid fresh)))
           else return matches) (\<lambda>found.
       case found of [] \<Rightarrow> raise PyJWTError | k # _ \<Rightarrow> lift (l_from_jwk L k))))"

section \<open>The id token\<close>

definition compute_oidc_hash :: "env \<Rightarrow> string \<Rightarrow> json \<Rightarrow> string res" where
  "compute_oidc_hash E s alg =
     (if alg \<noteq> JStr ''RS256'' then Inl PyJWTError
      else if \<not> is_ascii s then Inl UnicodeError
      else let digest = sha256_digest E s in Inr (b64url (take (length digest div 2) digest)))"

text \<open>\<^verbatim>\<open>hmac.compare_digest\<close> on two strings, which must be ASCII\<close>

definition compare_digest :: "string \<Rightarrow> string \<Rightarrow> bool res" where
  "compare_digest a b = (if is_ascii a \<and> is_ascii b then Inr (a = b) else Inl TypeError)"

text \<open>One turn of the loop over \<^verbatim>\<open>at_hash\<close> and \<^verbatim>\<open>c_hash\<close>; \<open>source\<close> is \<open>JNull\<close> when it was not given.\<close>

definition check_hash_claim :: "env \<Rightarrow> json \<Rightarrow> json \<Rightarrow> string \<Rightarrow> json \<Rightarrow> unit res" where
  "check_hash_claim E claims alg hash_claim source =
     bind_res (get claims hash_claim) (\<lambda>claim_value.
       if claim_value = JNull then Inr ()
       else (case claim_value of
          JStr s \<Rightarrow>
            if s = [] then Inl PyJWTError
            else if source = JNull then Inl PyJWTError
            else bind_res (as_str source) (\<lambda>src.
                 bind_res (compute_oidc_hash E src alg) (\<lambda>expected.
                 bind_res (compare_digest expected s) (\<lambda>same. if same then Inr () else Inl PyJWTError)))
        | _ \<Rightarrow> Inl PyJWTError))"

definition validate_id_token :: "env \<Rightarrow> libs \<Rightarrow> json \<Rightarrow> json \<Rightarrow> json \<Rightarrow> json \<Rightarrow> (world, json) prog" where
  "validate_id_token E L id_token nonce access_token code =
     bind (lift (l_unverified_header L id_token)) (\<lambda>header.
     bind (lift (get header ''alg'')) (\<lambda>alg.
       if alg \<notin> set ALLOWED_ALGS then raise PyJWTError
       else
         bind (lift (get header ''kid'')) (\<lambda>kid.
         bind (resolve_signing_key E L kid) (\<lambda>signing_key.
         bind (gets w_now) (\<lambda>now.
         bind (lift (l_decode_id_token L id_token signing_key (s_cf_oauth_client_id (e_settings E))
                 (s_cf_oauth_issuer (e_settings E)) (s_access_token_skew (e_settings E)) now)) (\<lambda>claims.
         bind (lift (get claims ''nonce'')) (\<lambda>claimed.
           if \<not> py_eq claimed nonce then raise PyJWTError
           else
             bind (lift (check_hash_claim E claims alg ''at_hash'' access_token)) (\<lambda>_.
             bind (lift (check_hash_claim E claims alg ''c_hash'' code)) (\<lambda>_.
               return claims)))))))))"

text \<open>The names of the scopes that Cloudflare offers (\<open>show\<close> is Python's \<^verbatim>\<open>str\<close> on a JSON value)\<close>

definition scope_name :: "(json \<Rightarrow> string) \<Rightarrow> json \<Rightarrow> string" where
  "scope_name show item =
     (case item of
        JStr s \<Rightarrow> s
      | JObj kvs \<Rightarrow>
          show (py_or (case map_of kvs ''scope'' of None \<Rightarrow> JNull | Some v \<Rightarrow> v)
                 (py_or (case map_of kvs ''name'' of None \<Rightarrow> JNull | Some v \<Rightarrow> v) item))
      | _ \<Rightarrow> show item)"

definition discover_dns_scope :: "(json \<Rightarrow> string) \<Rightarrow> env \<Rightarrow> (world, string list) prog" where
  "discover_dns_scope show E =
     bind (call_json E \<lparr>q_method = ''GET'', q_host = s_upstream_base_url (e_settings E), q_path = ''/client/v4/oauth/scopes'',
             q_headers = [], q_params = [], q_content = None\<rparr>) (\<lambda>body.
     bind (lift (if is_dict body then get_default body ''result'' (JArr []) else Inr body)) (\<lambda>result.
     bind (lift (json_iter result)) (\<lambda>items. return (map (scope_name show) items))))"

section \<open>The login\<close>

definition OAUTH_CREDENTIAL_LABEL :: string where "OAUTH_CREDENTIAL_LABEL = ''cloudflare-oauth''"

definition start_cf_oauth_login :: "env \<Rightarrow> (world, string) prog" where
  "start_cf_oauth_login E =
     bind (make_pkce E) (\<lambda>(verifier, challenge).
     bind (token_urlsafe E 32) (\<lambda>state.
     bind (token_urlsafe E 16) (\<lambda>nonce.
     bind (cache_set_json E (oauth_state_key state) (JObj [(''verifier'', JStr verifier), (''nonce'', JStr nonce)])
             (s_oauth_state_ttl (e_settings E))) (\<lambda>_.
       return (build_authorize_url E state nonce challenge)))))"

definition consume_oauth_state :: "env \<Rightarrow> string \<Rightarrow> (world, json) prog" where
  "consume_oauth_state E state =
     bind (catch (redis_getdel E (oauth_state_key state)) (\<lambda>_. return None)) (\<lambda>raw.
       case raw of
         None \<Rightarrow> return JNull
       | Some (Raw_json v) \<Rightarrow> return v
       | Some Raw_garbage \<Rightarrow> raise JSONDecodeError)"

text \<open>A flush: the pending change is sent to the database, which checks the constraints; nothing is committed.\<close>

definition flush_db :: "env \<Rightarrow> (world \<Rightarrow> world) \<Rightarrow> (world, unit) prog" where
  "flush_db E f = (\<lambda>w. if constraints_ok E (f w) then (Inr (), w) else (Inl IntegrityError, w))"

text \<open>An optional claim or field that goes into a string column\<close>

fun opt_str :: "json \<Rightarrow> string option res" where
  "opt_str JNull = Inr None"
| "opt_str (JStr s) = Inr (Some s)"
| "opt_str _ = Inl TypeError"

text \<open>
  The user of a subject: found by \<^verbatim>\<open>cf_sub\<close> or new, and the change to the users table. The flush
  of a new row is explicit in the code; the one of a changed row is the session's autoflush before
  the next query.
\<close>

definition upsert_user :: "env \<Rightarrow> string \<Rightarrow> string option \<Rightarrow> (world, user \<times> (world \<Rightarrow> world)) prog" where
  "upsert_user E cf_sub email =
     bind (gets utcnow) (\<lambda>now.
     bind (gets (\<lambda>w. find (\<lambda>u. u_cf_sub u = Some cf_sub) (w_users w))) (\<lambda>row.
     bind (case row of
             None \<Rightarrow> bind (new_uuid E) (\<lambda>i.
               let u = \<lparr>u_id = i, u_email = email, u_password_hash = None, u_auth_provider = ''cloudflare_oauth'',
                        u_cf_sub = Some cf_sub, u_is_active = True, u_created_at = now, u_updated_at = now\<rparr>
               in return (u, \<lambda>w. w\<lparr>w_users := w_users w @ [u]\<rparr>))
           | Some u0 \<Rightarrow>
               let u = (case email of
                          None \<Rightarrow> u0 | Some m \<Rightarrow> if m = [] then u0 else u0\<lparr>u_email := Some m, u_updated_at := now\<rparr>)
               in return (u, \<lambda>w. w\<lparr>w_users := map (\<lambda>v. if u_id v = u_id u0 then u else v) (w_users w)\<rparr>)) (\<lambda>(u, f).
     bind (flush_db E f) (\<lambda>_. return (u, f)))))"

definition encrypt_token :: "env \<Rightarrow> json \<Rightarrow> (world, string option) prog" where
  "encrypt_token E tok =
     (if \<not> truthy tok then return None
      else bind (lift (as_str tok)) (\<lambda>s. bind (encrypt_secret E s) (\<lambda>c. return (Some c))))"

text \<open>\<^verbatim>\<open>access_token_enc\<close> and \<^verbatim>\<open>refresh_token_enc\<close> are kept when the answer has no such token.\<close>

definition delegated :: "string option \<Rightarrow> string option \<Rightarrow> datetime option \<Rightarrow> credential \<Rightarrow> credential" where
  "delegated access refresh expires c =
     c\<lparr>c_access_token_enc := (case access of None \<Rightarrow> c_access_token_enc c | Some x \<Rightarrow> Some x),
       c_refresh_token_enc := (case refresh of None \<Rightarrow> c_refresh_token_enc c | Some x \<Rightarrow> Some x),
       c_token_expires_at := expires\<rparr>"

definition oauth_row :: "string \<Rightarrow> string \<Rightarrow> string option \<Rightarrow> datetime \<Rightarrow> credential" where
  "oauth_row i user_id scope now =
     \<lparr>c_id = i, c_user_id = user_id, c_label = OAUTH_CREDENTIAL_LABEL, c_cred_type = ''oauth'', c_secret_enc = None,
      c_access_token_enc = None, c_refresh_token_enc = None, c_token_expires_at = None, c_oauth_scopes = scope,
      c_key_version = 1, c_cred_version = 1, c_cf_account_email = None, c_verify_status = None, c_verified_at = None,
      c_created_at = now\<rparr>"

definition is_oauth_row :: "string \<Rightarrow> credential \<Rightarrow> bool" where
  "is_oauth_row user_id c \<longleftrightarrow> c_user_id c = user_id \<and> c_label c = OAUTH_CREDENTIAL_LABEL"

text \<open>The change to the credentials table, for the row that was found and for a new one\<close>

definition store_delegated ::
  "string option \<Rightarrow> string option \<Rightarrow> string option \<Rightarrow> datetime option \<Rightarrow> credential option \<Rightarrow> credential \<Rightarrow> world \<Rightarrow> world" where
  "store_delegated scope access refresh expires found fresh w =
     (case found of
        None \<Rightarrow> w\<lparr>w_credentials := w_credentials w @ [delegated access refresh expires fresh]\<rparr>
      | Some c0 \<Rightarrow> w\<lparr>w_credentials := map (\<lambda>c. if c_id c = c_id c0
          then delegated access refresh expires (c\<lparr>c_oauth_scopes := (if scope = None \<or> scope = Some [] then c_oauth_scopes c else scope),
                 c_cred_version := c_cred_version c + 1\<rparr>)
          else c) (w_credentials w)\<rparr>)"

definition link_credential ::
  "env \<Rightarrow> json \<Rightarrow> user \<Rightarrow> (world \<Rightarrow> world) \<Rightarrow> (world, unit) prog" where
  "link_credential E tokens u change_users =
     bind (gets utcnow) (\<lambda>now.
     bind (gets (\<lambda>w. find (is_oauth_row (u_id u)) (w_credentials w))) (\<lambda>found.
     bind (lift (get tokens ''access_token'')) (\<lambda>access_token.
     bind (lift (get tokens ''refresh_token'')) (\<lambda>refresh_token.
     bind (lift (get tokens ''expires_in'')) (\<lambda>expires_in.
     bind (lift (if expires_in = JNull then Inr None else bind_res (as_seconds expires_in) (\<lambda>n. Inr (Some (dt_plus now n))))) (\<lambda>expires.
     bind (lift (bind_res (get tokens ''scope'') opt_str)) (\<lambda>scope.
     bind (encrypt_token E access_token) (\<lambda>access.
     bind (encrypt_token E refresh_token) (\<lambda>refresh.
     bind (case found of None \<Rightarrow> new_uuid E | Some c \<Rightarrow> return (c_id c)) (\<lambda>i.
       commit_db E (store_delegated scope access refresh expires found (oauth_row i (u_id u) scope now) \<circ> change_users)))))))))))"

text \<open>The callback after its login state has been consumed: \<open>stored\<close> is what the state held.\<close>

definition complete_cf_oauth_login :: "env \<Rightarrow> libs \<Rightarrow> string \<Rightarrow> json \<Rightarrow> (world, user \<times> string) prog" where
  "complete_cf_oauth_login E L code stored =
     bind (lift (subscript stored ''verifier'')) (\<lambda>verifier.
     bind (exchange_code E code verifier) (\<lambda>tokens.
     bind (lift (get tokens ''id_token'')) (\<lambda>id_token.
       if \<not> truthy id_token then raise (ValueError ''token response is missing id_token'')
       else
         bind (lift (subscript stored ''nonce'')) (\<lambda>nonce.
         bind (lift (get tokens ''access_token'')) (\<lambda>access_token.
         bind (validate_id_token E L id_token nonce access_token (JStr code)) (\<lambda>claims.
         bind (lift (bind_res (subscript claims ''sub'') as_str)) (\<lambda>cf_sub.
         bind (lift (bind_res (get claims ''email'') opt_str)) (\<lambda>email.
         bind (upsert_user E cf_sub email) (\<lambda>(u, change_users).
         bind (link_credential E tokens u change_users) (\<lambda>_.
         bind (create_jwt E L (u_id u)) (\<lambda>jwt.
           return (u, jwt))))))))))))"

definition handle_cf_oauth_callback :: "env \<Rightarrow> libs \<Rightarrow> string \<Rightarrow> string \<Rightarrow> (world, user \<times> string) prog" where
  "handle_cf_oauth_callback E L code state =
     bind (consume_oauth_state E state) (\<lambda>stored.
       if stored = JNull then raise (ValueError ''invalid or expired oauth state'')
       else complete_cf_oauth_login E L code stored)"

section \<open>Lemmas\<close>

subsection \<open>Effects\<close>

lemma consume_oauth_state_run:
  "consume_oauth_state E state w =
     (if e_redis_up E (w_redis_calls w)
      then (case live_entry w (oauth_state_key state) of
              None \<Rightarrow> Inr JNull | Some (Raw_json v) \<Rightarrow> Inr v | Some Raw_garbage \<Rightarrow> Inl JSONDecodeError,
            w\<lparr>w_redis_calls := Suc (w_redis_calls w), w_redis := (w_redis w)(oauth_state_key state := None)\<rparr>)
      else (Inr JNull, w\<lparr>w_redis_calls := Suc (w_redis_calls w)\<rparr>))"
  by (auto simp: consume_oauth_state_def redis_getdel_def redis_call_def bind_app catch_app Let_def
      split: option.splits redis_raw.splits)

text \<open>What none of the remaining steps of the callback touches: the Redis store and the login states in it.\<close>

definition redis_frame :: "(string \<Rightarrow> (redis_raw \<times> int option) option) \<times> nat \<times> int \<Rightarrow> world \<Rightarrow> bool" where
  "redis_frame f w \<longleftrightarrow> (w_redis w, w_redis_calls w, w_now w) = f"

lemma keeps_frame_send [keeps_intros]: "keeps (redis_frame f) (send_http E q)"
  by (rule keepsI) (simp add: send_http_run redis_frame_def)

lemma keeps_frame_tape [keeps_intros]:
  "keeps (redis_frame f) (new_uuid E)" "keeps (redis_frame f) (encrypt_secret E p)" "keeps (redis_frame f) (flush_db E g)"
  by (rule keepsI, simp add: new_uuid_def encrypt_secret_def flush_db_def redis_frame_def)+

lemma keeps_frame_commit:
  "(\<And>w. redis_frame f w \<Longrightarrow> redis_frame f (g w)) \<Longrightarrow> keeps (redis_frame f) (commit_db E g)"
  by (rule keepsI) (auto simp: commit_db_def Let_def redis_frame_def)

text \<open>Validating an id token touches the trace and the JWKS cache only.\<close>

lemma keeps_validate_id_token:
  assumes tr: "\<And>w tr. P w \<Longrightarrow> P (w\<lparr>w_trace := tr\<rparr>)" and jwks: "\<And>w j. P w \<Longrightarrow> P (w\<lparr>w_jwks := j\<rparr>)"
  shows "keeps P (validate_id_token E L i n a c)"
proof -
  have "keeps P (send_http E q)" for q by (rule keepsI) (simp add: send_http_run tr)
  then have call: "keeps P (call_json E q)" for q unfolding call_json_def by (intro keeps_intros)
  have upd: "keeps P (modify (\<lambda>t. t\<lparr>w_jwks := j\<rparr>))" for j by (rule keepsI) (simp add: jwks)
  have "keeps P (bind (call_json E q) (\<lambda>j. bind (modify (\<lambda>t. t\<lparr>w_jwks := (j, n)\<rparr>)) (\<lambda>_. return j)))" for q n
    by (intro keeps_intros call upd)
  then have fetch: "keeps P (fetch_jwks E)" by (simp add: keeps_def fetch_jwks_def Let_def split: prod.splits)
  have clear: "keeps P clear_jwks_cache" unfolding clear_jwks_cache_def by (rule upd)
  have list: "keeps P m \<Longrightarrow> (\<And>k ks. keeps P (g k ks)) \<Longrightarrow> keeps P (case xs of [] \<Rightarrow> m | k # ks \<Rightarrow> g k ks)"
    for m :: "(world, string) prog" and g and xs :: "json list" by (cases xs) simp_all
  have "keeps P (resolve_signing_key E L kid)" for kid
    unfolding resolve_signing_key_def by (intro keeps_intros list fetch clear)
  then show ?thesis unfolding validate_id_token_def by (intro keeps_intros)
qed

lemma keeps_frame_id_token [keeps_intros]: "keeps (redis_frame f) (validate_id_token E L i n a c)"
  by (rule keeps_validate_id_token) (simp_all add: redis_frame_def)

lemma keeps_frame_exchange [keeps_intros]: "keeps (redis_frame f) (exchange_code E code v)"
  unfolding exchange_code_def call_json_def by (intro keeps_intros)

lemma upsert_user_change:
  assumes "upsert_user E sub email w = (Inr (u, g), t)"
  shows "g v = v\<lparr>w_users := w_users (g v)\<rparr>"
  using assms by (auto simp: upsert_user_def bind_app Let_def flush_db_def new_uuid_def split: option.splits prod.splits sum.splits if_splits)

lemma keeps_frame_upsert [keeps_intros]: "keeps (redis_frame f) (upsert_user E sub email)"
  unfolding upsert_user_def Let_def by (intro keeps_intros)

lemma keeps_frame_encrypt [keeps_intros]: "keeps (redis_frame f) (encrypt_token E tok)"
  unfolding encrypt_token_def by (intro keeps_intros)

lemma store_delegated_frame:
  "store_delegated s a r e found fresh w = w\<lparr>w_credentials := w_credentials (store_delegated s a r e found fresh w)\<rparr>"
  by (cases found) (simp_all add: store_delegated_def)

lemma keeps_frame_link:
  assumes "\<And>v. g v = v\<lparr>w_users := w_users (g v)\<rparr>"
  shows "keeps (redis_frame f) (link_credential E tokens u g)"
proof -
  have c: "redis_frame f w \<Longrightarrow> redis_frame f ((store_delegated s a r e found fresh \<circ> g) w)" for s a r e found fresh w
  proof -
    have "w_redis (g w) = w_redis w" "w_redis_calls (g w) = w_redis_calls w" "w_now (g w) = w_now w"
      by (subst assms, simp)+
    then show "redis_frame f w \<Longrightarrow> redis_frame f ((store_delegated s a r e found fresh \<circ> g) w)"
      by (cases found) (simp_all add: redis_frame_def store_delegated_def)
  qed
  show ?thesis unfolding link_credential_def by (intro keeps_intros keeps_frame_commit c)
qed


lemma keeps_bind_result:
  assumes "keeps P m" and "\<And>x w t. m w = (Inr x, t) \<Longrightarrow> keeps P (f x)"
  shows "keeps P (bind m f)"
proof (rule keepsI)
  fix w assume P: "P w"
  obtain r t where m: "m w = (r, t)" by (cases "m w")
  have "P t" using assms(1) P m by (rule keepsD)
  then show "P (snd (bind m f w))"
    using assms(2) [of w _ t] m by (cases r) (auto simp: bind_app keeps_def)
qed

lemma keeps_frame_complete [keeps_intros]: "keeps (redis_frame f) (complete_cf_oauth_login E L code stored)"
proof -
  have "keeps (redis_frame f) (case p of (u, g) \<Rightarrow> bind (link_credential E tokens u g) (\<lambda>_. bind (create_jwt E L (u_id u)) (\<lambda>jwt. return (u, jwt))))"
    if "upsert_user E sub email w = (Inr p, t)" for p sub email w t tokens
  proof -
    obtain u g where p: "p = (u, g)" by (cases p)
    have "keeps (redis_frame f) (link_credential E tokens u g)"
      using upsert_user_change [OF that [unfolded p]] by (rule keeps_frame_link)
    then show ?thesis unfolding p prod.case create_jwt_def by (intro keeps_intros)
  qed
  then have upsert: "keeps (redis_frame f) (bind (upsert_user E sub email) (\<lambda>(u, g).
      bind (link_credential E tokens u g) (\<lambda>_. bind (create_jwt E L (u_id u)) (\<lambda>jwt. return (u, jwt)))))" for sub email tokens
    by (rule keeps_bind_result [OF keeps_frame_upsert])
  show ?thesis unfolding complete_cf_oauth_login_def by (rule upsert | rule keeps_intros)+
qed

subsection \<open>The id token\<close>

definition jwks_request :: "env \<Rightarrow> http_request" where
  "jwks_request E = issuer_request E ''GET'' ''/.well-known/jwks.json'' [] []"

lemma fetch_jwks_cases:
  assumes "fetch_jwks E w = (r, t)"
  shows "(r = Inr (fst (w_jwks w)) \<and> t = w)
     \<or> (\<exists>e. r = Inl e \<and> t = w\<lparr>w_trace := w_trace w @ [Sent (jwks_request E)]\<rparr>)
     \<or> (\<exists>j. r = Inr j \<and> t = w\<lparr>w_trace := w_trace w @ [Sent (jwks_request E)], w_jwks := (j, w_now w)\<rparr>)"
  using assms by (auto simp: fetch_jwks_def call_json_def bind_app send_http_run jwks_request_def Let_def
      split: prod.splits sum.splits if_splits)

text \<open>A signing key of a token header: made from a key of the issuer's document with the header's id\<close>

definition issuer_key :: "libs \<Rightarrow> json \<Rightarrow> json \<Rightarrow> string \<Rightarrow> bool" where
  "issuer_key L jwks kid key \<longleftrightarrow> (\<exists>keys ks jwk. get_default jwks ''keys'' (JArr []) = Inr keys \<and> json_iter keys = Inr ks
     \<and> jwk \<in> set ks \<and> (kid = JNull \<or> (\<exists>v. get jwk ''kid'' = Inr v \<and> py_eq v kid)) \<and> l_from_jwk L jwk = Inr key)"

lemma matching_keys_sound:
  assumes "matching_keys kid ks = Inr ms" and "k \<in> set ms"
  shows "k \<in> set ks \<and> (kid = JNull \<or> (\<exists>v. get k ''kid'' = Inr v \<and> py_eq v kid))"
  using assms by (induction ks arbitrary: ms) (auto simp: bind_res_Inr_iff split: if_splits)

lemma jwks_matches_key:
  assumes "jwks_matches kid jwks = Inr (k # ms)" and "l_from_jwk L k = Inr key"
  shows "issuer_key L jwks kid key"
proof -
  obtain keys ks where "get_default jwks ''keys'' (JArr []) = Inr keys" "json_iter keys = Inr ks"
    "matching_keys kid ks = Inr (k # ms)"
    using assms(1) by (auto simp: jwks_matches_def bind_res_Inr_iff)
  with assms(2) matching_keys_sound [of kid ks "k # ms" k] show ?thesis
    unfolding issuer_key_def by (intro exI [of _ keys] exI [of _ ks] exI [of _ k]) simp
qed

lemma resolve_signing_key_sound:
  assumes "resolve_signing_key E L kid w = (Inr key, t)"
  shows "issuer_key L (fst (w_jwks t)) kid key \<and> w_now t = w_now w"
proof -
  obtain jwks u ms where f: "fetch_jwks E w = (Inr jwks, u)" "jwks_matches kid jwks = Inr ms"
    and rest: "(case if ms = [] then bind clear_jwks_cache (\<lambda>_. bind (fetch_jwks E) (\<lambda>fresh. lift (jwks_matches kid fresh))) u
                  else (Inr ms, u) of (Inl e, v) \<Rightarrow> (Inl e, v)
                | (Inr found, v) \<Rightarrow> (case found of [] \<Rightarrow> raise PyJWTError | k # _ \<Rightarrow> lift (l_from_jwk L k)) v) = (Inr key, t)"
    using assms by (auto simp: resolve_signing_key_def bind_app split: prod.splits sum.splits if_splits)
  have u: "jwks = fst (w_jwks u)" "w_now u = w_now w" using fetch_jwks_cases [OF f(1)] by auto
  show ?thesis
  proof (cases ms)
    case (Cons k ks)
    with rest f u show ?thesis by (auto intro: jwks_matches_key)
  next
    case Nil
    let ?u = "u\<lparr>w_jwks := (JNull, 0)\<rparr>"
    obtain fresh v k ks where g: "fetch_jwks E ?u = (Inr fresh, v)" "jwks_matches kid fresh = Inr (k # ks)" "l_from_jwk L k = Inr key" "t = v"
      using rest Nil by (auto simp: bind_app clear_jwks_cache_def split: prod.splits sum.splits list.splits)
    have "fresh = fst (w_jwks v)" "w_now v = w_now u" using fetch_jwks_cases [OF g(1)] by auto
    with g u show ?thesis by (auto intro: jwks_matches_key)
  qed
qed

text \<open>The left-half hash of OpenID Connect Core 3.1.3.6\<close>

definition left_half_hash :: "env \<Rightarrow> string \<Rightarrow> string" where
  "left_half_hash E s = (let digest = sha256_digest E s in b64url (take (length digest div 2) digest))"

definition hash_claim_ok :: "env \<Rightarrow> json \<Rightarrow> string \<Rightarrow> json \<Rightarrow> bool" where
  "hash_claim_ok E claims name source \<longleftrightarrow> get claims name = Inr JNull
     \<or> (\<exists>src. source = JStr src \<and> get claims name = Inr (JStr (left_half_hash E src)))"

lemma check_hash_claim_sound:
  assumes "check_hash_claim E claims alg name source = Inr ()"
  shows "hash_claim_ok E claims name source"
proof -
  have str: "as_str v = Inr s \<Longrightarrow> v = JStr s" for v s by (cases v) auto
  show ?thesis using assms str
    by (auto simp: check_hash_claim_def hash_claim_ok_def bind_res_Inr_iff compute_oidc_hash_def compare_digest_def
        left_half_hash_def Let_def split: if_splits json.splits)
qed

text \<open>
  What makes the claims of an id token trustworthy: the algorithm is RS256, the signature checks
  against a key of the issuer's document, for this client, this issuer and this time, the nonce is
  the one of the login, and the optional hashes bind the access token and the code.
\<close>

definition verified_claims :: "env \<Rightarrow> libs \<Rightarrow> json \<Rightarrow> int \<Rightarrow> json \<Rightarrow> json \<Rightarrow> json \<Rightarrow> json \<Rightarrow> json \<Rightarrow> bool" where
  "verified_claims E L jwks now id_token nonce access_token code claims \<longleftrightarrow>
     (\<exists>header kid key n. l_unverified_header L id_token = Inr header \<and> get header ''alg'' = Inr (JStr ''RS256'')
        \<and> get header ''kid'' = Inr kid \<and> issuer_key L jwks kid key
        \<and> l_decode_id_token L id_token key (s_cf_oauth_client_id (e_settings E)) (s_cf_oauth_issuer (e_settings E))
            (s_access_token_skew (e_settings E)) now = Inr claims
        \<and> get claims ''nonce'' = Inr n \<and> py_eq n nonce
        \<and> hash_claim_ok E claims ''at_hash'' access_token \<and> hash_claim_ok E claims ''c_hash'' code)"

lemma validate_id_token_sound:
  assumes "validate_id_token E L id_token nonce access_token code w = (Inr claims, t)"
  shows "verified_claims E L (fst (w_jwks t)) (w_now w) id_token nonce access_token code claims"
proof -
  obtain header kid key n where h: "l_unverified_header L id_token = Inr header" "get header ''alg'' = Inr (JStr ''RS256'')"
      "get header ''kid'' = Inr kid" and k: "resolve_signing_key E L kid w = (Inr key, t)"
    and d: "l_decode_id_token L id_token key (s_cf_oauth_client_id (e_settings E)) (s_cf_oauth_issuer (e_settings E))
            (s_access_token_skew (e_settings E)) (w_now t) = Inr claims"
    and n: "get claims ''nonce'' = Inr n" "py_eq n nonce"
    and c: "check_hash_claim E claims (JStr ''RS256'') ''at_hash'' access_token = Inr ()"
      "check_hash_claim E claims (JStr ''RS256'') ''c_hash'' code = Inr ()"
    using assms by (auto simp: validate_id_token_def ALLOWED_ALGS_def bind_Inr_iff split: if_splits)
  show ?thesis unfolding verified_claims_def
    using h d n check_hash_claim_sound [OF c(1)] check_hash_claim_sound [OF c(2)] resolve_signing_key_sound [OF k]
    by (intro exI [of _ header] exI [of _ kid] exI [of _ key] exI [of _ n]) simp
qed

subsection \<open>The rows\<close>

lemma upsert_user_cases:
  assumes "upsert_user E sub email w = (Inr (u, g), t)"
  shows "\<exists>h n. g = (\<lambda>v. v\<lparr>w_users := h (w_users v)\<rparr>) \<and> t = w\<lparr>w_rand := n\<rparr> \<and> u_cf_sub u = Some sub
     \<and> u \<in> set (h (w_users w)) \<and> (\<forall>x \<in> set (w_users w). u_id x \<noteq> u_id u \<longrightarrow> x \<in> set (h (w_users w)))"
proof (cases "find (\<lambda>x. u_cf_sub x = Some sub) (w_users w)")
  case None
  define u' where "u' = \<lparr>u_id = e_uuid E (w_rand w), u_email = email, u_password_hash = None, u_auth_provider = ''cloudflare_oauth'',
     u_cf_sub = Some sub, u_is_active = True, u_created_at = utcnow w, u_updated_at = utcnow w\<rparr>"
  have "u = u'" "g = (\<lambda>v. v\<lparr>w_users := w_users v @ [u']\<rparr>)" "t = w\<lparr>w_rand := Suc (w_rand w)\<rparr>"
    using assms None by (auto simp: upsert_user_def bind_app new_uuid_def flush_db_def Let_def u'_def utcnow_def split: if_splits)
  then show ?thesis
    by (intro exI [of _ "\<lambda>us. us @ [u']"] exI [of _ "Suc (w_rand w)"]) (simp add: u'_def)
next
  case (Some u0)
  then have u0: "u0 \<in> set (w_users w)" "u_cf_sub u0 = Some sub" by (auto dest: find_SomeD)
  define h where "h = map (\<lambda>v. if u_id v = u_id u0 then u else v)"
  have "g = (\<lambda>v. v\<lparr>w_users := h (w_users v)\<rparr>)" "t = w\<lparr>w_rand := w_rand w\<rparr>" "u_cf_sub u = Some sub" "u_id u = u_id u0"
    using assms Some u0(2) by (auto simp: upsert_user_def bind_app flush_db_def Let_def h_def split: if_splits option.splits)
  moreover have "u \<in> set (h (w_users w))" using u0(1) by (force simp: h_def)
  moreover have "\<forall>x \<in> set (w_users w). u_id x \<noteq> u_id u \<longrightarrow> x \<in> set (h (w_users w))"
    using \<open>u_id u = u_id u0\<close> by (force simp: h_def)
  ultimately show ?thesis by blast
qed

lemma encrypt_token_cases:
  assumes "encrypt_token E tok w = (Inr c, t)"
  shows "\<exists>n. t = w\<lparr>w_rand := n\<rparr>"
  using assms by (cases "truthy tok") (auto simp: encrypt_token_def bind_Inr_iff encrypt_secret_def intro: exI [of _ "w_rand w"])

lemma is_oauth_row_upd [simp]:
  "is_oauth_row i (delegated a r e c) = is_oauth_row i c" "c_id (delegated a r e c) = c_id c"
  "is_oauth_row i (c\<lparr>c_oauth_scopes := s\<rparr>) = is_oauth_row i c" "is_oauth_row i (c\<lparr>c_cred_version := v\<rparr>) = is_oauth_row i c"
  "is_oauth_row i (oauth_row j i s' now)"
  by (simp_all add: is_oauth_row_def delegated_def oauth_row_def)

lemma store_delegated_rows:
  assumes f: "found = find (is_oauth_row i) (w_credentials w)"
    and d: "distinct (map c_id (w_credentials (store_delegated s a r e found (oauth_row j i s now) w)))"
  shows "\<exists>c \<in> set (w_credentials (store_delegated s a r e found (oauth_row j i s now) w)). is_oauth_row i c"
    and "c \<in> set (w_credentials w) \<Longrightarrow> \<not> is_oauth_row i c \<Longrightarrow> c \<in> set (w_credentials (store_delegated s a r e found (oauth_row j i s now) w))"
proof -
  show "\<exists>c \<in> set (w_credentials (store_delegated s a r e found (oauth_row j i s now) w)). is_oauth_row i c"
  proof (cases found)
    case None
    then show ?thesis by (simp add: store_delegated_def)
  next
    case (Some c0)
    then have c0: "c0 \<in> set (w_credentials w)" "is_oauth_row i c0" using f by (auto dest: find_SomeD)
    let ?upd = "\<lambda>c. if c_id c = c_id c0
      then delegated a r e (c\<lparr>c_oauth_scopes := (if s = None \<or> s = Some [] then c_oauth_scopes c else s), c_cred_version := c_cred_version c + 1\<rparr>)
      else c"
    have "set (w_credentials (store_delegated s a r e found (oauth_row j i s now) w)) = ?upd ` set (w_credentials w)"
      by (simp add: store_delegated_def Some)
    moreover have "is_oauth_row i (?upd c0)" using c0 by simp
    ultimately show ?thesis using c0(1) by blast
  qed
  show "c \<in> set (w_credentials (store_delegated s a r e found (oauth_row j i s now) w))"
    if c: "c \<in> set (w_credentials w)" "\<not> is_oauth_row i c"
  proof (cases found)
    case None
    then show ?thesis using c by (simp add: store_delegated_def)
  next
    case (Some c0)
    then have c0: "c0 \<in> set (w_credentials w)" "is_oauth_row i c0" using f by (auto dest: find_SomeD)
    have "map c_id (w_credentials (store_delegated s a r e found (oauth_row j i s now) w)) = map c_id (w_credentials w)"
      using Some by (simp add: store_delegated_def)
    with d have "inj_on c_id (set (w_credentials w))" by (simp add: distinct_map)
    with c c0 have "c_id c \<noteq> c_id c0" by (metis inj_onD)
    with Some c show ?thesis by (force simp: store_delegated_def)
  qed
qed

lemma link_credential_cases:
  assumes run: "link_credential E tokens u (\<lambda>v. v\<lparr>w_users := h (w_users v)\<rparr>) w = (Inr (), t)"
  shows "w_users t = h (w_users w)" and "\<exists>c \<in> set (w_credentials t). is_oauth_row (u_id u) c"
    and "\<And>c. c \<in> set (w_credentials w) \<Longrightarrow> \<not> is_oauth_row (u_id u) c \<Longrightarrow> c \<in> set (w_credentials t)"
    and "w_tokens t = w_tokens w" "w_rules t = w_rules w" "w_audit t = w_audit w" "w_trace t = w_trace w" "w_jwks t = w_jwks w" "w_now t = w_now w"
    and "constraints_ok E t"
proof -
  let ?g = "\<lambda>v. v\<lparr>w_users := h (w_users v)\<rparr>"
  let ?found = "find (is_oauth_row (u_id u)) (w_credentials w)"
  obtain s a r e j n where c: "commit_db E (store_delegated s a r e ?found (oauth_row j (u_id u) s (utcnow w)) \<circ> ?g) (w\<lparr>w_rand := n\<rparr>) = (Inr (), t)"
  proof -
    obtain s a r e i x y z where x: "encrypt_token E i w = (Inr a, x)" and "encrypt_token E z x = (Inr r, y)"
      and ty: "bind (case ?found of None \<Rightarrow> new_uuid E | Some c \<Rightarrow> return (c_id c)) (\<lambda>i.
         commit_db E (store_delegated s a r e ?found (oauth_row i (u_id u) s (utcnow w)) \<circ> ?g)) y = (Inr (), t)"
      using run by (auto simp: link_credential_def bind_Inr_iff)
    then obtain n where y: "y = w\<lparr>w_rand := n\<rparr>" by (auto dest!: encrypt_token_cases)
    show thesis
    proof (cases ?found)
      case None
      with ty y that show thesis by (auto simp: bind_app new_uuid_def)
    next
      case (Some c)
      with ty y that show thesis by (auto simp: bind_app)
    qed
  qed
  let ?w = "w\<lparr>w_rand := n, w_users := h (w_users w)\<rparr>"
  let ?f = "store_delegated s a r e ?found (oauth_row j (u_id u) s (utcnow w)) ?w"
  have t: "t = ?f\<lparr>w_commits := Suc (w_commits w)\<rparr>" and ok: "constraints_ok E ?f"
    using c by (auto elim!: commit_db_cases)
  have fr: "?f = ?w\<lparr>w_credentials := w_credentials ?f\<rparr>" by (rule store_delegated_frame)
  show "w_users t = h (w_users w)" "w_tokens t = w_tokens w" "w_rules t = w_rules w" "w_audit t = w_audit w"
    "w_trace t = w_trace w" "w_jwks t = w_jwks w" "w_now t = w_now w"
    unfolding t by (subst fr, simp)+
  have d: "distinct (map c_id (w_credentials ?f))" using ok by (simp add: constraints_ok_def credentials_ok_def)
  have f: "?found = find (is_oauth_row (u_id u)) (w_credentials ?w)" by simp
  show "\<exists>c \<in> set (w_credentials t). is_oauth_row (u_id u) c" unfolding t using store_delegated_rows(1) [OF f d] by simp
  show "c \<in> set (w_credentials t)" if "c \<in> set (w_credentials w)" "\<not> is_oauth_row (u_id u) c" for c
    unfolding t using store_delegated_rows(2) [OF f d, of c] that by simp
  show "constraints_ok E t" unfolding t using ok by simp
qed


lemma b64url_length: "length (b64url bs) = (4 * length bs + 2) div 3"
  by (induction bs rule: b64url.induct) simp_all

lemma token_bytes_run: "\<exists>bs. token_bytes E n w = (Inr bs, w\<lparr>w_rand := w_rand w + n\<rparr>) \<and> length bs = n"
proof (induction n arbitrary: w)
  case (Suc n)
  from Suc [of "w\<lparr>w_rand := Suc (w_rand w)\<rparr>"] show ?case by (auto simp: bind_app secrets_choice_def)
qed simp

lemma token_urlsafe_run:
  "\<exists>s. token_urlsafe E n w = (Inr s, w\<lparr>w_rand := w_rand w + n\<rparr>) \<and> length s = (4 * n + 2) div 3"
  using token_bytes_run [of E n w] by (auto simp: token_urlsafe_def bind_app b64url_length)

section \<open>Properties\<close>

text \<open>
  C17: a login state is good for one callback: once a callback has presented a state (and Redis
  answered), every later callback with it is refused before anything is sent to Cloudflare and
  leaves the tables alone, whatever the first callback ended in and whatever happened in
  between that did not store the state again.
\<close>

theorem oauth_state_single_use:
  assumes "handle_cf_oauth_callback E L code state w = (r, t)" and "e_redis_up E (w_redis_calls w)"
    and "live_entry u (oauth_state_key state) = live_entry t (oauth_state_key state)"
  shows "\<exists>v. handle_cf_oauth_callback E L code' state u = (Inl (ValueError ''invalid or expired oauth state''), v)
     \<and> same_but_redis u v"
proof -
  let ?k = "oauth_state_key state"
  let ?w = "w\<lparr>w_redis_calls := Suc (w_redis_calls w), w_redis := (w_redis w)(?k := None)\<rparr>"
  let ?f = "((w_redis w)(?k := None), Suc (w_redis_calls w), w_now w)"
  have "redis_frame ?f t"
  proof -
    have "keeps (redis_frame ?f) (complete_cf_oauth_login E L code stored)" for stored by (intro keeps_intros)
    moreover have "redis_frame ?f ?w" by (simp add: redis_frame_def)
    ultimately have "redis_frame ?f (snd (complete_cf_oauth_login E L code stored ?w))" for stored by (simp add: keeps_def)
    moreover have "t = ?w \<or> (\<exists>stored. complete_cf_oauth_login E L code stored ?w = (r, t))"
      using assms(1,2) by (auto simp: handle_cf_oauth_callback_def bind_app consume_oauth_state_run
          split: option.splits redis_raw.splits if_splits)
    ultimately show ?thesis using \<open>redis_frame ?f ?w\<close> by (metis snd_conv)
  qed
  then have "live_entry u ?k = None" using assms(3) by (simp add: redis_frame_def live_entry_def)
  then show ?thesis
    by (auto simp: handle_cf_oauth_callback_def bind_app consume_oauth_state_run same_but_redis_def)
qed

text \<open>
  C15: who is logged in is who the issuer vouched for: a successful callback consumed a stored login
  state, sent that state's PKCE verifier with the code to the issuer, and the user it returns is
  the row of the subject of an id token that is verified against the issuer's keys, this client
  and the nonce of that login. The session token is for that user, who now has a linked OAuth
  credential; no other user's row, no other credential and no scoped token or rule changes.
\<close>

theorem callback_authenticates:
  assumes run: "handle_cf_oauth_callback E L code state w = (Inr (u, jwt), t)"
  shows "\<exists>stored verifier nonce tokens id_token access claims sub.
     live_json w (oauth_state_key state) = Some stored
     \<and> subscript stored ''verifier'' = Inr verifier \<and> subscript stored ''nonce'' = Inr nonce
     \<and> e_http E (w_trace w) (exchange_request E code verifier) = Inr tokens \<and> (\<exists>body. p_json tokens = Some body
          \<and> get body ''id_token'' = Inr id_token \<and> get body ''access_token'' = Inr access)
     \<and> verified_claims E L (fst (w_jwks t)) (w_now w) id_token nonce access (JStr code) claims
     \<and> subscript claims ''sub'' = Inr (JStr sub) \<and> u_cf_sub u = Some sub \<and> u \<in> set (w_users t)
     \<and> fst (create_jwt E L (u_id u) w) = Inr jwt
     \<and> (\<exists>c \<in> set (w_credentials t). is_oauth_row (u_id u) c)
     \<and> (\<forall>x \<in> set (w_users w). u_id x \<noteq> u_id u \<longrightarrow> x \<in> set (w_users t))
     \<and> (\<forall>c \<in> set (w_credentials w). \<not> is_oauth_row (u_id u) c \<longrightarrow> c \<in> set (w_credentials t))
     \<and> w_tokens t = w_tokens w \<and> w_rules t = w_rules w \<and> w_audit t = w_audit w"
proof -
  let ?w = "w\<lparr>w_redis_calls := Suc (w_redis_calls w), w_redis := (w_redis w)(oauth_state_key state := None)\<rparr>"
  obtain stored where st: "live_json w (oauth_state_key state) = Some stored" and comp: "complete_cf_oauth_login E L code stored ?w = (Inr (u, jwt), t)"
    using run by (auto simp: handle_cf_oauth_callback_def bind_app consume_oauth_state_run live_json_def
        split: option.splits redis_raw.splits if_splits)
  obtain verifier nonce resp body id_token access claims cs em g w1 w2 w3 w4
    where s: "subscript stored ''verifier'' = Inr verifier" "subscript stored ''nonce'' = Inr nonce"
      and x: "e_http E (w_trace w) (exchange_request E code verifier) = Inr resp" "p_json resp = Some body"
        "w1 = ?w\<lparr>w_trace := w_trace w @ [Sent (exchange_request E code verifier)]\<rparr>"
      and b: "get body ''id_token'' = Inr id_token" "get body ''access_token'' = Inr access"
      and v: "validate_id_token E L id_token nonce access (JStr code) w1 = (Inr claims, w2)"
      and c: "bind_res (subscript claims ''sub'') as_str = Inr cs"
      and up: "upsert_user E cs em w2 = (Inr (u, g), w3)" and li: "link_credential E body u g w3 = (Inr (), w4)"
      and j: "create_jwt E L (u_id u) w4 = (Inr jwt, t)"
    using comp by (auto simp: complete_cf_oauth_login_def bind_Inr_iff exchange_code_def call_json_def send_http_run
        response_json_def raise_for_status_def split: option.splits if_splits)
  have fr: "(w_users w2, w_credentials w2, w_tokens w2, w_rules w2, w_audit w2, w_now w2) = (w_users w, w_credentials w, w_tokens w, w_rules w, w_audit w, w_now w)"
    by (rule keepsD [OF keeps_validate_id_token _ v]) (simp_all add: x(3))
  obtain h n where up': "g = (\<lambda>v. v\<lparr>w_users := h (w_users v)\<rparr>)" "w3 = w2\<lparr>w_rand := n\<rparr>" "u_cf_sub u = Some cs" "u \<in> set (h (w_users w2))"
      "\<forall>x \<in> set (w_users w2). u_id x \<noteq> u_id u \<longrightarrow> x \<in> set (h (w_users w2))"
    using upsert_user_cases [OF up] by blast
  have sub: "subscript claims ''sub'' = Inr (JStr cs)" using c by (auto simp: bind_res_Inr_iff elim!: as_str.elims)
  have t: "t = w4" using j by (simp add: create_jwt_def)
  note link = link_credential_cases [OF li [unfolded up'(1)]]
  have "\<exists>body. p_json resp = Some body \<and> get body ''id_token'' = Inr id_token \<and> get body ''access_token'' = Inr access"
    using x(2) b by blast
  moreover have "verified_claims E L (fst (w_jwks t)) (w_now w) id_token nonce access (JStr code) claims"
    using validate_id_token_sound [OF v] link(8) t x(3) up'(2) by simp
  moreover have "u \<in> set (w_users t)" "\<forall>x \<in> set (w_users w). u_id x \<noteq> u_id u \<longrightarrow> x \<in> set (w_users t)"
    using up'(2,4,5) link(1) t fr by simp_all
  moreover have "fst (create_jwt E L (u_id u) w) = Inr jwt" using j link(9) fr up'(2) by (simp add: create_jwt_def)
  moreover have "\<forall>c \<in> set (w_credentials w). \<not> is_oauth_row (u_id u) c \<longrightarrow> c \<in> set (w_credentials t)"
    using link(3) t fr up'(2) by simp
  moreover have "w_tokens t = w_tokens w \<and> w_rules t = w_rules w \<and> w_audit t = w_audit w"
    using link(4,5,6) t fr up'(2) by simp
  ultimately show ?thesis using st s x(1) sub up'(3) link(2) t by blast
qed


text \<open>
  C32: the login URL carries the login and nothing else: its query decodes to the eight parameters
  of the authorization request, with the S256 challenge of a fresh verifier of the length that
  PKCE admits; verifier and nonce are what the login state holds, so that the callback can use
  them.
\<close>

theorem login_url_carries_challenge:
  assumes "start_cf_oauth_login E w = (Inr url, t)" and "e_redis_up E (w_redis_calls w)"
    and "0 < s_oauth_state_ttl (e_settings E)"
  shows "\<exists>state verifier nonce query. url = s_cf_oauth_issuer (e_settings E) @ ''/oauth2/auth?'' @ query
     \<and> parse_qsl query = authorize_params E state nonce (b64url (sha256_digest E verifier))
     \<and> live_json t (oauth_state_key state) = Some (JObj [(''verifier'', JStr verifier), (''nonce'', JStr nonce)])
     \<and> 43 \<le> length verifier \<and> length verifier \<le> 128 \<and> same_but_redis (w\<lparr>w_rand := w_rand t\<rparr>) t"
proof -
  obtain verifier where v: "token_urlsafe E 64 w = (Inr verifier, w\<lparr>w_rand := w_rand w + 64\<rparr>)" "length verifier = 86"
    using token_urlsafe_run [of E 64 w] by auto
  obtain state where s: "token_urlsafe E 32 (w\<lparr>w_rand := w_rand w + 64\<rparr>) = (Inr state, w\<lparr>w_rand := w_rand w + 96\<rparr>)"
    using token_urlsafe_run [of E 32 "w\<lparr>w_rand := w_rand w + 64\<rparr>"] by auto
  obtain nonce where n: "token_urlsafe E 16 (w\<lparr>w_rand := w_rand w + 96\<rparr>) = (Inr nonce, w\<lparr>w_rand := w_rand w + 112\<rparr>)"
    using token_urlsafe_run [of E 16 "w\<lparr>w_rand := w_rand w + 96\<rparr>"] by auto
  let ?doc = "JObj [(''verifier'', JStr verifier), (''nonce'', JStr nonce)]"
  let ?ps = "authorize_params E state nonce (b64url (sha256_digest E verifier))"
  have run: "url = s_cf_oauth_issuer (e_settings E) @ ''/oauth2/auth?'' @ urlencode ?ps"
    "t = snd (cache_set_json E (oauth_state_key state) ?doc (s_oauth_state_ttl (e_settings E)) (w\<lparr>w_rand := w_rand w + 112\<rparr>))"
    using assms(1) v s n by (auto simp: start_cf_oauth_login_def make_pkce_def bind_app cache_set_json_run build_authorize_url_def)
  have "live_json t (oauth_state_key state) = Some ?doc"
    using assms(2,3) unfolding run(2) by (simp add: cache_set_json_run live_json_def live_entry_def)
  moreover have "same_but_redis (w\<lparr>w_rand := w_rand t\<rparr>) t"
    using assms(2,3) unfolding run(2) by (simp add: cache_set_json_run same_but_redis_def)
  moreover have "parse_qsl (urlencode ?ps) = ?ps" by (rule parse_urlencode) (simp add: authorize_params_def Let_def)
  ultimately show ?thesis using run(1) v(2) by (intro exI [of _ state] exI [of _ verifier] exI [of _ nonce] exI [of _ "urlencode ?ps"]) simp
qed

section \<open>Witnesses\<close>

definition demo_libs :: libs where
  "demo_libs = \<lparr>l_unverified_header = (\<lambda>_. Inr (JObj [(''alg'', JStr ''RS256''), (''kid'', JStr ''k1'')])),
     l_from_jwk = (\<lambda>_. Inr ''key''),
     l_decode_id_token = (\<lambda>_ _ _ _ _ _. Inr (JObj [(''sub'', JStr ''cf-user''), (''nonce'', JStr ''n1''), (''email'', JStr ''new@example.com'')])),
     l_jwt_encode = (\<lambda>j. case j of JObj ((_, JStr s) # _) \<Rightarrow> ''jwt:'' @ s | _ \<Rightarrow> []),
     l_jwt_decode = (\<lambda>now s. if take 4 s = ''jwt:'' then Inr (JObj [(''sub'', JStr (drop 4 s))]) else Inl PyJWTError),
     l_argon2_hash = (\<lambda>n pw. ''argon:'' @ pw),
     l_argon2_verify = (\<lambda>h pw. if h = ''argon:'' @ pw then Inr () else Inl VerifyMismatchError)\<rparr>"

definition login_env :: env where
  "login_env = demo_env\<lparr>e_http := (\<lambda>tr q. Inr \<lparr>p_status = 200, p_json = Some (
     if q_path q = ''/oauth2/token''
     then JObj [(''access_token'', JStr ''at''), (''refresh_token'', JStr ''rt''), (''id_token'', JStr ''idt''), (''expires_in'', JNum 3600)]
     else JObj [(''keys'', JArr [JObj [(''kid'', JStr ''k1'')]])])\<rparr>)\<rparr>"

definition login_world :: world where
  "login_world = demo_world\<lparr>w_redis := [''oauth_state:s1'' \<mapsto>
     (Raw_json (JObj [(''verifier'', JStr ''v1''), (''nonce'', JStr ''n1'')]), Some 1600)]\<rparr>"

lemma demo_login: "\<exists>u jwt t. handle_cf_oauth_callback login_env demo_libs ''c1'' ''s1'' login_world = (Inr (u, jwt), t)"
proof -
  have "case fst (handle_cf_oauth_callback login_env demo_libs ''c1'' ''s1'' login_world) of Inl e \<Rightarrow> False | Inr y \<Rightarrow> True" by code_simp
  from ran_ok [OF this] show ?thesis by auto
qed

theorem oauth_state_single_use_witness:
  "fst (handle_cf_oauth_callback login_env demo_libs ''c2'' ''s1''
     (snd (handle_cf_oauth_callback login_env demo_libs ''c1'' ''s1'' login_world))) = Inl (ValueError ''invalid or expired oauth state'')"
proof -
  obtain r t where run: "handle_cf_oauth_callback login_env demo_libs ''c1'' ''s1'' login_world = (r, t)"
    by (cases "handle_cf_oauth_callback login_env demo_libs ''c1'' ''s1'' login_world")
  have up: "e_redis_up login_env (w_redis_calls login_world)" by (simp add: login_env_def demo_env_def)
  from oauth_state_single_use [OF run up, of t "''c2''"] show ?thesis by (auto simp: run)
qed

theorem callback_authenticates_witness:
  "\<exists>u jwt t. handle_cf_oauth_callback login_env demo_libs ''c1'' ''s1'' login_world = (Inr (u, jwt), t)
     \<and> u_cf_sub u \<noteq> None \<and> u \<in> set (w_users t) \<and> (u_id u = u_id demo_user \<or> demo_user \<in> set (w_users t))"
proof -
  obtain u jwt t where run: "handle_cf_oauth_callback login_env demo_libs ''c1'' ''s1'' login_world = (Inr (u, jwt), t)"
    using demo_login by blast
  have "demo_user \<in> set (w_users login_world)" by (simp add: login_world_def demo_world_def)
  moreover obtain sub where "u_cf_sub u = Some sub" "u \<in> set (w_users t)"
    "\<forall>x \<in> set (w_users login_world). u_id x \<noteq> u_id u \<longrightarrow> x \<in> set (w_users t)"
    using callback_authenticates [OF run] by blast
  ultimately show ?thesis using run by auto
qed

theorem login_url_carries_challenge_witness:
  "\<exists>url t. start_cf_oauth_login demo_env demo_world = (Inr url, t) \<and> (\<exists>query. url = ''https://dash.cloudflare.com'' @ ''/oauth2/auth?'' @ query)
     \<and> w_redis t \<noteq> Map.empty"
proof -
  have "\<exists>url t. start_cf_oauth_login E w = (Inr url, t)" for E w
  proof -
    obtain v where v: "token_urlsafe E 64 w = (Inr v, w\<lparr>w_rand := w_rand w + 64\<rparr>)" using token_urlsafe_run by blast
    obtain s where s: "token_urlsafe E 32 (w\<lparr>w_rand := w_rand w + 64\<rparr>) = (Inr s, w\<lparr>w_rand := w_rand w + 96\<rparr>)"
      using token_urlsafe_run [of E 32 "w\<lparr>w_rand := w_rand w + 64\<rparr>"] by auto
    obtain n where n: "token_urlsafe E 16 (w\<lparr>w_rand := w_rand w + 96\<rparr>) = (Inr n, w\<lparr>w_rand := w_rand w + 112\<rparr>)"
      using token_urlsafe_run [of E 16 "w\<lparr>w_rand := w_rand w + 96\<rparr>"] by auto
    show ?thesis by (simp add: start_cf_oauth_login_def make_pkce_def bind_app v s n cache_set_json_run)
  qed
  then obtain url t where run: "start_cf_oauth_login demo_env demo_world = (Inr url, t)" by blast
  have up: "e_redis_up demo_env (w_redis_calls demo_world)" "0 < s_oauth_state_ttl (e_settings demo_env)"
    and iss: "s_cf_oauth_issuer (e_settings demo_env) = ''https://dash.cloudflare.com''"
    by (simp_all add: demo_env_def demo_settings_def)
  obtain state verifier nonce query where
    "url = ''https://dash.cloudflare.com'' @ ''/oauth2/auth?'' @ query" "live_json t (oauth_state_key state) = Some (JObj [(''verifier'', JStr verifier), (''nonce'', JStr nonce)])"
    using login_url_carries_challenge [OF run up] iss by auto
  moreover from this(2) have "w_redis t \<noteq> Map.empty" by (auto simp: live_json_def live_entry_def)
  ultimately show ?thesis using run by blast
qed

end
