(* ===== verification/CredentialService.thy ===== *)
theory CredentialService
  imports ProxyAuth
begin

text \<open>
  \<^verbatim>\<open>services/credential_service.py\<close>: stored upstream credentials. Every lookup by id is scoped by
  the owner; the locale \<open>owned_lookup\<close> states that contract once for the credentials here and the
  scoped tokens of theory \<open>TokenService\<close>.
\<close>

section \<open>Definitions\<close>

definition get_owned_credential :: "string \<Rightarrow> string \<Rightarrow> (world, credential) prog" where
  "get_owned_credential user_id credential_id =
     bind (gets (\<lambda>w. find (\<lambda>c. c_id c = credential_id \<and> c_user_id c = user_id) (w_credentials w))) (\<lambda>row.
       (case row of
          None \<Rightarrow> raise (NotFoundError (''upstream credential '' @ py_repr credential_id @ '' not found''))
        | Some credential \<Rightarrow> return credential))"

definition SUPPORTED_CRED_TYPES :: "string list" where
  "SUPPORTED_CRED_TYPES = [''token'', ''global_key'']"

definition falsy_str :: "string option \<Rightarrow> bool" where
  "falsy_str x \<longleftrightarrow> x = None \<or> x = Some []"

text \<open>The plaintext that is stored for a credential, or why it is refused\<close>

definition secret_plain ::
  "env \<Rightarrow> string \<Rightarrow> string option \<Rightarrow> string option \<Rightarrow> string option \<Rightarrow> string res" where
  "secret_plain E cred_type api_token global_key cf_account_email =
     (if cred_type \<notin> set SUPPORTED_CRED_TYPES then Inl (ValueError (''unsupported cred_type: '' @ py_repr cred_type))
      else if cred_type = ''token'' then
        (if falsy_str api_token then Inl (ValueError (''api_token is required for cred_type='' @ py_repr ''token''))
         else Inr (the api_token))
      else if falsy_str global_key \<or> falsy_str cf_account_email
        then Inl (ValueError (''global_key and cf_account_email are required for cred_type='' @ py_repr ''global_key''))
      else Inr (e_json_dumps E (JObj [(''email'', JStr (the cf_account_email)), (''key'', JStr (the global_key))])))"

definition register_credential ::
  "env \<Rightarrow> string \<Rightarrow> string \<Rightarrow> string \<Rightarrow> string option \<Rightarrow> string option \<Rightarrow> string option \<Rightarrow> (world, credential) prog" where
  "register_credential E user_id label cred_type api_token global_key cf_account_email =
     bind (lift (secret_plain E cred_type api_token global_key cf_account_email)) (\<lambda>plain.
     bind (encrypt_secret E plain) (\<lambda>enc.
     bind (new_uuid E) (\<lambda>i.
     bind (gets utcnow) (\<lambda>now.
       let row = \<lparr>c_id = i, c_user_id = user_id, c_label = label, c_cred_type = cred_type, c_secret_enc = Some enc,
                  c_access_token_enc = None, c_refresh_token_enc = None, c_token_expires_at = None, c_oauth_scopes = None,
                  c_key_version = 1, c_cred_version = 1, c_cf_account_email = cf_account_email, c_verify_status = None,
                  c_verified_at = None, c_created_at = now\<rparr>
       in bind (commit_db E (\<lambda>w. w\<lparr>w_credentials := w_credentials w @ [row]\<rparr>)) (\<lambda>_. return row)))))"

definition update_credential :: "string \<Rightarrow> (credential \<Rightarrow> credential) \<Rightarrow> world \<Rightarrow> world" where
  "update_credential cid f w = w\<lparr>w_credentials := map (\<lambda>c. if c_id c = cid then f c else c) (w_credentials w)\<rparr>"

text \<open>The account email of a verify answer, when it has one\<close>

definition answered_email :: "json \<Rightarrow> string option res" where
  "answered_email envelope =
     bind_res (get envelope ''result'') (\<lambda>result.
       if is_dict result then
         bind_res (get result ''email'') (\<lambda>email.
           if truthy email then bind_res (as_str email) (\<lambda>s. Inr (Some s)) else Inr None)
       else Inr None)"

definition verify_credential :: "env \<Rightarrow> string \<Rightarrow> string \<Rightarrow> (world, credential) prog" where
  "verify_credential E user_id credential_id =
     bind (get_owned_credential user_id credential_id) (\<lambda>credential.
     bind (resolve_upstream_auth E credential) (\<lambda>auth_headers.
     bind (verify_upstream E auth_headers) (\<lambda>envelope.
     bind (lift (get envelope ''success'')) (\<lambda>success.
     bind (gets utcnow) (\<lambda>now.
     bind (lift (answered_email envelope)) (\<lambda>email.
       let upd = (\<lambda>c. c\<lparr>c_verify_status := Some (if truthy success then ''active'' else ''invalid''),
                       c_verified_at := Some now,
                       c_cf_account_email := (case email of None \<Rightarrow> c_cf_account_email c | Some m \<Rightarrow> Some m)\<rparr>)
       in bind (commit_db E (update_credential credential_id upd)) (\<lambda>_.
            get_owned_credential user_id credential_id)))))))"

definition list_credentials :: "string \<Rightarrow> world \<Rightarrow> credential list" where
  "list_credentials user_id w = filter (\<lambda>c. c_user_id c = user_id) (w_credentials w)"

definition revoke_row :: "datetime \<Rightarrow> scoped_token \<Rightarrow> scoped_token" where
  "revoke_row now k = k\<lparr>t_status := ''revoked'', t_revoked_at := Some now, t_version := t_version k + 1\<rparr>"

definition dependent_token :: "string \<Rightarrow> scoped_token \<Rightarrow> bool" where
  "dependent_token credential_id k \<longleftrightarrow> t_upstream_credential_id k = credential_id \<and> t_status k = ''active''"

text \<open>One cache deletion per revoked token, before anything is committed\<close>

fun drop_rule_keys :: "env \<Rightarrow> scoped_token list \<Rightarrow> (world, unit) prog" where
  "drop_rule_keys E [] = return ()"
| "drop_rule_keys E (k # ks) =
     bind (cache_del E [rules_key (t_lookup_id k) (t_version k)]) (\<lambda>_. drop_rule_keys E ks)"

definition delete_credential :: "env \<Rightarrow> string \<Rightarrow> string \<Rightarrow> (world, unit) prog" where
  "delete_credential E user_id credential_id =
     bind (get_owned_credential user_id credential_id) (\<lambda>credential.
     bind (gets (\<lambda>w. filter (dependent_token credential_id) (w_tokens w))) (\<lambda>dependents.
     bind (drop_rule_keys E dependents) (\<lambda>_.
     bind (cache_del E [oauth_at_key credential_id, zones_key credential_id]) (\<lambda>_.
     bind (gets utcnow) (\<lambda>now.
       commit_db E (\<lambda>w. w\<lparr>
         w_tokens := map (\<lambda>k. if dependent_token credential_id k then revoke_row now k else k) (w_tokens w),
         w_credentials := filter (\<lambda>c. c_id c \<noteq> credential_id) (w_credentials w)\<rparr>))))))"

fun credential_zones_loop :: "nat \<Rightarrow> env \<Rightarrow> (string \<times> string) list \<Rightarrow> int \<Rightarrow> json list \<Rightarrow> (world, json list) prog" where
  "credential_zones_loop 0 E auth_headers page zones = raise Diverges"
| "credential_zones_loop (Suc fuel) E auth_headers page zones =
     bind (forward_request E ''GET'' ''/client/v4/zones'' [] [(''page'', JNum page), (''per_page'', JNum 50)] None auth_headers) (\<lambda>response.
     bind (lift (raise_for_status response)) (\<lambda>_.
     bind (lift (response_json response)) (\<lambda>body.
     bind (lift (page_items body page)) (\<lambda>(items, last).
       if last then return (zones @ items)
       else credential_zones_loop fuel E auth_headers (page + 1) (zones @ items)))))"

definition list_credential_zones :: "nat \<Rightarrow> env \<Rightarrow> string \<Rightarrow> string \<Rightarrow> (world, json) prog" where
  "list_credential_zones fuel E user_id credential_id =
     bind (get_owned_credential user_id credential_id) (\<lambda>credential.
     bind (cache_get_json E (zones_key credential_id)) (\<lambda>cached.
       if cached \<noteq> JNull then return cached
       else
         bind (resolve_upstream_auth E credential) (\<lambda>auth_headers.
         bind (credential_zones_loop fuel E auth_headers 1 []) (\<lambda>zones.
         bind (cache_set_json E (zones_key credential_id) (JArr zones) (s_rules_cache_ttl (e_settings E))) (\<lambda>_.
           return (JArr zones))))))"

definition list_credential_zone_records ::
  "nat \<Rightarrow> env \<Rightarrow> string \<Rightarrow> string \<Rightarrow> string \<Rightarrow> (string \<times> json) list \<Rightarrow> (world, json list) prog" where
  "list_credential_zone_records fuel E user_id credential_id zone_id params =
     bind (get_owned_credential user_id credential_id) (\<lambda>credential.
     bind (resolve_upstream_auth E credential) (\<lambda>auth_headers.
       list_all_records fuel E zone_id params auth_headers))"

section \<open>The contract of an owned lookup\<close>

text \<open>
  A lookup by id on behalf of a user: it changes nothing, what it finds belongs to the user, it
  finds what belongs to the user, and an id that belongs to somebody else is answered exactly as
  an id that does not exist.
\<close>

locale owned_lookup =
  fixes lookup :: "string \<Rightarrow> string \<Rightarrow> (world, 'r) prog"
    and rows :: "world \<Rightarrow> 'r list"
    and row_id :: "'r \<Rightarrow> string"
    and row_owner :: "'r \<Rightarrow> string"
    and missing :: "string \<Rightarrow> exn"
  assumes found: "lookup u i w = (Inr r, t) \<Longrightarrow> t = w \<and> r \<in> set (rows w) \<and> row_id r = i \<and> row_owner r = u"
    and finds: "r \<in> set (rows w) \<Longrightarrow> \<exists>r'. lookup (row_owner r) (row_id r) w = (Inr r', w)"
    and foreign: "\<forall>r \<in> set (rows w). row_id r = i \<longrightarrow> row_owner r \<noteq> u \<Longrightarrow> lookup u i w = (Inl (missing i), w)"
begin

lemma op_foreign:
  assumes "\<forall>r \<in> set (rows w). row_id r = i \<longrightarrow> row_owner r \<noteq> u"
  shows "bind (lookup u i) f w = (Inl (missing i), w)"
  using foreign [OF assms] by (simp add: bind_app)

lemma op_owned:
  assumes "bind (lookup u i) f w = (Inr y, t)"
  obtains r where "r \<in> set (rows w)" and "row_id r = i" and "row_owner r = u" and "f r w = (Inr y, t)"
proof -
  obtain r v where r: "lookup u i w = (Inr r, v)" and f: "f r v = (Inr y, t)" using assms by (rule bind_InrE)
  from found [OF r] f that [of r] show thesis by simp
qed

lemma op_unique:
  assumes "r \<in> set (rows w)" and "distinct (map row_id (rows w))"
  shows "bind (lookup (row_owner r) (row_id r)) f w = f r w"
proof -
  obtain r' where r': "lookup (row_owner r) (row_id r) w = (Inr r', w)" using finds [OF assms(1)] by blast
  have "r' \<in> set (rows w)" "row_id r' = row_id r" using found [OF r'] by simp_all
  with assms have "r' = r" by (auto simp: distinct_map dest: inj_onD)
  with r' show ?thesis by (simp add: bind_app)
qed

end

text \<open>How a lookup by \<^verbatim>\<open>select ... where id = i and user_id = u\<close> meets the contract\<close>

lemma owned_lookup_select:
  assumes "\<And>u i w. lookup u i w = (case find (\<lambda>r. row_id r = i \<and> row_owner r = u) (rows w) of
      None \<Rightarrow> (Inl (missing i), w) | Some r \<Rightarrow> (Inr r, w))"
  shows "owned_lookup lookup rows row_id row_owner missing"
proof
  fix u i w r t assume "lookup u i w = (Inr r, t)"
  then show "t = w \<and> r \<in> set (rows w) \<and> row_id r = i \<and> row_owner r = u"
    by (auto simp: assms dest!: find_SomeD split: option.splits)
next
  fix w and r :: 'a assume "r \<in> set (rows w)"
  then have "find (\<lambda>x. row_id x = row_id r \<and> row_owner x = row_owner r) (rows w) \<noteq> None"
    by (auto simp: find_None_iff)
  then show "\<exists>r'. lookup (row_owner r) (row_id r) w = (Inr r', w)" by (auto simp: assms)
next
  fix w u i assume "\<forall>r \<in> set (rows w). row_id r = i \<longrightarrow> row_owner r \<noteq> u"
  then have "find (\<lambda>x. row_id x = i \<and> row_owner x = u) (rows w) = None" by (auto simp: find_None_iff)
  then show "lookup u i w = (Inl (missing i), w)" by (simp add: assms)
qed

interpretation creds: owned_lookup get_owned_credential w_credentials c_id c_user_id
  "\<lambda>i. NotFoundError (''upstream credential '' @ py_repr i @ '' not found'')"
  by (rule owned_lookup_select) (simp add: get_owned_credential_def bind_app split: option.splits)

section \<open>Lemmas\<close>

lemma cache_del_frame:
  "\<exists>t. cache_del E ks w = (Inr (), t) \<and> same_but_redis w t \<and> (\<forall>k v. live_json t k = Some v \<longrightarrow> live_json w k = Some v)"
  using redis.del_tolerant redis.del_frame by (metis option.distinct(1) prod.collapse)

lemma drop_rule_keys_frame:
  "\<exists>t. drop_rule_keys E ks w = (Inr (), t) \<and> same_but_redis w t \<and> (\<forall>k v. live_json t k = Some v \<longrightarrow> live_json w k = Some v)"
proof (induction ks arbitrary: w)
  case (Cons k ks)
  obtain u where u: "cache_del E [rules_key (t_lookup_id k) (t_version k)] w = (Inr (), u)" "same_but_redis w u"
    "\<forall>j v. live_json u j = Some v \<longrightarrow> live_json w j = Some v" using cache_del_frame by blast
  obtain t where t: "drop_rule_keys E ks u = (Inr (), t)" "same_but_redis u t"
    "\<forall>j v. live_json t j = Some v \<longrightarrow> live_json u j = Some v" using Cons by blast
  have "same_but_redis w t" using u(2) t(2) by (rule same_but_redis_trans)
  with t(1,3) u(1,3) show ?case by (simp add: bind_app)
qed simp

lemma live_json_tables [simp]:
  "live_json (w\<lparr>w_tokens := ts\<rparr>) = live_json w" "live_json (w\<lparr>w_credentials := cs\<rparr>) = live_json w"
  "live_json (w\<lparr>w_rules := rs\<rparr>) = live_json w" "live_json (w\<lparr>w_commits := n\<rparr>) = live_json w"
  "live_json (w\<lparr>w_rand := n\<rparr>) = live_json w"
  by (simp_all add: live_json_def live_entry_def fun_eq_iff)

text \<open>What a deletion comes down to: one transaction over the tables as they were.\<close>

definition deletion :: "string \<Rightarrow> datetime \<Rightarrow> world \<Rightarrow> world" where
  "deletion cid now w = w\<lparr>
     w_tokens := map (\<lambda>k. if dependent_token cid k then revoke_row now k else k) (w_tokens w),
     w_credentials := filter (\<lambda>c. c_id c \<noteq> cid) (w_credentials w)\<rparr>"

lemma delete_credential_run:
  assumes "c \<in> set (w_credentials w)"
  obtains u where "same_but_redis w u" and "\<forall>k v. live_json u k = Some v \<longrightarrow> live_json w k = Some v"
    and "delete_credential E (c_user_id c) (c_id c) w = commit_db E (deletion (c_id c) (utcnow w)) u"
proof -
  let ?deps = "filter (dependent_token (c_id c)) (w_tokens w)"
  obtain r where r: "get_owned_credential (c_user_id c) (c_id c) w = (Inr r, w)" using creds.finds [OF assms] by blast
  obtain v where v: "drop_rule_keys E ?deps w = (Inr (), v)" "same_but_redis w v"
    "\<forall>k x. live_json v k = Some x \<longrightarrow> live_json w k = Some x" using drop_rule_keys_frame by blast
  obtain u where u: "cache_del E [oauth_at_key (c_id c), zones_key (c_id c)] v = (Inr (), u)" "same_but_redis v u"
    "\<forall>k x. live_json u k = Some x \<longrightarrow> live_json v k = Some x" using cache_del_frame by blast
  have f: "same_but_redis w u" using v(2) u(2) by (rule same_but_redis_trans)
  have now: "utcnow u = utcnow w" using same_but_redis_fields(5) [OF f] by (simp add: utcnow_def)
  have "delete_credential E (c_user_id c) (c_id c) w = commit_db E (deletion (c_id c) (utcnow u)) u"
    using r v(1) u(1) by (simp add: delete_credential_def bind_app deletion_def [abs_def])
  then have "delete_credential E (c_user_id c) (c_id c) w = commit_db E (deletion (c_id c) (utcnow w)) u"
    unfolding now .
  with that f u(3) v(3) show thesis by blast
qed

lemma delete_credential_owned:
  assumes "delete_credential E u cid w = (Inr (), t)"
  obtains c v where "c \<in> set (w_credentials w)" and "c_id c = cid" and "c_user_id c = u"
    and "same_but_redis w v" and "\<forall>k x. live_json v k = Some x \<longrightarrow> live_json w k = Some x"
    and "t = (deletion cid (utcnow w) v)\<lparr>w_commits := Suc (w_commits v)\<rparr>"
proof -
  obtain c where c: "c \<in> set (w_credentials w)" "c_id c = cid" "c_user_id c = u"
    using assms unfolding delete_credential_def by (rule creds.op_owned)
  obtain v where v: "same_but_redis w v" "\<forall>k x. live_json v k = Some x \<longrightarrow> live_json w k = Some x"
    "delete_credential E (c_user_id c) (c_id c) w = commit_db E (deletion (c_id c) (utcnow w)) v"
    using delete_credential_run [OF c(1)] by blast
  have "commit_db E (deletion cid (utcnow w)) v = (Inr (), t)" using v(3) assms c by simp
  then show thesis
  proof (cases rule: commit_db_cases)
    case (failed e)
    then show ?thesis by simp
  next
    case committed
    show ?thesis using that [OF c v(1,2) committed(3)] .
  qed
qed

lemma deletion_sel [simp]:
  "w_tokens (deletion cid now w) = map (\<lambda>k. if dependent_token cid k then revoke_row now k else k) (w_tokens w)"
  "w_credentials (deletion cid now w) = filter (\<lambda>c. c_id c \<noteq> cid) (w_credentials w)"
  "w_rules (deletion cid now w) = w_rules w" "live_json (deletion cid now w) = live_json w"
  by (simp_all add: deletion_def)

lemma revoke_row_sel [simp]:
  "t_id (revoke_row now k) = t_id k" "t_user_id (revoke_row now k) = t_user_id k"
  "t_upstream_credential_id (revoke_row now k) = t_upstream_credential_id k" "t_lookup_id (revoke_row now k) = t_lookup_id k"
  "t_token_hash (revoke_row now k) = t_token_hash k" "t_status (revoke_row now k) = ''revoked''"
  "t_version (revoke_row now k) = t_version k + 1"
  by (simp_all add: revoke_row_def)

lemma delete_credential_coherent:
  assumes "delete_credential E u cid w = (Inr (), t)" and "rules_coherent w"
  shows "rules_coherent t"
proof -
  obtain v where v: "same_but_redis w v" "\<forall>k x. live_json v k = Some x \<longrightarrow> live_json w k = Some x"
    "t = (deletion cid (utcnow w) v)\<lparr>w_commits := Suc (w_commits v)\<rparr>"
    using delete_credential_owned [OF assms(1)] by metis
  note f = same_but_redis_fields [OF v(1)]
  show ?thesis
  proof (rule rules_coherent_step [OF assms(2)])
    show "live_json t k = Some x \<Longrightarrow> live_json w k = Some x" for k x using v(2,3) by simp
    fix k' assume "k' \<in> set (w_tokens t)"
    then obtain k where k: "k \<in> set (w_tokens w)" "k' = (if dependent_token cid k then revoke_row (utcnow w) k else k)"
      using v(3) f(1) by auto
    have "rules_of t k = rules_of w k" using v(3) f(2) by (simp add: rules_of_def)
    with k show "(\<forall>n. live_json w (rules_key (t_lookup_id k') n) = None)
      \<or> (\<exists>k \<in> set (w_tokens w). t_lookup_id k = t_lookup_id k' \<and>
           (t_version k < t_version k' \<or> (t_version k = t_version k' \<and> rules_of t k' = rules_of w k)))"
      by (intro disjI2 bexI [of _ k]) auto
  qed
qed

section \<open>Properties\<close>

text \<open>
  C22: deleting a credential cuts off its tokens: after a successful deletion the credential is
  gone, no token bound to it is active, so none of them resolves any more, and every other token
  and credential is as it was.
\<close>

theorem deletion_cuts_off_tokens:
  assumes "delete_credential E u cid w = (Inr (), t)"
  shows "cid \<notin> c_id ` set (w_credentials t)
     \<and> (\<forall>k \<in> set (w_tokens t). t_upstream_credential_id k = cid \<longrightarrow> t_status k \<noteq> ''active'')
     \<and> (\<forall>k. t_upstream_credential_id k \<noteq> cid \<longrightarrow> k \<in> set (w_tokens t) \<longleftrightarrow> k \<in> set (w_tokens w))
     \<and> (\<forall>c. c_id c \<noteq> cid \<longrightarrow> c \<in> set (w_credentials t) \<longleftrightarrow> c \<in> set (w_credentials w))
     \<and> (\<forall>full ctx t'. resolve_scoped_token E full t = (Inr (Some ctx), t') \<longrightarrow> t_upstream_credential_id (x_token ctx) \<noteq> cid)"
proof -
  obtain v where v: "same_but_redis w v" "t = (deletion cid (utcnow w) v)\<lparr>w_commits := Suc (w_commits v)\<rparr>"
    using delete_credential_owned [OF assms(1)] by metis
  note f = same_but_redis_fields [OF v(1)]
  have gone: "cid \<notin> c_id ` set (w_credentials t)" using v(2) by auto
  have "t_upstream_credential_id (x_token ctx) \<noteq> cid" if "resolve_scoped_token E full t = (Inr (Some ctx), t')" for full ctx t'
  proof -
    have "find (\<lambda>c. c_id c = t_upstream_credential_id (x_token ctx)) (w_credentials t) = Some (x_credential ctx)"
      using that by (rule resolve_someD)
    from find_SomeD [OF this] gone show ?thesis by (metis imageI)
  qed
  moreover have tk: "set (w_tokens t) = (\<lambda>k. if dependent_token cid k then revoke_row (utcnow w) k else k) ` set (w_tokens w)"
    unfolding v(2) by (simp add: f(1))
  moreover have "t_status k \<noteq> ''active''" if k: "k \<in> set (w_tokens t)" "t_upstream_credential_id k = cid" for k
  proof -
    obtain x where x: "k = (if dependent_token cid x then revoke_row (utcnow w) x else x)" using k(1) unfolding tk by blast
    show ?thesis
    proof (cases "dependent_token cid x")
      case False
      with x have "k = x" by simp
      with False k(2) show ?thesis by (simp add: dependent_token_def)
    qed (simp add: x)
  qed
  moreover have "k \<in> set (w_tokens t) \<longleftrightarrow> k \<in> set (w_tokens w)" if "t_upstream_credential_id k \<noteq> cid" for k
  proof -
    have "k \<in> set (w_tokens t) \<longleftrightarrow> (\<exists>x \<in> set (w_tokens w). k = (if dependent_token cid x then revoke_row (utcnow w) x else x))"
      unfolding tk by (simp only: image_iff)
    also have "\<dots> \<longleftrightarrow> k \<in> set (w_tokens w)"
      using that by (metis dependent_token_def revoke_row_sel(3))
    finally show ?thesis .
  qed
  moreover have "c \<in> set (w_credentials t) \<longleftrightarrow> c \<in> set (w_credentials w)" if "c_id c \<noteq> cid" for c
    using that v(2) f(3) by simp
  ultimately show ?thesis using gone by blast
qed

text \<open>
  C37: on MySQL a credential that any token was ever minted for cannot be deleted: the cascade only
  revokes the tokens, whose rows keep referring to the credential, so the foreign key makes the
  transaction fail and every token of the credential stays as it was, active ones included.
\<close>

theorem deletion_blocked_by_token_rows:
  assumes "e_mysql E" and "\<forall>n. e_commit_ok E n"
    and "c \<in> set (w_credentials w)" and "k \<in> set (w_tokens w)" and "t_upstream_credential_id k = c_id c"
  shows "\<exists>t. delete_credential E (c_user_id c) (c_id c) w = (Inl IntegrityError, t)
     \<and> w_tokens t = w_tokens w \<and> w_credentials t = w_credentials w"
proof -
  obtain v where v: "same_but_redis w v"
    "delete_credential E (c_user_id c) (c_id c) w = commit_db E (deletion (c_id c) (utcnow w)) v"
    using delete_credential_run [OF assms(3)] by blast
  note f = same_but_redis_fields [OF v(1)]
  define k' where "k' = (if dependent_token (c_id c) k then revoke_row (utcnow w) k else k)"
  have "k' \<in> set (w_tokens (deletion (c_id c) (utcnow w) v))" using assms(4) f(1) by (simp add: k'_def)
  moreover have "t_upstream_credential_id k' \<notin> c_id ` set (w_credentials (deletion (c_id c) (utcnow w) v))"
    using assms(5) by (auto simp: k'_def)
  ultimately have "\<not> foreign_keys_ok (deletion (c_id c) (utcnow w) v)" unfolding foreign_keys_ok_def by blast
  then show ?thesis
    using assms(1,2) v(2) f(1,3) by (simp add: commit_db_def Let_def constraints_ok_def)
qed

section \<open>Witnesses\<close>

definition sqlite_env :: env where
  "sqlite_env = demo_env\<lparr>e_mysql := False\<rparr>"

theorem deletion_cuts_off_tokens_witness:
  "\<exists>t. delete_credential sqlite_env ''user1'' ''cred1'' demo_world = (Inr (), t)
     \<and> ''cred1'' \<notin> c_id ` set (w_credentials t)
     \<and> (\<forall>k \<in> set (w_tokens t). t_upstream_credential_id k = ''cred1'' \<longrightarrow> t_status k \<noteq> ''active'')"
proof -
  let ?run = "delete_credential sqlite_env ''user1'' ''cred1'' demo_world"
  have "case fst ?run of Inl _ \<Rightarrow> False | Inr u \<Rightarrow> True" by code_simp
  then have "fst ?run = Inr ()" by (simp split: sum.splits)
  then obtain t where run: "?run = (Inr (), t)" by (metis prod.collapse)
  from deletion_cuts_off_tokens [OF run] run show ?thesis by blast
qed

theorem deletion_blocked_by_token_rows_witness:
  "\<exists>t. delete_credential demo_env ''user1'' ''cred1'' demo_world = (Inl IntegrityError, t) \<and> w_tokens t = [demo_token]"
proof -
  have m: "e_mysql demo_env" "\<forall>n. e_commit_ok demo_env n" by (simp_all add: demo_env_def)
  have c: "demo_credential \<in> set (w_credentials demo_world)" by (simp add: demo_world_def)
  have k: "demo_token \<in> set (w_tokens demo_world)" by (simp add: demo_world_def)
  have r: "t_upstream_credential_id demo_token = c_id demo_credential" by (simp add: demo_token_def demo_credential_def)
  have i: "c_user_id demo_credential = ''user1''" "c_id demo_credential = ''cred1''" by (simp_all add: demo_credential_def)
  obtain t where "delete_credential demo_env ''user1'' ''cred1'' demo_world = (Inl IntegrityError, t)" "w_tokens t = w_tokens demo_world"
    using deletion_blocked_by_token_rows [OF m c k r] unfolding i by blast
  moreover have "w_tokens demo_world = [demo_token]" by (simp add: demo_world_def)
  ultimately show ?thesis by simp
qed

end
