(* ===== verification/TokenService.thy ===== *)
theory TokenService
  imports CredentialService
begin

text \<open>
  \<^verbatim>\<open>services/token_service.py\<close>: minting, inspecting, rotating and revoking scoped tokens. Every
  change of a token bumps its version, which is what keeps the rules cache coherent.
\<close>

section \<open>Definitions\<close>

text \<open>
  A requested rule (\<^verbatim>\<open>ScopeRuleRequest.model_dump()\<close>): the fields of a rule and the content lock;
  after the dump every key is present.
\<close>

record rule_request = rule +
  content_lock :: "string option"

text \<open>The zone name of an id, and the memo of the names asked for in this call\<close>

definition resolve_zone_name ::
  "env \<Rightarrow> string \<Rightarrow> (string \<times> string) list \<Rightarrow> (string \<times> json) list \<Rightarrow> (world, json \<times> (string \<times> json) list) prog" where
  "resolve_zone_name E zone_id auth_headers memo =
     (case map_of memo zone_id of
        Some name \<Rightarrow> return (name, memo)
      | None \<Rightarrow>
          bind (forward_request E ''GET'' (''/client/v4/zones/'' @ zone_id) [] [] None auth_headers) (\<lambda>response.
            if p_status response = 404 then raise (ValueError (''zone '' @ py_repr zone_id @ '' not found upstream''))
            else
              bind (lift (raise_for_status response)) (\<lambda>_.
              bind (lift (response_json response)) (\<lambda>j.
              bind (lift (subscript j ''result'')) (\<lambda>result.
              bind (lift (subscript result ''name'')) (\<lambda>name.
                return (name, (zone_id, name) # memo)))))))"

definition has_pattern :: "('a rule_scheme) \<Rightarrow> bool" where
  "has_pattern r \<longleftrightarrow> \<not> falsy_str (rule_name_pattern r)"

definition has_record_ids :: "('a rule_scheme) \<Rightarrow> bool" where
  "has_record_ids r \<longleftrightarrow> rule_record_ids r \<noteq> None \<and> rule_record_ids r \<noteq> Some []"

text \<open>The loop over the requested rules; the headers are resolved at the first pattern.\<close>

fun validate_rules_loop ::
  "env \<Rightarrow> credential \<Rightarrow> rule_request list \<Rightarrow> (string \<times> string) list option \<Rightarrow> (string \<times> json) list \<Rightarrow> (world, unit) prog" where
  "validate_rules_loop E cred [] auth_headers memo = return ()"
| "validate_rules_loop E cred (r # rs) auth_headers memo =
     (if \<not> has_pattern r \<and> \<not> has_record_ids r then raise (ValueError ''each scope rule requires a name_pattern or record_ids'')
      else if has_pattern r then
        bind (case auth_headers of None \<Rightarrow> resolve_upstream_auth E cred | Some a \<Rightarrow> return a) (\<lambda>auth.
        bind (resolve_zone_name E (rule_zone_id r) auth memo) (\<lambda>(name, memo').
        bind (lift (as_str name)) (\<lambda>zone_name.
        bind (lift (validate_name_pattern (e_idna E) (the (rule_name_pattern r)) (rule_name_match r) zone_name)) (\<lambda>_.
          validate_rules_loop E cred rs (Some auth) memo'))))
      else validate_rules_loop E cred rs auth_headers memo)"

definition validate_scope_rules :: "env \<Rightarrow> credential \<Rightarrow> rule_request list \<Rightarrow> (world, unit) prog" where
  "validate_scope_rules E cred scope_rules =
     (if scope_rules = [] then raise (ValueError ''at least one scope rule is required'')
      else validate_rules_loop E cred scope_rules None [])"

definition rule_row :: "string \<Rightarrow> string \<Rightarrow> datetime \<Rightarrow> rule_request \<Rightarrow> scope_rule" where
  "rule_row i token_id now r = rule.extend (rule.truncate r)
     \<lparr>r_id = i, r_scoped_token_id = token_id, r_content_lock = content_lock r, r_created_at = now\<rparr>"

fun rule_rows :: "env \<Rightarrow> string \<Rightarrow> datetime \<Rightarrow> rule_request list \<Rightarrow> (world, scope_rule list) prog" where
  "rule_rows E token_id now [] = return []"
| "rule_rows E token_id now (r # rs) =
     bind (new_uuid E) (\<lambda>i. bind (rule_rows E token_id now rs) (\<lambda>rows. return (rule_row i token_id now r # rows)))"

text \<open>
  The token row and its rules are one transaction: the intermediate flush checks the same
  constraints that the commit does, and a failure of either leaves no row.
\<close>

definition mint_scoped_token ::
  "env \<Rightarrow> string \<Rightarrow> string \<Rightarrow> string \<Rightarrow> rule_request list \<Rightarrow> datetime option \<Rightarrow> (world, scoped_token \<times> string) prog" where
  "mint_scoped_token E user_id name upstream_credential_id scope_rules expires_at =
     bind (get_owned_credential user_id upstream_credential_id) (\<lambda>cred.
     bind (validate_scope_rules E cred scope_rules) (\<lambda>_.
     bind (generate_scoped_token E) (\<lambda>generated.
     bind (new_uuid E) (\<lambda>i.
     bind (gets utcnow) (\<lambda>now.
     bind (rule_rows E i now scope_rules) (\<lambda>rows.
       let row = \<lparr>t_id = i, t_user_id = user_id, t_upstream_credential_id = upstream_credential_id, t_name = name,
                  t_lookup_id = g_lookup_id generated, t_token_prefix = g_token_prefix generated,
                  t_token_hash = g_token_hash generated, t_version = 1, t_status = ''active'', t_expires_at = expires_at,
                  t_last_used_at = None, t_created_at = now, t_revoked_at = None\<rparr>
       in bind (commit_db E (\<lambda>w. w\<lparr>w_tokens := w_tokens w @ [row], w_rules := w_rules w @ rows\<rparr>)) (\<lambda>_.
            return (row, g_full generated))))))))"

definition get_owned_scoped_token :: "string \<Rightarrow> string \<Rightarrow> (world, scoped_token) prog" where
  "get_owned_scoped_token user_id token_id =
     bind (gets (\<lambda>w. find (\<lambda>k. t_id k = token_id \<and> t_user_id k = user_id) (w_tokens w))) (\<lambda>row.
       (case row of
          None \<Rightarrow> raise (NotFoundError (''scoped token '' @ py_repr token_id @ '' not found''))
        | Some tok \<Rightarrow> return tok))"

definition list_scoped_tokens :: "string \<Rightarrow> world \<Rightarrow> scoped_token list" where
  "list_scoped_tokens user_id w = filter (\<lambda>k. t_user_id k = user_id) (w_tokens w)"

definition get_scoped_token_detail :: "string \<Rightarrow> string \<Rightarrow> (world, scoped_token \<times> scope_rule list) prog" where
  "get_scoped_token_detail user_id token_id =
     bind (get_owned_scoped_token user_id token_id) (\<lambda>tok.
     bind (gets (\<lambda>w. rules_of w tok)) (\<lambda>rules. return (tok, rules)))"

definition update_token :: "string \<Rightarrow> (scoped_token \<Rightarrow> scoped_token) \<Rightarrow> world \<Rightarrow> world" where
  "update_token i f w = w\<lparr>w_tokens := map (\<lambda>k. if t_id k = i then f k else k) (w_tokens w)\<rparr>"

definition rotate_row :: "generated \<Rightarrow> scoped_token \<Rightarrow> scoped_token" where
  "rotate_row g k = k\<lparr>t_lookup_id := g_lookup_id g, t_token_prefix := g_token_prefix g, t_token_hash := g_token_hash g,
     t_version := t_version k + 1\<rparr>"

definition rotate_scoped_token :: "env \<Rightarrow> string \<Rightarrow> string \<Rightarrow> (world, scoped_token \<times> string) prog" where
  "rotate_scoped_token E user_id token_id =
     bind (get_owned_scoped_token user_id token_id) (\<lambda>tok.
     bind (generate_scoped_token E) (\<lambda>generated.
     bind (commit_db E (update_token token_id (rotate_row generated))) (\<lambda>_.
     bind (cache_del E [rules_key (t_lookup_id tok) (t_version tok)]) (\<lambda>_.
       return (rotate_row generated tok, g_full generated)))))"

definition revoke_scoped_token :: "env \<Rightarrow> string \<Rightarrow> string \<Rightarrow> (world, unit) prog" where
  "revoke_scoped_token E user_id token_id =
     bind (get_owned_scoped_token user_id token_id) (\<lambda>tok.
     bind (gets utcnow) (\<lambda>now.
     bind (commit_db E (update_token token_id (revoke_row now))) (\<lambda>_.
       cache_del E [rules_key (t_lookup_id tok) (t_version tok)])))"

interpretation tokens: owned_lookup get_owned_scoped_token w_tokens t_id t_user_id
  "\<lambda>i. NotFoundError (''scoped token '' @ py_repr i @ '' not found'')"
  by (rule owned_lookup_select) (simp add: get_owned_scoped_token_def bind_app split: option.splits)

section \<open>Lemmas\<close>

lemma update_token_sel [simp]:
  "w_tokens (update_token i f w) = map (\<lambda>k. if t_id k = i then f k else k) (w_tokens w)"
  "w_rules (update_token i f w) = w_rules w" "w_credentials (update_token i f w) = w_credentials w"
  "live_json (update_token i f w) = live_json w"
  by (simp_all add: update_token_def)

lemma rotate_row_sel [simp]:
  "t_id (rotate_row g k) = t_id k" "t_version (rotate_row g k) = t_version k + 1" "t_status (rotate_row g k) = t_status k"
  "t_token_hash (rotate_row g k) = g_token_hash g" "t_lookup_id (rotate_row g k) = g_lookup_id g"
  "t_upstream_credential_id (rotate_row g k) = t_upstream_credential_id k" "t_expires_at (rotate_row g k) = t_expires_at k"
  by (simp_all add: rotate_row_def)

text \<open>A successful change of one token: the tables it leaves, and that the cache only lost entries.\<close>

definition token_changed :: "string \<Rightarrow> (scoped_token \<Rightarrow> scoped_token) \<Rightarrow> world \<Rightarrow> world \<Rightarrow> bool" where
  "token_changed i f w t \<longleftrightarrow>
     w_tokens t = map (\<lambda>k. if t_id k = i then f k else k) (w_tokens w)
     \<and> w_rules t = w_rules w \<and> w_credentials t = w_credentials w \<and> tokens_ok (w_tokens t)
     \<and> (\<forall>k x. live_json t k = Some x \<longrightarrow> live_json w k = Some x)"

lemma token_changed_rand: "token_changed i f (w\<lparr>w_rand := n\<rparr>) t = token_changed i f w t"
  by (simp add: token_changed_def)

lemma commit_then_del:
  assumes "commit_db E (update_token i f) w = (Inr (), v)" and "cache_del E ks v = (Inr (), t)"
  shows "token_changed i f w t"
proof -
  have v: "v = (update_token i f w)\<lparr>w_commits := Suc (w_commits w)\<rparr>" "constraints_ok E (update_token i f w)"
    using assms(1) by (auto elim: commit_db_cases)
  obtain t' where "cache_del E ks v = (Inr (), t')" "same_but_redis v t'" "\<forall>k x. live_json t' k = Some x \<longrightarrow> live_json v k = Some x"
    using cache_del_frame by blast
  with assms(2) have t: "same_but_redis v t" "\<forall>k x. live_json t k = Some x \<longrightarrow> live_json v k = Some x" by simp_all
  note f = same_but_redis_fields [OF t(1)]
  show ?thesis using t(2) v f by (simp add: token_changed_def constraints_ok_def)
qed

lemma rotate_changed:
  assumes "rotate_scoped_token E u i w = (Inr (row, full), t)"
  obtains g tok where "tok \<in> set (w_tokens w)" and "t_id tok = i" and "t_user_id tok = u" and "row = rotate_row g tok"
    and "full = g_full g" and "generate_scoped_token E w = (Inr g, w\<lparr>w_rand := w_rand w + (LOOKUP_ID_LEN + SECRET_LEN)\<rparr>)"
    and "token_changed i (rotate_row g) w t"
proof -
  obtain tok where tok: "tok \<in> set (w_tokens w)" "t_id tok = i" "t_user_id tok = u"
    and rest: "bind (generate_scoped_token E) (\<lambda>generated.
     bind (commit_db E (update_token i (rotate_row generated))) (\<lambda>_.
     bind (cache_del E [rules_key (t_lookup_id tok) (t_version tok)]) (\<lambda>_.
       return (rotate_row generated tok, g_full generated)))) w = (Inr (row, full), t)"
    using assms unfolding rotate_scoped_token_def by (rule tokens.op_owned)
  let ?w = "w\<lparr>w_rand := w_rand w + (LOOKUP_ID_LEN + SECRET_LEN)\<rparr>"
  obtain g where g: "generate_scoped_token E w = (Inr g, ?w)" using generate_scoped_token_spec by blast
  obtain v v' where c: "commit_db E (update_token i (rotate_row g)) ?w = (Inr (), v)"
    and d: "cache_del E [rules_key (t_lookup_id tok) (t_version tok)] v = (Inr (), v')"
    and r: "row = rotate_row g tok" "full = g_full g" "t = v'"
    using rest g by (auto simp: bind_app bind_Inr_iff split: prod.splits sum.splits)
  have "token_changed i (rotate_row g) ?w t" using commit_then_del [OF c d] r by simp
  then have "token_changed i (rotate_row g) w t" by (simp only: token_changed_rand)
  with that [OF tok r(1,2) g] show thesis by blast
qed

lemma revoke_changed:
  assumes "revoke_scoped_token E u i w = (Inr (), t)"
  shows "token_changed i (revoke_row (utcnow w)) w t"
proof -
  obtain tok where "tok \<in> set (w_tokens w)" "t_id tok = i" "t_user_id tok = u" and "bind (gets utcnow) (\<lambda>now.
     bind (commit_db E (update_token i (revoke_row now))) (\<lambda>_.
       cache_del E [rules_key (t_lookup_id tok) (t_version tok)])) w = (Inr (), t)"
    using assms unfolding revoke_scoped_token_def by (rule tokens.op_owned)
  from this(4) obtain v where "commit_db E (update_token i (revoke_row (utcnow w))) w = (Inr (), v)"
    and "cache_del E [rules_key (t_lookup_id tok) (t_version tok)] v = (Inr (), t)"
    by (auto simp: bind_Inr_iff)
  then show ?thesis by (rule commit_then_del)
qed

text \<open>Changing one token keeps the rules cache coherent when its version grows and its lookup id is kept or new.\<close>

lemma token_changed_coherent:
  assumes ch: "token_changed i f w t" and coh: "rules_coherent w"
    and f: "\<And>k. k \<in> set (w_tokens w) \<Longrightarrow> t_id k = i \<Longrightarrow>
      t_lookup_id (f k) = t_lookup_id k \<and> t_version k < t_version (f k) \<or> (\<forall>n. live_json w (rules_key (t_lookup_id (f k)) n) = None)"
  shows "rules_coherent t"
proof (rule rules_coherent_step [OF coh])
  show "live_json t k = Some v \<Longrightarrow> live_json w k = Some v" for k v using ch by (simp add: token_changed_def)
next
  fix k' assume "k' \<in> set (w_tokens t)"
  then obtain k where k: "k \<in> set (w_tokens w)" "k' = (if t_id k = i then f k else k)"
    using ch by (auto simp: token_changed_def)
  have same: "rules_of t k = rules_of w k" using ch by (simp add: token_changed_def rules_of_def)
  show "(\<forall>n. live_json w (rules_key (t_lookup_id k') n) = None)
      \<or> (\<exists>k \<in> set (w_tokens w). t_lookup_id k = t_lookup_id k' \<and>
           (t_version k < t_version k' \<or> (t_version k = t_version k' \<and> rules_of t k' = rules_of w k)))"
  proof (cases "t_id k = i")
    case True
    with f [OF k(1)] k show ?thesis by fastforce
  next
    case False
    with k same show ?thesis by (intro disjI2 bexI [of _ k]) simp_all
  qed
qed

lemma changed_find:
  assumes "token_changed i f w t" and "k' \<in> set (w_tokens t)" and "t_id k' = i" and "\<And>k. t_id (f k) = t_id k"
  obtains k where "k \<in> set (w_tokens w)" and "t_id k = i" and "k' = f k"
  using assms by (auto simp: token_changed_def split: if_splits)

lemma keeps_frame_validate_loop: "upstream_frame P \<Longrightarrow> keeps P (validate_rules_loop E cred rs auth memo)"
proof (induction rs arbitrary: auth memo)
  case Nil
  show ?case by (simp only: validate_rules_loop.simps) (rule keeps_return)
next
  case (Cons r rs)
  show ?case
    unfolding validate_rules_loop.simps resolve_zone_name_def
    by (intro keeps_intros keeps_frame_resolve keeps_frame_forward Cons)
qed

lemma keeps_frame_validate: "upstream_frame P \<Longrightarrow> keeps P (validate_scope_rules E cred rs)"
  unfolding validate_scope_rules_def by (intro keeps_intros keeps_frame_validate_loop)

lemma validate_rules_loop_checks:
  "validate_rules_loop E cred rs auth memo w = (Inr (), t) \<Longrightarrow> r \<in> set rs \<Longrightarrow>
     (has_pattern r \<or> has_record_ids r)
     \<and> (has_pattern r \<longrightarrow> (\<exists>zone. validate_name_pattern (e_idna E) (the (rule_name_pattern r)) (rule_name_match r) zone = Inr ()))"
proof (induction rs arbitrary: auth memo w)
  case (Cons r' rs)
  show ?case
  proof (cases "has_pattern r'")
    case True
    then obtain a m z v where val: "validate_name_pattern (e_idna E) (the (rule_name_pattern r')) (rule_name_match r') z = Inr ()"
      and rest: "validate_rules_loop E cred rs a m v = (Inr (), t)"
      using Cons.prems(1) by (auto simp: bind_Inr_iff)
    show ?thesis using Cons.IH [OF rest] Cons.prems(2) True val by auto
  next
    case False
    then have ids: "has_record_ids r'" and rest: "validate_rules_loop E cred rs auth memo w = (Inr (), t)"
      using Cons.prems(1) by (auto split: if_splits)
    show ?thesis using Cons.IH [OF rest] Cons.prems(2) False ids by auto
  qed
qed simp

lemma rule_rows_run:
  "\<exists>rows n. rule_rows E i now rs w = (Inr rows, w\<lparr>w_rand := n\<rparr>) \<and> map rule.truncate rows = map rule.truncate rs
     \<and> (\<forall>r \<in> set rows. r_scoped_token_id r = i)"
proof (induction rs arbitrary: w)
  case Nil
  show ?case by (intro exI [of _ "[]"] exI [of _ "w_rand w"]) simp
next
  case (Cons r rs)
  obtain rows n where "rule_rows E i now rs (w\<lparr>w_rand := Suc (w_rand w)\<rparr>) = (Inr rows, w\<lparr>w_rand := n\<rparr>)"
    "map rule.truncate rows = map rule.truncate rs" "\<forall>r \<in> set rows. r_scoped_token_id r = i"
    using Cons [of "w\<lparr>w_rand := Suc (w_rand w)\<rparr>"] by auto
  moreover have "rule.truncate (rule_row j i now r) = rule.truncate r" for j
    by (simp add: rule_row_def rule.truncate_def rule.extend_def)
  ultimately show ?case
    by (intro exI [of _ "rule_row (e_uuid E (w_rand w)) i now r # rows"] exI [of _ n])
      (simp add: bind_app new_uuid_def rule_row_def rule.extend_def)
qed

text \<open>What a successful mint read, drew and wrote\<close>

lemma mint_run:
  assumes "mint_scoped_token E u name up rs ex w = (Inr (row, full), t)"
  obtains cred w1 n j where "cred \<in> set (w_credentials w)" and "c_id cred = up" and "c_user_id cred = u"
    and "validate_scope_rules E cred rs w = (Inr (), w1)"
    and "row = \<lparr>t_id = e_uuid E n, t_user_id = u, t_upstream_credential_id = up, t_name = name,
       t_lookup_id = t_lookup_id row, t_token_prefix = t_token_prefix row, t_token_hash = hash_token E full, t_version = 1,
       t_status = ''active'', t_expires_at = ex, t_last_used_at = None, t_created_at = t_created_at row, t_revoked_at = None\<rparr>"
    and "\<exists>g. generate_scoped_token E w1 = (Inr g, w1\<lparr>w_rand := w_rand w1 + (LOOKUP_ID_LEN + SECRET_LEN)\<rparr>)
          \<and> t_lookup_id row = g_lookup_id g \<and> full = g_full g"
    and "\<exists>rows m. map rule.truncate rows = map rule.truncate rs \<and> (\<forall>r \<in> set rows. r_scoped_token_id r = t_id row)
          \<and> w_tokens t = w_tokens w1 @ [row] \<and> w_rules t = w_rules w1 @ rows \<and> w_credentials t = w_credentials w1
          \<and> live_json t = live_json w1 \<and> constraints_ok E t"
proof -
  obtain cred where cred: "cred \<in> set (w_credentials w)" "c_id cred = up" "c_user_id cred = u"
    and rest: "bind (validate_scope_rules E cred rs) (\<lambda>_.
     bind (generate_scoped_token E) (\<lambda>generated.
     bind (new_uuid E) (\<lambda>i.
     bind (gets utcnow) (\<lambda>now.
     bind (rule_rows E i now rs) (\<lambda>rows.
       let row = \<lparr>t_id = i, t_user_id = u, t_upstream_credential_id = up, t_name = name,
                  t_lookup_id = g_lookup_id generated, t_token_prefix = g_token_prefix generated,
                  t_token_hash = g_token_hash generated, t_version = 1, t_status = ''active'', t_expires_at = ex,
                  t_last_used_at = None, t_created_at = now, t_revoked_at = None\<rparr>
       in bind (commit_db E (\<lambda>w. w\<lparr>w_tokens := w_tokens w @ [row], w_rules := w_rules w @ rows\<rparr>)) (\<lambda>_.
            return (row, g_full generated))))))) w = (Inr (row, full), t)"
    using assms unfolding mint_scoped_token_def by (rule creds.op_owned)
  then obtain w1 where val: "validate_scope_rules E cred rs w = (Inr (), w1)" by (auto simp: bind_Inr_iff)
  let ?w2 = "w1\<lparr>w_rand := w_rand w1 + (LOOKUP_ID_LEN + SECRET_LEN)\<rparr>"
  obtain g where g: "generate_scoped_token E w1 = (Inr g, ?w2)" and hash: "g_token_hash g = hash_token E (g_full g)"
    using generate_scoped_token_spec [of E w1] by (auto simp: build_token_def Let_def)
  define i where "i = e_uuid E (w_rand ?w2)"
  let ?w3 = "?w2\<lparr>w_rand := Suc (w_rand ?w2)\<rparr>"
  obtain rows m where rows: "rule_rows E i (utcnow ?w3) rs ?w3 = (Inr rows, ?w3\<lparr>w_rand := m\<rparr>)"
    "map rule.truncate rows = map rule.truncate rs" "\<forall>r \<in> set rows. r_scoped_token_id r = i"
    using rule_rows_run by blast
  define row' where "row' = \<lparr>t_id = i, t_user_id = u, t_upstream_credential_id = up, t_name = name,
                  t_lookup_id = g_lookup_id g, t_token_prefix = g_token_prefix g,
                  t_token_hash = g_token_hash g, t_version = 1, t_status = ''active'', t_expires_at = ex,
                  t_last_used_at = None, t_created_at = utcnow ?w3, t_revoked_at = None\<rparr>"
  have "bind (commit_db E (\<lambda>w. w\<lparr>w_tokens := w_tokens w @ [row'], w_rules := w_rules w @ rows\<rparr>))
      (\<lambda>_. return (row', g_full g)) (?w3\<lparr>w_rand := m\<rparr>) = (Inr (row, full), t)"
    using rest val g rows(1) by (simp add: bind_app new_uuid_def i_def row'_def Let_def)
  then have row: "row = row'" "full = g_full g"
    and c: "commit_db E (\<lambda>w. w\<lparr>w_tokens := w_tokens w @ [row'], w_rules := w_rules w @ rows\<rparr>) (?w3\<lparr>w_rand := m\<rparr>) = (Inr (), t)"
    by (auto simp: bind_Inr_iff)
  have t: "w_tokens t = w_tokens w1 @ [row]" "w_rules t = w_rules w1 @ rows" "w_credentials t = w_credentials w1"
    "live_json t = live_json w1" "constraints_ok E t"
    using c unfolding row by (auto elim!: commit_db_cases)
  show thesis
    by (rule that [OF cred val, of "w_rand ?w2"]) (use row t rows g hash in \<open>auto simp: row'_def i_def\<close>)
qed

section \<open>Properties\<close>

text \<open>
  Revocation is final for every copy of the token: after a successful revocation no string at
  all resolves to that token, the versions of the cache keys have moved on, and the rules cache
  stays coherent even if Redis lost the deletion.
\<close>

theorem revoked_token_never_resolves:
  assumes "revoke_scoped_token E u i w = (Inr (), t)" and "rules_coherent w"
  shows "rules_coherent t \<and> (\<forall>full ctx t'. resolve_scoped_token E full t = (Inr (Some ctx), t') \<longrightarrow> t_id (x_token ctx) \<noteq> i)"
proof
  note ch = revoke_changed [OF assms(1)]
  show "rules_coherent t" by (rule token_changed_coherent [OF ch assms(2)]) simp
  show "\<forall>full ctx t'. resolve_scoped_token E full t = (Inr (Some ctx), t') \<longrightarrow> t_id (x_token ctx) \<noteq> i"
  proof (intro allI impI notI)
    fix full ctx t' assume r: "resolve_scoped_token E full t = (Inr (Some ctx), t')" and i: "t_id (x_token ctx) = i"
    obtain k where "x_token ctx = revoke_row (utcnow w) k"
      using changed_find [OF ch resolve_tokenD(1) [OF r] i] by auto
    with resolve_tokenD(3) [OF r] show False by simp
  qed
qed



text \<open>
  Nothing unvalidated is minted: a successful mint had at least one rule, every rule names a
  pattern or record ids, and every pattern passed \<open>validate_name_pattern\<close> against some zone name
  that Cloudflare gave.
\<close>

theorem minted_rules_validated:
  assumes "mint_scoped_token E u name up rs ex w = (Inr (row, full), t)"
  shows "rs \<noteq> [] \<and> (\<forall>r \<in> set rs. (has_pattern r \<or> has_record_ids r)
     \<and> (has_pattern r \<longrightarrow> (\<exists>zone. validate_name_pattern (e_idna E) (the (rule_name_pattern r)) (rule_name_match r) zone = Inr ())))"
proof -
  obtain cred w1 where "validate_scope_rules E cred rs w = (Inr (), w1)" using assms by (rule mint_run)
  then have "rs \<noteq> []" and "validate_rules_loop E cred rs None [] w = (Inr (), w1)"
    by (auto simp: validate_scope_rules_def split: if_splits)
  with validate_rules_loop_checks show ?thesis by blast
qed

section \<open>Witnesses\<close>

lemma constant_tape:
  assumes "\<forall>n. e_tape E n = 0"
  shows "generate_scoped_token E w = (Inr (build_token E (replicate LOOKUP_ID_LEN CHR ''A'') (replicate SECRET_LEN CHR ''A'')),
     w\<lparr>w_rand := w_rand w + (LOOKUP_ID_LEN + SECRET_LEN)\<rparr>)"
proof -
  have "TOKEN_ALPHABET ! 0 = CHR ''A''" by (simp add: TOKEN_ALPHABET_def)
  then have "generate_random_string E n w = (Inr (replicate n CHR ''A''), w\<lparr>w_rand := w_rand w + n\<rparr>)" for n w
    using assms by (induction n arbitrary: w) (simp_all add: bind_app secrets_choice_def)
  then show ?thesis by (simp add: generate_scoped_token_def bind_app add.assoc)
qed

text \<open>An environment whose random tape is constant, so that tokens are computed by unfolding.\<close>

definition zone_env :: env where
  "zone_env = demo_env\<lparr>e_tape := (\<lambda>n. 0),
     e_http := (\<lambda>tr q. Inr \<lparr>p_status = 200, p_json = Some (JObj [(''result'', JObj [(''name'', JStr ''example.com'')])])\<rparr>)\<rparr>"

lemma zone_env_tape: "\<forall>n. e_tape zone_env n = 0"
  by (simp add: zone_env_def)

lemma zone_env_up: "e_commit_ok zone_env n" "e_redis_up zone_env n"
  by (simp_all add: zone_env_def demo_env_def)

lemmas demo_rows = demo_world_def demo_user_def demo_credential_def demo_token_def demo_rule_def

lemmas constraint_defs = constraints_ok_def users_ok_def credentials_ok_def tokens_ok_def rules_ok_def foreign_keys_ok_def unique_opt_def

theorem revoked_token_never_resolves_witness:
  "\<exists>t. revoke_scoped_token demo_env ''user1'' ''tok1'' demo_world = (Inr (), t)
     \<and> (\<forall>full ctx t'. resolve_scoped_token demo_env full t = (Inr (Some ctx), t') \<longrightarrow> t_id (x_token ctx) \<noteq> ''tok1'')"
proof -
  let ?run = "revoke_scoped_token demo_env ''user1'' ''tok1'' demo_world"
  have "case fst ?run of Inl _ \<Rightarrow> False | Inr u \<Rightarrow> True" by code_simp
  from ran_ok [OF this] obtain y t where y: "?run = (Inr y, t)" by blast
  have "y = ()" by simp
  with y have run: "?run = (Inr (), t)" by blast
  from revoked_token_never_resolves [OF run demo_coherent(1)] run show ?thesis by blast
qed

lemma demo_rotation:
  "\<exists>row full t. rotate_scoped_token zone_env ''user1'' ''tok1'' demo_world = (Inr (row, full), t)"
proof -
  have owned: "get_owned_scoped_token ''user1'' ''tok1'' demo_world = (Inr demo_token, demo_world)"
    by (simp add: get_owned_scoped_token_def demo_rows bind_app)
  have "constraints_ok zone_env (update_token ''tok1'' (rotate_row g) (demo_world\<lparr>w_rand := n\<rparr>))" for g n
    by (simp add: constraint_defs demo_rows update_token_def rotate_row_def)
  then show ?thesis
    using owned by (simp add: rotate_scoped_token_def bind_app constant_tape [OF zone_env_tape] commit_db_def Let_def
        cache_del_run zone_env_up)
qed


definition demo_rule_request :: rule_request where
  "demo_rule_request = rule.extend (rule.truncate demo_rule) \<lparr>content_lock = None\<rparr>"

lemma demo_mint:
  "\<exists>row full t. mint_scoped_token zone_env ''user1'' ''ddns2'' ''cred1'' [demo_rule_request] None demo_world = (Inr (row, full), t)"
proof -
  have owned: "get_owned_credential ''user1'' ''cred1'' demo_world = (Inr demo_credential, demo_world)"
    by (simp add: get_owned_credential_def demo_rows bind_app)
  have auth: "resolve_upstream_auth zone_env demo_credential w = (Inr [(''Authorization'', ''Bearer cf-token'')], w)" for w
    by (rule demo_auth) (simp add: zone_env_def)
  have pin: "pinned zone_env" unfolding pinned_def by code_simp
  have http: "e_http zone_env tr q = Inr \<lparr>p_status = 200, p_json = Some (JObj [(''result'', JObj [(''name'', JStr ''example.com'')])])\<rparr>" for tr q
    by (simp add: zone_env_def)
  have pat: "has_pattern demo_rule_request" by code_simp
  have ok: "validate_name_pattern (e_idna zone_env) (the (rule_name_pattern demo_rule_request)) (rule_name_match demo_rule_request) ''example.com'' = Inr ()"
    by code_simp
  obtain w1 where val: "validate_scope_rules zone_env demo_credential [demo_rule_request] demo_world = (Inr (), w1)"
    and w1: "w_tokens w1 = w_tokens demo_world" "w_rules w1 = w_rules demo_world" "w_credentials w1 = w_credentials demo_world"
      "w_users w1 = w_users demo_world" "w_audit w1 = w_audit demo_world" "w_schema_versions w1 = w_schema_versions demo_world"
    using pat ok by (simp add: validate_scope_rules_def bind_app auth resolve_zone_name_def forward_request_run pin http
        raise_for_status_def response_json_def)
  define g where "g = build_token zone_env (replicate LOOKUP_ID_LEN CHR ''A'') (replicate SECRET_LEN CHR ''A'')"
  have g: "g_lookup_id g \<noteq> t_lookup_id demo_token" "g_token_hash g \<noteq> t_token_hash demo_token"
    unfolding g_def by code_simp+
  have uuid: "e_uuid zone_env n \<noteq> t_id demo_token" "e_uuid zone_env n \<noteq> r_id demo_rule" for n
    by (simp_all add: zone_env_def demo_env_def demo_token_def demo_rule_def)
  have con: "constraints_ok zone_env (w\<lparr>w_tokens := w_tokens demo_world @ [row], w_rules := w_rules demo_world @ [rule_row j i now demo_rule_request]\<rparr>)"
    if "w_credentials w = w_credentials demo_world" "w_users w = w_users demo_world" "w_audit w = w_audit demo_world"
      "w_schema_versions w = w_schema_versions demo_world" "t_id row = i" "i \<noteq> t_id demo_token" "j \<noteq> r_id demo_rule" "t_lookup_id row = g_lookup_id g" "t_token_hash row = g_token_hash g"
      "t_user_id row = ''user1''" "t_upstream_credential_id row = ''cred1''" for w row i j now
    using that g by (auto simp: constraint_defs demo_rows rule_row_def rule.extend_def)
  show ?thesis
    using owned val w1 by (simp add: mint_scoped_token_def bind_app constant_tape [OF zone_env_tape] commit_db_def Let_def
        zone_env_up new_uuid_def con uuid g_def [symmetric])
qed


theorem minted_rules_validated_witness:
  "\<exists>row full t. mint_scoped_token zone_env ''user1'' ''ddns2'' ''cred1'' [demo_rule_request] None demo_world = (Inr (row, full), t)
     \<and> (has_pattern demo_rule_request \<or> has_record_ids demo_rule_request)"
proof -
  obtain row full t where run: "mint_scoped_token zone_env ''user1'' ''ddns2'' ''cred1'' [demo_rule_request] None demo_world = (Inr (row, full), t)"
    using demo_mint by blast
  from minted_rules_validated [OF run] run show ?thesis by auto
qed

end
