(* ===== verification/Management.thy ===== *)
theory Management
  imports TokenService AuditService Envelopes
begin

text \<open>
  The management plane: \<^verbatim>\<open>get_current_user\<close> of \<^verbatim>\<open>core/security.py\<close>, the response schemas of
  \<^verbatim>\<open>schemas/management.py\<close> and the handlers of \<^verbatim>\<open>routers/credentials.py\<close>, \<^verbatim>\<open>routers/tokens.py\<close>
  and \<^verbatim>\<open>routers/audit.py\<close>. The JWT decoder and the rendering of time stamps belong to PyJWT and
  Pydantic and are arguments (\<open>decode\<close>, whose errors are the PyJWT errors, and \<open>fmt\<close>).
\<close>

section \<open>The authenticated user\<close>

text \<open>
  An \<^verbatim>\<open>HTTPException\<close> with a plain text detail is written with the code \<open>INTERNAL\<close>, the one that
  \<^verbatim>\<open>_http_exception_to_cf_response\<close> gives it.
\<close>

definition unauthorized :: "string \<Rightarrow> exn" where
  "unauthorized detail = HTTPException 401 INTERNAL detail"

text \<open>The argument \<open>credentials\<close> is the bearer token of the request, if it has one.\<close>

definition get_current_user :: "(string \<Rightarrow> json res) \<Rightarrow> string option \<Rightarrow> (world, user) prog" where
  "get_current_user decode credentials =
     (case credentials of
        None \<Rightarrow> raise (unauthorized ''Not authenticated'')
      | Some token \<Rightarrow>
          bind (catch (lift (decode token)) (\<lambda>_. raise (unauthorized ''Invalid or expired token''))) (\<lambda>payload.
          bind (lift (get payload ''sub'')) (\<lambda>user_id.
            if \<not> truthy user_id then raise (unauthorized ''Invalid token'')
            else
              bind (gets (\<lambda>w. find (\<lambda>u. JStr (u_id u) = user_id) (w_users w))) (\<lambda>row.
                (case row of
                   None \<Rightarrow> raise (unauthorized ''Invalid or inactive user'')
                 | Some u \<Rightarrow> if u_is_active u then return u else raise (unauthorized ''Invalid or inactive user''))))))"

section \<open>Response schemas\<close>

definition dt_opt :: "(datetime \<Rightarrow> string) \<Rightarrow> datetime option \<Rightarrow> json" where
  "dt_opt fmt d = json_opt (map_option fmt d)"

definition num_opt :: "int option \<Rightarrow> json" where
  "num_opt n = (case n of None \<Rightarrow> JNull | Some i \<Rightarrow> JNum i)"

definition credential_response_data :: "(datetime \<Rightarrow> string) \<Rightarrow> credential \<Rightarrow> json" where
  "credential_response_data fmt c = JObj [(''id'', JStr (c_id c)), (''label'', JStr (c_label c)), (''cred_type'', JStr (c_cred_type c)),
     (''cf_account_email'', json_opt (c_cf_account_email c)), (''verify_status'', json_opt (c_verify_status c)),
     (''verified_at'', dt_opt fmt (c_verified_at c)), (''created_at'', JStr (fmt (c_created_at c)))]"

definition token_fields :: "(datetime \<Rightarrow> string) \<Rightarrow> scoped_token \<Rightarrow> (string \<times> json) list" where
  "token_fields fmt k = [(''id'', JStr (t_id k)), (''name'', JStr (t_name k)), (''token_prefix'', JStr (t_token_prefix k)),
     (''status'', JStr (t_status k)), (''version'', JNum (t_version k)), (''expires_at'', dt_opt fmt (t_expires_at k)),
     (''last_used_at'', dt_opt fmt (t_last_used_at k)), (''created_at'', JStr (fmt (t_created_at k))),
     (''revoked_at'', dt_opt fmt (t_revoked_at k))]"

definition token_response_data :: "(datetime \<Rightarrow> string) \<Rightarrow> scoped_token \<Rightarrow> json" where
  "token_response_data fmt k = JObj (token_fields fmt k)"

definition rule_response_data :: "(datetime \<Rightarrow> string) \<Rightarrow> scope_rule \<Rightarrow> json" where
  "rule_response_data fmt r = JObj [(''id'', JStr (r_id r)), (''zone_id'', JStr (rule_zone_id r)),
     (''name_pattern'', json_opt (rule_name_pattern r)), (''name_match'', JStr (rule_name_match r)),
     (''record_types'', json_strs (rule_record_types r)),
     (''record_ids'', case rule_record_ids r of None \<Rightarrow> JNull | Some ids \<Rightarrow> json_strs ids),
     (''allow_read'', JBool (rule_allow_read r)), (''allow_create'', JBool (rule_allow_create r)),
     (''allow_write'', JBool (rule_allow_write r)), (''allow_delete'', JBool (rule_allow_delete r)),
     (''content_lock'', json_opt (r_content_lock r)), (''created_at'', JStr (fmt (r_created_at r)))]"

definition detail_response_data :: "(datetime \<Rightarrow> string) \<Rightarrow> scoped_token \<times> scope_rule list \<Rightarrow> json" where
  "detail_response_data fmt d = JObj (token_fields fmt (fst d) @ [(''rules'', JArr (map (rule_response_data fmt) (snd d)))])"

definition minted_response_data :: "(datetime \<Rightarrow> string) \<Rightarrow> scoped_token \<times> string \<Rightarrow> json" where
  "minted_response_data fmt m = JObj [(''id'', JStr (t_id (fst m))), (''name'', JStr (t_name (fst m))), (''token'', JStr (snd m)),
     (''token_prefix'', JStr (t_token_prefix (fst m))), (''expires_at'', dt_opt fmt (t_expires_at (fst m))),
     (''created_at'', JStr (fmt (t_created_at (fst m))))]"

definition rotated_response_data :: "scoped_token \<times> string \<Rightarrow> json" where
  "rotated_response_data m = JObj [(''id'', JStr (t_id (fst m))), (''token'', JStr (snd m)),
     (''token_prefix'', JStr (t_token_prefix (fst m))), (''version'', JNum (t_version (fst m)))]"

definition audit_response_data :: "(datetime \<Rightarrow> string) \<Rightarrow> audit_log \<Rightarrow> json" where
  "audit_response_data fmt a = JObj [(''id'', JStr (a_id a)), (''ts'', JStr (fmt (a_ts a))),
     (''scoped_token_id'', json_opt (a_scoped_token_id a)), (''token_prefix'', json_opt (a_token_prefix a)),
     (''method'', JStr (a_method a)), (''path'', JStr (a_path a)), (''zone_id'', json_opt (a_zone_id a)),
     (''record_id'', json_opt (a_record_id a)), (''record_name'', a_record_name a), (''record_type'', a_record_type a),
     (''decision'', JStr (a_decision a)), (''deny_reason'', json_opt (a_deny_reason a)),
     (''upstream_status'', num_opt (a_upstream_status a)), (''client_ip'', json_opt (a_client_ip a)),
     (''latency_ms'', num_opt (a_latency_ms a))]"

section \<open>Handlers\<close>

text \<open>\<^verbatim>\<open>str(exc)\<close>; the text of a codec or parser error is left out.\<close>

fun exn_text :: "exn \<Rightarrow> string" where
  "exn_text (ValueError s) = s"
| "exn_text (NotFoundError s) = s"
| "exn_text _ = []"

fun is_NotFound :: "exn \<Rightarrow> bool" where
  "is_NotFound (NotFoundError s) = True"
| "is_NotFound _ = False"

text \<open>\<^verbatim>\<open>except NotFoundError\<close>, and \<^verbatim>\<open>except ValueError\<close> where the handler has that clause as well\<close>

definition answer_errors :: "bool \<Rightarrow> (world, response) prog \<Rightarrow> (world, response) prog" where
  "answer_errors value_errors m = catch m (\<lambda>e.
     if is_NotFound e then return (make_response 404 (exn_text e) JNull)
     else if value_errors \<and> is_ValueError e then return (make_response 400 (exn_text e) JNull)
     else raise e)"

definition create_credential_endpoint ::
  "(datetime \<Rightarrow> string) \<Rightarrow> env \<Rightarrow> string \<Rightarrow> string \<Rightarrow> string option \<Rightarrow> string option \<Rightarrow> string option \<Rightarrow> user \<Rightarrow> (world, response) prog" where
  "create_credential_endpoint fmt E label cred_type api_token global_key cf_account_email u =
     catch (bind (register_credential E (u_id u) label cred_type api_token global_key cf_account_email) (\<lambda>c.
              return (make_response 201 ''Upstream credential registered'' (credential_response_data fmt c))))
       (\<lambda>e. if is_ValueError e then return (make_response 400 (exn_text e) JNull) else raise e)"

definition list_credentials_endpoint :: "(datetime \<Rightarrow> string) \<Rightarrow> user \<Rightarrow> (world, response) prog" where
  "list_credentials_endpoint fmt u = bind (gets (list_credentials (u_id u))) (\<lambda>cs.
     return (make_response 200 ''Upstream credentials listed'' (JArr (map (credential_response_data fmt) cs))))"

definition delete_credential_endpoint :: "env \<Rightarrow> string \<Rightarrow> user \<Rightarrow> (world, response) prog" where
  "delete_credential_endpoint E credential_id u = answer_errors False
     (bind (delete_credential E (u_id u) credential_id) (\<lambda>_. return (make_response 200 ''Upstream credential deleted'' JNull)))"

definition verify_credential_endpoint :: "(datetime \<Rightarrow> string) \<Rightarrow> env \<Rightarrow> string \<Rightarrow> user \<Rightarrow> (world, response) prog" where
  "verify_credential_endpoint fmt E credential_id u = answer_errors False
     (bind (verify_credential E (u_id u) credential_id) (\<lambda>c.
        return (make_response 200 ''Upstream credential verified'' (credential_response_data fmt c))))"

definition list_zones_endpoint :: "nat \<Rightarrow> env \<Rightarrow> string \<Rightarrow> user \<Rightarrow> (world, response) prog" where
  "list_zones_endpoint fuel E credential_id u = answer_errors False
     (bind (list_credential_zones fuel E (u_id u) credential_id) (\<lambda>zones. return (make_response 200 ''Zones listed'' zones)))"

definition zone_record_params :: "string option \<Rightarrow> string option \<Rightarrow> (string \<times> json) list" where
  "zone_record_params rtype name =
     (case rtype of None \<Rightarrow> [] | Some s \<Rightarrow> [(''type'', JStr s)]) @ (case name of None \<Rightarrow> [] | Some s \<Rightarrow> [(''name'', JStr s)])"

definition list_zone_records_endpoint ::
  "nat \<Rightarrow> env \<Rightarrow> string \<Rightarrow> string \<Rightarrow> string option \<Rightarrow> string option \<Rightarrow> user \<Rightarrow> (world, response) prog" where
  "list_zone_records_endpoint fuel E credential_id zone_id rtype name u = answer_errors False
     (bind (list_credential_zone_records fuel E (u_id u) credential_id zone_id (zone_record_params rtype name)) (\<lambda>records.
        return (make_response 200 ''DNS records listed'' (JArr records))))"

definition mint_scoped_token_endpoint ::
  "(datetime \<Rightarrow> string) \<Rightarrow> env \<Rightarrow> string \<Rightarrow> string \<Rightarrow> rule_request list \<Rightarrow> datetime option \<Rightarrow> user \<Rightarrow> (world, response) prog" where
  "mint_scoped_token_endpoint fmt E name upstream_credential_id scope_rules expires_at u = answer_errors True
     (bind (mint_scoped_token E (u_id u) name upstream_credential_id scope_rules expires_at) (\<lambda>minted.
        return (make_response 201 ''Scoped token minted'' (minted_response_data fmt minted))))"

definition list_scoped_tokens_endpoint :: "(datetime \<Rightarrow> string) \<Rightarrow> user \<Rightarrow> (world, response) prog" where
  "list_scoped_tokens_endpoint fmt u = bind (gets (list_scoped_tokens (u_id u))) (\<lambda>ts.
     return (make_response 200 ''Scoped tokens listed'' (JArr (map (token_response_data fmt) ts))))"

definition get_scoped_token_endpoint :: "(datetime \<Rightarrow> string) \<Rightarrow> string \<Rightarrow> user \<Rightarrow> (world, response) prog" where
  "get_scoped_token_endpoint fmt token_id u = answer_errors False
     (bind (get_scoped_token_detail (u_id u) token_id) (\<lambda>detail.
        return (make_response 200 ''Scoped token detail'' (detail_response_data fmt detail))))"

definition rotate_scoped_token_endpoint :: "env \<Rightarrow> string \<Rightarrow> user \<Rightarrow> (world, response) prog" where
  "rotate_scoped_token_endpoint E token_id u = answer_errors False
     (bind (rotate_scoped_token E (u_id u) token_id) (\<lambda>rotated.
        return (make_response 200 ''Scoped token rotated'' (rotated_response_data rotated))))"

definition revoke_scoped_token_endpoint :: "env \<Rightarrow> string \<Rightarrow> user \<Rightarrow> (world, response) prog" where
  "revoke_scoped_token_endpoint E token_id u = answer_errors False
     (bind (revoke_scoped_token E (u_id u) token_id) (\<lambda>_. return (make_response 200 ''Scoped token revoked'' JNull)))"

definition get_audit_logs_endpoint ::
  "(datetime \<Rightarrow> string) \<Rightarrow> string option \<Rightarrow> string option \<Rightarrow> int option \<Rightarrow> nat \<Rightarrow> nat \<Rightarrow> user \<Rightarrow> (world, response) prog" where
  "get_audit_logs_endpoint fmt token_id zone_id since page per_page u =
     bind (gets (list_audit_logs (u_id u) token_id zone_id since page per_page)) (\<lambda>(entries, info).
       return (make_response 200 ''Audit logs listed''
         (JObj [(''items'', JArr (map (audit_response_data fmt) entries)), (''result_info'', info)])))"

section \<open>Properties\<close>

lemma answer_errors_foreign:
  "m w = (Inl (NotFoundError s), w) \<Longrightarrow> answer_errors b m w = (Inr (make_response 404 s JNull), w)"
  by (simp add: answer_errors_def catch_app)

lemma op_error: "m w = (Inl e, w) \<Longrightarrow> bind m f w = (Inl e, w)"
  by (simp add: bind_app)

text \<open>
  Only an active user gets in: \<open>get_current_user\<close> returns a user only for a token that the
  decoder accepts, whose subject is the id of that row, and only while the row is active.
\<close>

theorem current_user_is_active:
  assumes "get_current_user decode credentials w = (Inr u, t)"
  shows "t = w \<and> u \<in> set (w_users w) \<and> u_is_active u
     \<and> (\<exists>token payload. credentials = Some token \<and> decode token = Inr payload \<and> get payload ''sub'' = Inr (JStr (u_id u)))"
proof -
  obtain token where c: "credentials = Some token"
    using assms by (cases credentials) (simp_all add: get_current_user_def)
  obtain payload where d: "decode token = Inr payload"
    using assms c by (cases "decode token") (simp_all add: get_current_user_def bind_app catch_app)
  obtain sub where s: "get payload ''sub'' = Inr sub"
    using assms c d by (cases "get payload ''sub''") (simp_all add: get_current_user_def bind_app catch_app)
  have "truthy sub" using assms c d s by (simp add: get_current_user_def bind_app catch_app split: if_splits)
  with assms c d s obtain row where f: "find (\<lambda>u. JStr (u_id u) = sub) (w_users w) = Some row"
    by (cases "find (\<lambda>u. JStr (u_id u) = sub) (w_users w)") (simp_all add: get_current_user_def bind_app catch_app)
  with assms c d s \<open>truthy sub\<close> have "u_is_active row" "u = row" "t = w"
    by (auto simp: get_current_user_def bind_app catch_app split: if_splits)
  moreover have "row \<in> set (w_users w)" "JStr (u_id row) = sub" using find_SomeD [OF f] by simp_all
  ultimately show ?thesis using c d s by auto
qed

text \<open>
  C30: the management handlers answer a foreign id and a missing id alike: on an id that the user does
  not own, every by-id handler of the credential and token routers returns the 404 envelope of
  that id and changes nothing.
\<close>

theorem foreign_ids_answered_404:
  assumes c: "\<forall>x \<in> set (w_credentials w). c_id x = cid \<longrightarrow> c_user_id x \<noteq> u_id u"
    and k: "\<forall>x \<in> set (w_tokens w). t_id x = tid \<longrightarrow> t_user_id x \<noteq> u_id u"
  defines "no_cred \<equiv> make_response 404 (''upstream credential '' @ py_repr cid @ '' not found'') JNull"
    and "no_token \<equiv> make_response 404 (''scoped token '' @ py_repr tid @ '' not found'') JNull"
  shows "delete_credential_endpoint E cid u w = (Inr no_cred, w)
     \<and> verify_credential_endpoint fmt E cid u w = (Inr no_cred, w)
     \<and> list_zones_endpoint fuel E cid u w = (Inr no_cred, w)
     \<and> list_zone_records_endpoint fuel E cid z rt n u w = (Inr no_cred, w)
     \<and> mint_scoped_token_endpoint fmt E name cid rs ex u w = (Inr no_cred, w)
     \<and> get_scoped_token_endpoint fmt tid u w = (Inr no_token, w)
     \<and> rotate_scoped_token_endpoint E tid u w = (Inr no_token, w)
     \<and> revoke_scoped_token_endpoint E tid u w = (Inr no_token, w)"
  unfolding delete_credential_endpoint_def verify_credential_endpoint_def list_zones_endpoint_def
    list_zone_records_endpoint_def mint_scoped_token_endpoint_def get_scoped_token_endpoint_def
    rotate_scoped_token_endpoint_def revoke_scoped_token_endpoint_def no_cred_def no_token_def
    verify_credential_def delete_credential_def list_credential_zones_def list_credential_zone_records_def
    mint_scoped_token_def get_scoped_token_detail_def rotate_scoped_token_def revoke_scoped_token_def
  by (intro conjI answer_errors_foreign op_error creds.op_foreign [OF c] tokens.op_foreign [OF k])

text \<open>
  Secrets stay out of the listings: what the credential and token listings say of a row does not
  depend on the encrypted secrets, the OAuth tokens, the hash or the lookup id of the row.
\<close>

theorem listings_hide_secrets:
  "credential_response_data fmt (c\<lparr>c_secret_enc := s, c_access_token_enc := a, c_refresh_token_enc := r\<rparr>) = credential_response_data fmt c
   \<and> token_response_data fmt (k\<lparr>t_token_hash := h, t_lookup_id := l\<rparr>) = token_response_data fmt k
   \<and> detail_response_data fmt (k\<lparr>t_token_hash := h, t_lookup_id := l\<rparr>, rules) = detail_response_data fmt (k, rules)"
  by (simp add: credential_response_data_def token_response_data_def detail_response_data_def token_fields_def)

section \<open>Witnesses\<close>

theorem current_user_is_active_witness:
  "demo_user \<in> set (w_users demo_world) \<and> u_is_active demo_user
   \<and> fst (get_current_user (\<lambda>s. Inr (JObj [(''sub'', JStr s)])) (Some ''user1'') demo_world) = Inr demo_user"
proof -
  have run: "get_current_user (\<lambda>s. Inr (JObj [(''sub'', JStr s)])) (Some ''user1'') demo_world = (Inr demo_user, demo_world)"
    by (simp add: get_current_user_def bind_app catch_app demo_world_def demo_user_def)
  from current_user_is_active [OF run] run show ?thesis by simp
qed

definition other_user :: user where
  "other_user = demo_user\<lparr>u_id := ''user2'', u_email := None\<rparr>"

theorem foreign_ids_answered_404_witness:
  "revoke_scoped_token_endpoint demo_env ''tok1'' other_user demo_world
     = (Inr (make_response 404 (''scoped token '' @ CHR 0x27 # ''tok1'' @ CHR 0x27 # '' not found'') JNull), demo_world)"
proof -
  have q: "py_repr ''tok1'' = CHR 0x27 # ''tok1'' @ [CHR 0x27]" by code_simp
  have c: "\<forall>x \<in> set (w_credentials demo_world). c_id x = ''cred1'' \<longrightarrow> c_user_id x \<noteq> u_id other_user"
    by (simp add: demo_world_def demo_credential_def other_user_def)
  have k: "\<forall>x \<in> set (w_tokens demo_world). t_id x = ''tok1'' \<longrightarrow> t_user_id x \<noteq> u_id other_user"
    by (simp add: demo_world_def demo_token_def other_user_def)
  from foreign_ids_answered_404 [OF c k] show ?thesis by (simp only: q append.simps)
qed

end
