(* ===== verification/Accounts.thy ===== *)
theory Accounts
  imports OAuth Management
begin

text \<open>
  \<^verbatim>\<open>routers/auth.py\<close>: local registration and login, the profile, and the two ends of the Cloudflare
  login. The handlers answer in the management envelope; \<open>cf_login\<close> is given by the URL that it
  redirects to.
\<close>

section \<open>Definitions\<close>

definition user_response_data :: "(datetime \<Rightarrow> string) \<Rightarrow> user \<Rightarrow> json" where
  "user_response_data fmt u = JObj [(''id'', JStr (u_id u)), (''email'', json_opt (u_email u)),
     (''auth_provider'', JStr (u_auth_provider u)), (''is_active'', JBool (u_is_active u)),
     (''created_at'', JStr (fmt (u_created_at u)))]"

definition token_response :: "string \<Rightarrow> json" where
  "token_response jwt = JObj [(''access_token'', JStr jwt), (''token_type'', JStr ''bearer'')]"

definition user_by_email :: "string \<Rightarrow> world \<Rightarrow> user option" where
  "user_by_email email w = find (\<lambda>u. u_email u = Some email) (w_users w)"

definition register :: "(datetime \<Rightarrow> string) \<Rightarrow> env \<Rightarrow> libs \<Rightarrow> string \<Rightarrow> string \<Rightarrow> (world, response) prog" where
  "register fmt E L email password =
     bind (gets (user_by_email email)) (\<lambda>existing.
       if existing \<noteq> None then return (make_response 409 ''Email already registered'' JNull)
       else
         bind (hash_password L password) (\<lambda>h.
         bind (new_uuid E) (\<lambda>i.
         bind (gets utcnow) (\<lambda>now.
           let u = \<lparr>u_id = i, u_email = Some email, u_password_hash = Some h, u_auth_provider = ''local'', u_cf_sub = None,
                    u_is_active = True, u_created_at = now, u_updated_at = now\<rparr>
           in bind (commit_db E (\<lambda>w. w\<lparr>w_users := w_users w @ [u]\<rparr>)) (\<lambda>_.
                return (make_response 201 ''User registered'' (user_response_data fmt u)))))))"

definition invalid_login :: response where
  "invalid_login = make_response 401 ''Invalid email or password'' JNull"

definition login :: "env \<Rightarrow> libs \<Rightarrow> string \<Rightarrow> string \<Rightarrow> (world, response) prog" where
  "login E L email password =
     bind (gets (user_by_email email)) (\<lambda>row.
       case row of
         None \<Rightarrow> return invalid_login
       | Some u \<Rightarrow>
           (case u_password_hash u of
              None \<Rightarrow> return invalid_login
            | Some h \<Rightarrow>
                if \<not> u_is_active u then return invalid_login
                else
                  bind (lift (verify_password L password h)) (\<lambda>ok.
                    if \<not> ok then return invalid_login
                    else bind (create_jwt E L (u_id u)) (\<lambda>jwt.
                           return (make_response 200 ''Login successful'' (token_response jwt))))))"

definition read_me :: "(datetime \<Rightarrow> string) \<Rightarrow> user \<Rightarrow> (world, response) prog" where
  "read_me fmt u = return (make_response 200 ''Current user'' (user_response_data fmt u))"

definition cf_login :: "env \<Rightarrow> (world, string) prog" where
  "cf_login E = start_cf_oauth_login E"

definition cf_callback :: "env \<Rightarrow> libs \<Rightarrow> string \<Rightarrow> string \<Rightarrow> (world, response) prog" where
  "cf_callback E L code state =
     bind (catch (bind (handle_cf_oauth_callback E L code state) (\<lambda>p. return (Inr (snd p))))
                 (\<lambda>e. if is_ValueError e then return (Inl (make_response 400 (exn_text e) JNull)) else raise e)) (\<lambda>r.
       case r of
         Inl answer \<Rightarrow> return answer
       | Inr jwt \<Rightarrow> return (make_response 200 ''Cloudflare login successful'' (token_response jwt)))"

text \<open>The dependency of the management handlers, with the session tokens of this server\<close>

definition current_user :: "libs \<Rightarrow> string option \<Rightarrow> (world, user) prog" where
  "current_user L credentials = (\<lambda>w. get_current_user (decode_jwt L w) credentials w)"

section \<open>Lemmas\<close>

text \<open>Documented behaviour of the two libraries: a password verifies against its own hash, and a
  session token decodes to its claims until it expires.\<close>

definition argon2_ok :: "libs \<Rightarrow> bool" where
  "argon2_ok L \<longleftrightarrow> (\<forall>n pw. l_argon2_verify L (l_argon2_hash L n pw) pw = Inr ())"

definition jwt_ok :: "libs \<Rightarrow> bool" where
  "jwt_ok L \<longleftrightarrow> (\<forall>now sub iat exp. iat \<le> now \<longrightarrow> now < exp \<longrightarrow>
     (\<exists>kvs. l_jwt_decode L now (l_jwt_encode L (JObj [(''sub'', JStr sub), (''iat'', JNum iat), (''exp'', JNum exp)])) = Inr (JObj kvs)
        \<and> map_of kvs ''sub'' = Some (JStr sub)))"

lemma create_jwt_decodes:
  assumes "jwt_ok L" and "create_jwt E L sub w = (Inr jwt, w)" and "w_now w \<le> w_now v" and "w_now v < w_now w + s_jwt_ttl_seconds (e_settings E)"
  shows "\<exists>kvs. decode_jwt L v jwt = Inr (JObj kvs) \<and> map_of kvs ''sub'' = Some (JStr sub)"
  using assms by (auto simp: create_jwt_def decode_jwt_def jwt_ok_def)

lemma find_distinct:
  assumes "distinct (map f xs)" and "x \<in> set xs"
  shows "find (\<lambda>y. f y = f x) xs = Some x"
  using assms by (induction xs) (auto simp: image_iff)

lemma find_filter: "(\<And>x. p x \<Longrightarrow> q x) \<Longrightarrow> find p (filter q xs) = find p xs"
  by (induction xs) auto

lemma user_by_email_Some:
  assumes "users_ok (w_users w)" and "u \<in> set (w_users w)" and "u_email u = Some email"
  shows "user_by_email email w = Some u"
proof -
  let ?us = "filter (\<lambda>u. u_email u \<noteq> None) (w_users w)"
  have "distinct (map u_email ?us)" using assms(1) by (simp add: users_ok_def unique_opt_def filter_map o_def)
  moreover have "u \<in> set ?us" using assms(2,3) by simp
  ultimately have "find (\<lambda>v. u_email v = u_email u) ?us = Some u" by (rule find_distinct)
  moreover have "find (\<lambda>v. u_email v = u_email u) ?us = find (\<lambda>v. u_email v = u_email u) (w_users w)"
    using assms(3) by (intro find_filter) simp
  ultimately show ?thesis using assms(3) by (simp add: user_by_email_def)
qed

lemma current_user_found:
  assumes "users_ok (w_users w)" and "u \<in> set (w_users w)" and "u_is_active u" and "u_id u \<noteq> []"
    and "decode_jwt L w jwt = Inr (JObj kvs)" and "map_of kvs ''sub'' = Some (JStr (u_id u))"
  shows "current_user L (Some jwt) w = (Inr u, w)"
proof -
  have "find (\<lambda>v. u_id v = u_id u) (w_users w) = Some u"
    by (rule find_distinct) (use assms(1,2) in \<open>simp_all add: users_ok_def\<close>)
  then show ?thesis using assms(3-6) by (simp add: current_user_def get_current_user_def bind_app catch_app)
qed

lemma registered:
  assumes "register fmt E L email pw w = (Inr resp, t)" and "status_code resp = 201"
  shows "\<exists>u n. u \<in> set (w_users t) \<and> u_id u = e_uuid E (Suc (w_rand w)) \<and> u_email u = Some email \<and> u_is_active u
     \<and> u_password_hash u = Some (l_argon2_hash L n pw) \<and> users_ok (w_users t) \<and> resp = make_response 201 ''User registered'' (user_response_data fmt u)"
proof -
  define u where "u = \<lparr>u_id = e_uuid E (Suc (w_rand w)), u_email = Some email, u_password_hash = Some (l_argon2_hash L (w_rand w) pw),
     u_auth_provider = ''local'', u_cf_sub = None, u_is_active = True, u_created_at = utcnow w, u_updated_at = utcnow w\<rparr>"
  have "commit_db E (\<lambda>w. w\<lparr>w_users := w_users w @ [u]\<rparr>) (w\<lparr>w_rand := Suc (Suc (w_rand w))\<rparr>) = (Inr (), t)"
    and resp: "resp = make_response 201 ''User registered'' (user_response_data fmt u)"
    using assms by (auto simp: register_def bind_Inr_iff hash_password_def new_uuid_def Let_def utcnow_def u_def split: if_splits)
  then have "users_ok (w_users t)" "u \<in> set (w_users t)" by (auto elim!: commit_db_cases simp: constraints_ok_def)
  with resp show ?thesis by (intro exI [of _ u] exI [of _ "w_rand w"]) (simp add: u_def)
qed

section \<open>Properties\<close>

text \<open>
  C27: a registered account works: after a successful registration the same email and password log in,
  at any later time at which the users table is the one the registration left, and the session
  token that the login gives is accepted as that user until it expires.
\<close>

theorem registered_user_logs_in:
  assumes lib: "argon2_ok L" "jwt_ok L" and uuid: "\<forall>n. e_uuid E n \<noteq> []"
    and reg: "register fmt E L email pw w = (Inr resp, t)" "status_code resp = 201" and v: "w_users v = w_users t"
  shows "\<exists>u jwt. login E L email pw v = (Inr (make_response 200 ''Login successful'' (token_response jwt)), v)
     \<and> u \<in> set (w_users t) \<and> u_email u = Some email
     \<and> (\<forall>v'. w_users v' = w_users t \<and> w_now v \<le> w_now v' \<and> w_now v' < w_now v + s_jwt_ttl_seconds (e_settings E)
          \<longrightarrow> current_user L (Some jwt) v' = (Inr u, v'))"
proof -
  obtain u n where u: "u \<in> set (w_users t)" "u_id u \<noteq> []" "u_email u = Some email" "u_is_active u"
      "u_password_hash u = Some (l_argon2_hash L n pw)" and ok: "users_ok (w_users t)"
    using registered [OF reg] uuid by metis
  have f: "user_by_email email v = Some u" using ok u(1,3) v by (intro user_by_email_Some) simp_all
  obtain jwt where jwt: "create_jwt E L (u_id u) v = (Inr jwt, v)" by (simp add: create_jwt_def)
  have "l_argon2_verify L (l_argon2_hash L n pw) pw = Inr ()" using lib(1) by (simp add: argon2_ok_def)
  then have "login E L email pw v = (Inr (make_response 200 ''Login successful'' (token_response jwt)), v)"
    using f u jwt by (simp add: login_def bind_app verify_password_def)
  moreover have "current_user L (Some jwt) v' = (Inr u, v')"
    if "w_users v' = w_users t" "w_now v \<le> w_now v'" "w_now v' < w_now v + s_jwt_ttl_seconds (e_settings E)" for v'
    using create_jwt_decodes [OF lib(2) jwt that(2,3)] current_user_found [of v' u L jwt] ok u that(1) by auto
  ultimately show ?thesis using u(1,3) by blast
qed

text \<open>
  C31: a login needs the password and tells nothing else: it changes nothing; it is either the one 401
  answer, the same for an unknown email, an account without password, an inactive account and a
  wrong password, or a session token for the active user of that email, against whose stored hash
  the password verifies.
\<close>

theorem login_needs_password:
  assumes "login E L email pw w = (Inr resp, t)"
  shows "t = w \<and> (resp = invalid_login \<or> (\<exists>u h jwt. u \<in> set (w_users w) \<and> u_email u = Some email \<and> u_is_active u
     \<and> u_password_hash u = Some h \<and> l_argon2_verify L h pw = Inr () \<and> create_jwt E L (u_id u) w = (Inr jwt, w)
     \<and> resp = make_response 200 ''Login successful'' (token_response jwt)))"
proof (cases "user_by_email email w")
  case None
  with assms show ?thesis by (simp add: login_def bind_app)
next
  case (Some u)
  then have u: "u \<in> set (w_users w)" "u_email u = Some email" by (auto simp: user_by_email_def dest: find_SomeD)
  show ?thesis
  proof (cases "u_password_hash u")
    case None
    with Some assms show ?thesis by (simp add: login_def bind_app)
  next
    case (Some h)
    with \<open>user_by_email email w = Some u\<close> assms u show ?thesis
      by (auto simp: login_def bind_app verify_password_def create_jwt_def split: if_splits sum.splits)
  qed
qed

section \<open>Witnesses\<close>

lemma demo_libs_ok: "argon2_ok demo_libs"
  by (simp add: argon2_ok_def demo_libs_def)

lemma demo_jwt_ok: "jwt_ok demo_libs"
  by (simp add: jwt_ok_def demo_libs_def)

theorem registered_user_logs_in_witness:
  "\<exists>t jwt u. register (\<lambda>_. []) demo_env demo_libs ''new@example.com'' ''secret'' demo_world = (Inr (make_response 201 ''User registered'' (user_response_data (\<lambda>_. []) u)), t)
     \<and> login demo_env demo_libs ''new@example.com'' ''secret'' t = (Inr (make_response 200 ''Login successful'' (token_response jwt)), t)
     \<and> fst (current_user demo_libs (Some jwt) t) = Inr u"
proof -
  let ?reg = "register (\<lambda>_. []) demo_env demo_libs ''new@example.com'' ''secret'' demo_world"
  have "case fst ?reg of Inl e \<Rightarrow> False | Inr r \<Rightarrow> status_code r = 201" by code_simp
  then obtain resp t where reg: "?reg = (Inr resp, t)" "status_code resp = 201" by (cases ?reg) (auto split: sum.splits)
  have uuid: "\<forall>n. e_uuid demo_env n \<noteq> []" by (simp add: demo_env_def)
  obtain u jwt where l: "login demo_env demo_libs ''new@example.com'' ''secret'' t = (Inr (make_response 200 ''Login successful'' (token_response jwt)), t)"
    and u: "u \<in> set (w_users t)" "u_email u = Some ''new@example.com''" and me: "current_user demo_libs (Some jwt) t = (Inr u, t)"
    using registered_user_logs_in [OF demo_libs_ok demo_jwt_ok uuid reg refl] by (auto simp: demo_env_def demo_settings_def)
  obtain u' where u': "u' \<in> set (w_users t)" "u_email u' = Some ''new@example.com''" "users_ok (w_users t)"
    "resp = make_response 201 ''User registered'' (user_response_data (\<lambda>_. []) u')"
    using registered [OF reg] by blast
  then have "u' = u" using user_by_email_Some [of t u] user_by_email_Some [of t u'] u by simp
  with reg l me u'(4) show ?thesis by (intro exI [of _ t] exI [of _ jwt] exI [of _ u]) simp
qed

theorem login_needs_password_witness:
  "\<exists>jwt. login demo_env (demo_libs\<lparr>l_argon2_verify := (\<lambda>h pw. if h = pw then Inr () else Inl VerifyMismatchError)\<rparr>) ''op@example.com'' ''pw'' demo_world
     = (Inr (make_response 200 ''Login successful'' (token_response jwt)), demo_world)"
proof -
  let ?L = "demo_libs\<lparr>l_argon2_verify := (\<lambda>h pw. if h = pw then Inr () else Inl VerifyMismatchError)\<rparr>"
  obtain resp t where run: "login demo_env ?L ''op@example.com'' ''pw'' demo_world = (Inr resp, t)" and s: "status_code resp = 200"
    by (auto simp: login_def bind_app user_by_email_def demo_world_def demo_user_def verify_password_def create_jwt_def)
  have "resp \<noteq> invalid_login" using s by (auto simp: invalid_login_def)
  with login_needs_password [OF run] run show ?thesis by auto
qed

end
