(* ===== verification/App.thy ===== *)
theory App
  imports ProxyDns Accounts
begin

text \<open>
  \<^verbatim>\<open>main.py\<close>, \<^verbatim>\<open>routers/proxy_verify.py\<close> and \<^verbatim>\<open>routers/proxy_blocked.py\<close>: the exception handlers
  that give each of the two API surfaces its own envelope, the routes of the machine plane in the
  order in which they are registered, and the run of an endpoint from its dependencies to its
  response. FastAPI's choice of a route is an argument (\<open>dispatch\<close>).
\<close>

section \<open>Exception handlers\<close>

definition PROXY_PATH_PREFIX :: string where
  "PROXY_PATH_PREFIX = ''/client/v4''"

definition is_proxy_path :: "string \<Rightarrow> bool" where
  "is_proxy_path path \<longleftrightarrow> py_startswith path PROXY_PATH_PREFIX"

definition http_exception_to_cf_response :: "int \<Rightarrow> int \<Rightarrow> string \<Rightarrow> response" where
  "http_exception_to_cf_response status code message = make_cf_error status code message"

definition handle_http_exception :: "string \<Rightarrow> int \<Rightarrow> int \<Rightarrow> string \<Rightarrow> response" where
  "handle_http_exception path status code message =
     (if is_proxy_path path then http_exception_to_cf_response status code message
      else make_response status message JNull)"

definition handle_validation_error :: "string \<Rightarrow> json \<Rightarrow> response" where
  "handle_validation_error path errors =
     (if is_proxy_path path then make_cf_error 400 INTERNAL ''Invalid request''
      else make_response 422 ''Validation error'' errors)"

definition handle_generic_error :: "string \<Rightarrow> response" where
  "handle_generic_error path =
     (if is_proxy_path path then make_cf_error 500 INTERNAL ''Internal server error''
      else make_response 500 ''Internal server error'' JNull)"

definition error_response :: "string \<Rightarrow> exn \<Rightarrow> response" where
  "error_response path e = (case e of
     HTTPException status code message \<Rightarrow> handle_http_exception path status code message
   | _ \<Rightarrow> handle_generic_error path)"

definition run_endpoint :: "string \<Rightarrow> (world, response) prog \<Rightarrow> world \<Rightarrow> response \<times> world" where
  "run_endpoint path h w = (case h w of (Inl e, t) \<Rightarrow> (error_response path e, t) | (Inr resp, t) \<Rightarrow> (resp, t))"

text \<open>Readiness, from the outcomes of the two probes\<close>

definition healthz :: response where
  "healthz = \<lparr>status_code = 200, content = JObj [(''status'', JStr ''ok'')]\<rparr>"

definition readyz :: "bool \<Rightarrow> bool \<Rightarrow> response" where
  "readyz database redis =
     (if \<not> database then \<lparr>status_code = 503, content = JObj [(''status'', JStr ''unavailable''), (''db'', JStr ''down'')]\<rparr>
      else if \<not> redis then \<lparr>status_code = 200, content = JObj [(''status'', JStr ''ok''), (''redis'', JStr ''degraded'')]\<rparr>
      else \<lparr>status_code = 200, content = JObj [(''status'', JStr ''ok''), (''redis'', JStr ''ok'')]\<rparr>)"

section \<open>The routers without logic\<close>

definition verify_token_endpoint :: "proxy_auth_context \<Rightarrow> (world, response) prog" where
  "verify_token_endpoint ctx = return (make_cf_response
     (JObj [(''id'', JStr (t_id (x_token ctx))), (''status'', JStr ''active'')]) 200
     [JObj [(''code'', JNum TOKEN_VALID), (''message'', JStr ''This API Token is valid and active'')]] None)"

definition blocked_dns_records :: response where
  "blocked_dns_records = make_cf_error 403 FORBIDDEN ''Authorization error: insufficient scope''"

definition catch_all :: response where
  "catch_all = make_cf_error 404 ROUTE_NOT_FOUND ''Not found.''"

section \<open>Routes\<close>

text \<open>A segment of a path template; \<open>Rest\<close> is a path parameter that takes the remaining segments.\<close>

datatype segment = Lit string | Param | Rest

datatype endpoint = Verify | List_zones | List_records | Create_record | Get_record | Patch_record | Put_record
  | Delete_record | Blocked | Catch_all

record route =
  rt_methods :: "string list"
  rt_path :: "segment list"
  rt_endpoint :: endpoint

definition BULK_METHODS :: "string list" where
  "BULK_METHODS = [''GET'', ''POST'', ''PUT'', ''PATCH'', ''DELETE'']"

definition zones_path :: "segment list" where
  "zones_path = [Lit ''client'', Lit ''v4'', Lit ''zones'']"

definition records_template :: "segment list" where
  "records_template = zones_path @ [Param, Lit ''dns_records'']"

definition proxy_verify_routes :: "route list" where
  "proxy_verify_routes = [\<lparr>rt_methods = [''GET''],
     rt_path = [Lit ''client'', Lit ''v4'', Lit ''user'', Lit ''tokens'', Lit ''verify''], rt_endpoint = Verify\<rparr>]"

definition proxy_dns_routes :: "route list" where
  "proxy_dns_routes = [
     \<lparr>rt_methods = [''GET''], rt_path = zones_path, rt_endpoint = List_zones\<rparr>,
     \<lparr>rt_methods = [''GET''], rt_path = records_template, rt_endpoint = List_records\<rparr>,
     \<lparr>rt_methods = [''POST''], rt_path = records_template, rt_endpoint = Create_record\<rparr>,
     \<lparr>rt_methods = [''GET''], rt_path = records_template @ [Param], rt_endpoint = Get_record\<rparr>,
     \<lparr>rt_methods = [''PATCH''], rt_path = records_template @ [Param], rt_endpoint = Patch_record\<rparr>,
     \<lparr>rt_methods = [''PUT''], rt_path = records_template @ [Param], rt_endpoint = Put_record\<rparr>,
     \<lparr>rt_methods = [''DELETE''], rt_path = records_template @ [Param], rt_endpoint = Delete_record\<rparr>]"

definition proxy_blocked_routes :: "route list" where
  "proxy_blocked_routes = [
     \<lparr>rt_methods = BULK_METHODS, rt_path = records_template @ [Lit ''batch''], rt_endpoint = Blocked\<rparr>,
     \<lparr>rt_methods = BULK_METHODS, rt_path = records_template @ [Lit ''import''], rt_endpoint = Blocked\<rparr>,
     \<lparr>rt_methods = BULK_METHODS, rt_path = records_template @ [Lit ''export''], rt_endpoint = Blocked\<rparr>,
     \<lparr>rt_methods = BULK_METHODS, rt_path = [Lit ''client'', Lit ''v4'', Rest], rt_endpoint = Catch_all\<rparr>]"

text \<open>\<^verbatim>\<open>include_router\<close> in the order of \<^verbatim>\<open>create_app\<close>\<close>

definition proxy_routes :: "route list" where
  "proxy_routes = proxy_verify_routes @ proxy_dns_routes @ proxy_blocked_routes"

text \<open>
  What a path template matches, and the documented rule that the first registered route whose path
  and method match is the one that answers.
\<close>

fun path_matches :: "segment list \<Rightarrow> string list \<Rightarrow> bool" where
  "path_matches [] ps = (ps = [])"
| "path_matches (Rest # ss) ps = (ss = [] \<and> ps \<noteq> [])"
| "path_matches (Lit s # ss) ps = (case ps of [] \<Rightarrow> False | p # qs \<Rightarrow> p = s \<and> path_matches ss qs)"
| "path_matches (Param # ss) ps = (case ps of [] \<Rightarrow> False | p # qs \<Rightarrow> p \<noteq> [] \<and> path_matches ss qs)"

definition route_matches :: "string \<Rightarrow> string list \<Rightarrow> route \<Rightarrow> bool" where
  "route_matches m ps r \<longleftrightarrow> m \<in> set (rt_methods r) \<and> path_matches (rt_path r) ps"

definition first_match :: "(route list \<Rightarrow> string \<Rightarrow> string list \<Rightarrow> endpoint option) \<Rightarrow> bool" where
  "first_match dispatch \<longleftrightarrow> (\<forall>rs m ps. dispatch rs m ps = map_option rt_endpoint (find (route_matches m ps) rs))"

text \<open>
  A request to a by-id endpoint of the machine plane, from the \<^verbatim>\<open>Authorization\<close> header to the
  response: the dependency resolves the token, then the handler runs.
\<close>

definition authorized_endpoint ::
  "env \<Rightarrow> string \<Rightarrow> client_request \<Rightarrow> (proxy_auth_context \<Rightarrow> (world, response) prog) \<Rightarrow> world \<Rightarrow> response \<times> world" where
  "authorized_endpoint E path rq h = run_endpoint path (bind (require_scoped_token E (cq_authorization rq)) h)"

definition by_id_handler :: "env \<Rightarrow> string \<Rightarrow> string \<Rightarrow> string \<Rightarrow> client_request \<Rightarrow> proxy_auth_context \<Rightarrow> (world, response) prog" where
  "by_id_handler E m z i rq =
     (if m = ''PATCH'' then patch_dns_record E z i rq
      else if m = ''PUT'' then put_dns_record E z i rq
      else if m = ''DELETE'' then delete_dns_record E z i rq
      else get_dns_record E z i rq)"

section \<open>Lemmas\<close>

lemma error_response_envelope:
  "is_cf_envelope (error_response path e) = is_proxy_path path"
  "is_mgmt_envelope (error_response path e) = (\<not> is_proxy_path path)"
  by (auto simp: error_response_def handle_http_exception_def handle_generic_error_def http_exception_to_cf_response_def
      split: exn.splits)

lemma answer_errors_mgmt:
  assumes "answer_errors b m w = (Inr resp, t)" and "\<And>r v. m w = (Inr r, v) \<Longrightarrow> is_mgmt_envelope r"
  shows "is_mgmt_envelope resp"
  using assms by (auto simp: answer_errors_def catch_app split: prod.splits sum.splits if_splits)

lemma require_context:
  assumes "require_scoped_token E header w = (Inr ctx, t)"
  shows "\<exists>h full. header = Some h \<and> snd (py_partition CHR '' '' h) = full \<and> full \<noteq> [] \<and> resolve_scoped_token E full w = (Inr (Some ctx), t)"
proof (cases header)
  case None
  have "py_lower (fst (py_partition CHR '' '' [])) \<noteq> ''bearer''" by code_simp
  with None assms show ?thesis by (simp add: require_scoped_token_def Let_def split: prod.splits)
next
  case (Some h)
  obtain s f where p: "py_partition CHR '' '' h = (s, f)" by (cases "py_partition CHR '' '' h")
  with assms Some have "f \<noteq> []" "resolve_scoped_token E f w = (Inr (Some ctx), t)"
    by (auto simp: require_scoped_token_def Let_def bind_Inr_iff split: if_splits option.splits)
  with Some p show ?thesis by simp
qed

lemma resolved_rules:
  assumes "resolve_scoped_token E full w = (Inr (Some ctx), t)" and "rules_coherent w" and "tokens_ok (w_tokens w)"
  shows "x_rules ctx = map rule.truncate (rules_of w (x_token ctx))"
proof -
  have load: "load_rules E (x_token ctx) w = (Inr (x_rules ctx), t)" using assms(1) by (rule resolve_someD)
  obtain t' where "load_rules E (x_token ctx) w = (Inr (map rule.truncate (rules_of w (x_token ctx))), t')"
    using assms(2,3) resolve_tokenD(1) [OF assms(1)] by (rule load_rules_coherent)
  with load show ?thesis by simp
qed

text \<open>The body that a by-id mutation is authorized with, and its run\<close>

definition mutation_body :: "string \<Rightarrow> client_request \<Rightarrow> json" where
  "mutation_body m rq = (if m = ''DELETE'' then JNull else (case cq_json rq of None \<Rightarrow> JNull | Some j \<Rightarrow> j))"

lemma by_id_handler_run:
  assumes "m \<in> {''PATCH'', ''PUT'', ''DELETE''}"
  shows "by_id_handler E m z i rq ctx =
     (if m \<noteq> ''DELETE'' \<and> cq_json rq = None then raise JSONDecodeError
      else mutate_dns_record_by_id E m z i (mutation_body m rq) (if m = ''DELETE'' then None else Some (cq_body rq)) rq ctx)"
  using assms by (auto simp: by_id_handler_def patch_dns_record_def put_dns_record_def delete_dns_record_def
      mutation_body_def request_json_def split: option.splits)

lemma guarded_trace_mutation:
  assumes "guarded_trace E rules m z i body c auth before es" and "Sent q \<in> set es" and "q_method q \<noteq> ''GET''"
  shows "q = mutation_req E m z i c auth \<and> (\<exists>pre. in_scope E rules m z i body pre)"
proof -
  have "q_method (fetch_req E z i auth) = ''GET''" by (simp add: fetch_req_def)
  with assms show ?thesis by (auto simp: guarded_trace_def mutation_core_def split: if_splits)
qed

text \<open>
  From the wire to Cloudflare: whenever handling a by-id PATCH, PUT or DELETE request makes the
  proxy send a mutation, the request carried a token in its \<^verbatim>\<open>Authorization\<close> header that hashes to
  an active, unexpired row of the database, the mutation is for the record of the path at the
  configured upstream, and the rules that the database holds for that token grant it on the
  record as fetched and, for PATCH and PUT, as it will be. This is for every response of
  Cloudflare, every state of Redis and every coherent cache.
\<close>

lemma mutation_end_to_end:
  assumes coh: "rules_coherent w" and ok: "tokens_ok (w_tokens w)" and m: "m \<in> {''PATCH'', ''PUT'', ''DELETE''}"
    and run: "authorized_endpoint E path rq (by_id_handler E m z i rq) w = (resp, t)"
    and sent: "Sent q \<in> set (drop (length (w_trace w)) (w_trace t))" and meth: "q_method q = m"
  shows "\<exists>tok \<in> set (w_tokens w). \<exists>h pre. cq_authorization rq = Some h
     \<and> hash_token E (snd (py_partition CHR '' '' h)) = t_token_hash tok \<and> t_status tok = ''active''
     \<and> token_expired E w tok = Inr False
     \<and> q_host q = s_upstream_base_url (e_settings E) \<and> q_path q = record_path z i
     \<and> in_scope E (map rule.truncate (rules_of w tok)) m z i (mutation_body m rq) pre"
proof -
  obtain rr wr where req: "require_scoped_token E (cq_authorization rq) w = (rr, wr)"
    by (cases "require_scoped_token E (cq_authorization rq) w")
  have tr: "w_trace wr = w_trace w" using require_frame [of w E "cq_authorization rq"] req same_but_redis_fields(4) by force
  obtain ctx where rr: "rr = Inr ctx"
    using run req sent tr by (cases rr) (auto simp: authorized_endpoint_def run_endpoint_def bind_app)
  obtain h full where hdr: "cq_authorization rq = Some h" "snd (py_partition CHR '' '' h) = full"
    and res: "resolve_scoped_token E full w = (Inr (Some ctx), wr)"
    using require_context req rr by blast
  let ?c = "if m = ''DELETE'' then None else Some (cq_body rq)"
  obtain rm where hand: "by_id_handler E m z i rq ctx wr = (rm, t)"
    using run req rr by (auto simp: authorized_endpoint_def run_endpoint_def bind_app split: prod.splits sum.splits)
  have "\<not> (m \<noteq> ''DELETE'' \<and> cq_json rq = None)"
  proof
    assume "m \<noteq> ''DELETE'' \<and> cq_json rq = None"
    then have "t = wr" using hand unfolding by_id_handler_run [OF m] by simp
    then show False using sent tr by simp
  qed
  then have "mutate_dns_record_by_id E m z i (mutation_body m rq) ?c rq ctx wr = (rm, t)"
    using hand unfolding by_id_handler_run [OF m] by (auto split: if_split_asm)
  from mutate_trace [OF this m] obtain auth before es where es: "w_trace t = w_trace wr @ before @ es"
    "\<forall>e \<in> set before. oauth_sent E e" "guarded_trace E (x_rules ctx) m z i (mutation_body m rq) ?c auth (w_trace wr @ before) es"
    by blast
  have "Sent q \<in> set before \<union> set es" using sent es(1) tr by simp
  moreover have "Sent q \<notin> set before" using es(2) meth m by (auto simp: oauth_sent_def)
  ultimately have "Sent q \<in> set es" by simp
  moreover have "q_method q \<noteq> ''GET''" using meth m by auto
  ultimately obtain pre where q: "q = mutation_req E m z i ?c auth" "in_scope E (x_rules ctx) m z i (mutation_body m rq) pre"
    using guarded_trace_mutation [OF es(3)] by blast
  have "x_rules ctx = map rule.truncate (rules_of w (x_token ctx))" using res coh ok by (rule resolved_rules)
  with q resolve_tokenD [OF res] hdr show ?thesis
    by (intro bexI [of _ "x_token ctx"] exI [of _ h] exI [of _ pre]) (simp_all add: mutation_req_def)
qed

section \<open>Properties\<close>

text \<open>
  The blocked bulk paths are only blocked for POST: for a zone and each of \<^verbatim>\<open>batch\<close>, \<^verbatim>\<open>import\<close> and
  \<^verbatim>\<open>export\<close>, the by-id routes are registered first and take GET, PATCH, PUT and DELETE with that
  word as the record id; only POST reaches the handler that rejects. No request with one of the
  five methods below \<^verbatim>\<open>/client/v4/\<close> is left without a route.
\<close>

theorem bulk_paths_shadowed:
  assumes "first_match dispatch" and "p \<in> {''batch'', ''import'', ''export''}" and "z \<noteq> []"
  defines "ps \<equiv> [''client'', ''v4'', ''zones'', z, ''dns_records'', p]"
  shows "dispatch proxy_routes ''POST'' ps = Some Blocked
     \<and> dispatch proxy_routes ''GET'' ps = Some Get_record \<and> dispatch proxy_routes ''PATCH'' ps = Some Patch_record
     \<and> dispatch proxy_routes ''PUT'' ps = Some Put_record \<and> dispatch proxy_routes ''DELETE'' ps = Some Delete_record
     \<and> (\<forall>m \<in> set BULK_METHODS. \<forall>x xs. dispatch proxy_routes m (''client'' # ''v4'' # x # xs) \<noteq> None)"
proof -
  note defs = proxy_routes_def proxy_verify_routes_def proxy_dns_routes_def proxy_blocked_routes_def BULK_METHODS_def
    records_template_def zones_path_def route_matches_def
  have d: "dispatch proxy_routes m qs = map_option rt_endpoint (find (route_matches m qs) proxy_routes)" for m qs
    using assms(1) by (simp add: first_match_def)
  have "find (route_matches m (''client'' # ''v4'' # x # xs)) proxy_routes \<noteq> None" if "m \<in> set BULK_METHODS" for m x xs
  proof -
    let ?r = "\<lparr>rt_methods = BULK_METHODS, rt_path = [Lit ''client'', Lit ''v4'', Rest], rt_endpoint = Catch_all\<rparr>"
    have "?r \<in> set proxy_routes" by (simp add: proxy_routes_def proxy_blocked_routes_def)
    moreover have "route_matches m (''client'' # ''v4'' # x # xs) ?r" using that by (simp add: route_matches_def)
    ultimately show ?thesis unfolding find_None_iff by blast
  qed
  moreover have "find (route_matches ''POST'' ps) proxy_routes
      = Some \<lparr>rt_methods = BULK_METHODS, rt_path = records_template @ [Lit p], rt_endpoint = Blocked\<rparr>"
    using assms(2,3) by (auto simp: ps_def defs)
  ultimately show ?thesis unfolding d using assms(2,3) by (auto simp: ps_def defs)
qed

section \<open>Witnesses\<close>

definition demo_patch_run :: "response \<times> world" where
  "demo_patch_run = authorized_endpoint demo_env ''/client/v4/zones/z1/dns_records/rec1'' demo_request
     (by_id_handler demo_env ''PATCH'' ''z1'' ''rec1'' demo_request) demo_world"

lemma sent_of_set: "q \<in> set (sent_of tr) \<longleftrightarrow> Sent q \<in> set tr"
  by (induction tr rule: sent_of.induct) auto

lemma demo_patched: "\<exists>q. Sent q \<in> set (w_trace (snd demo_patch_run)) \<and> q_method q = ''PATCH''"
proof -
  have "''PATCH'' \<in> q_method ` set (sent_of (w_trace (snd demo_patch_run)))" by code_simp
  then obtain q where "q \<in> set (sent_of (w_trace (snd demo_patch_run)))" "''PATCH'' = q_method q" by (rule imageE)
  then show ?thesis unfolding sent_of_set by (intro exI [of _ q] conjI) simp_all
qed

lemma bulk_paths_shadowed_witness:
  "(\<lambda>rs m ps. map_option rt_endpoint (find (route_matches m ps) rs)) proxy_routes ''DELETE''
     [''client'', ''v4'', ''zones'', ''z1'', ''dns_records'', ''import''] = Some Delete_record"
  using bulk_paths_shadowed [of "\<lambda>rs m ps. map_option rt_endpoint (find (route_matches m ps) rs)" "''import''" "''z1''"]
  by (simp add: first_match_def)

end
