(* ===== verification/System.thy ===== *)
theory System
  imports App
begin

text \<open>
  The whole service: every endpoint as a \<open>call\<close> and the handler of each with its dependencies
  (\<open>handler\<close>). The locales \<open>upstream_invariant\<close> and \<open>handler_invariant\<close> are the contract between
  an invariant of the world and the handlers: they list the primitive operations that an
  invariant has to survive, and their lemmas carry it through every handler.
\<close>

section \<open>Calls\<close>

text \<open>The management calls carry the bearer token of the request, if it has one.\<close>

datatype call =
    Verify_token client_request
  | Proxy_zones client_request
  | Proxy_records string client_request
  | Proxy_create string client_request
  | Proxy_by_id string string string client_request
  | Proxy_blocked
  | Proxy_other
  | Register string string
  | Login string string
  | Me "string option"
  | Cf_callback string string
  | Add_credential "string option" string string "string option" "string option" "string option"
  | Credentials "string option"
  | Remove_credential "string option" string
  | Check_credential "string option" string
  | Zones "string option" string
  | Zone_records "string option" string string "string option" "string option"
  | Mint "string option" string string "rule_request list" "datetime option"
  | Tokens "string option"
  | Token_detail "string option" string
  | Rotate "string option" string
  | Revoke "string option" string
  | Audit "string option" "string option" "string option" "int option" nat nat

definition scoped :: "env \<Rightarrow> client_request \<Rightarrow> (proxy_auth_context \<Rightarrow> (world, response) prog) \<Rightarrow> (world, response) prog" where
  "scoped E rq h = bind (require_scoped_token E (cq_authorization rq)) h"

definition managed :: "libs \<Rightarrow> string option \<Rightarrow> (user \<Rightarrow> (world, response) prog) \<Rightarrow> (world, response) prog" where
  "managed L bearer h = bind (current_user L bearer) h"

text \<open>Pydantic's rendering of time stamps (\<open>fmt\<close>) and the fuel of the page loops are arguments.\<close>

fun handler :: "env \<Rightarrow> libs \<Rightarrow> (datetime \<Rightarrow> string) \<Rightarrow> nat \<Rightarrow> call \<Rightarrow> (world, response) prog" where
  "handler E L fmt fuel (Verify_token rq) = scoped E rq verify_token_endpoint"
| "handler E L fmt fuel (Proxy_zones rq) = scoped E rq (list_zones fuel E rq)"
| "handler E L fmt fuel (Proxy_records z rq) = scoped E rq (list_dns_records fuel E z rq)"
| "handler E L fmt fuel (Proxy_create z rq) = scoped E rq (create_dns_record E z rq)"
| "handler E L fmt fuel (Proxy_by_id m z i rq) = scoped E rq (by_id_handler E m z i rq)"
| "handler E L fmt fuel Proxy_blocked = return blocked_dns_records"
| "handler E L fmt fuel Proxy_other = return catch_all"
| "handler E L fmt fuel (Register email pw) = register fmt E L email pw"
| "handler E L fmt fuel (Login email pw) = login E L email pw"
| "handler E L fmt fuel (Me b) = managed L b (read_me fmt)"
| "handler E L fmt fuel (Cf_callback code state) = cf_callback E L code state"
| "handler E L fmt fuel (Add_credential b label ty tok key email) = managed L b (create_credential_endpoint fmt E label ty tok key email)"
| "handler E L fmt fuel (Credentials b) = managed L b (list_credentials_endpoint fmt)"
| "handler E L fmt fuel (Remove_credential b i) = managed L b (delete_credential_endpoint E i)"
| "handler E L fmt fuel (Check_credential b i) = managed L b (verify_credential_endpoint fmt E i)"
| "handler E L fmt fuel (Zones b i) = managed L b (list_zones_endpoint fuel E i)"
| "handler E L fmt fuel (Zone_records b i z ty n) = managed L b (list_zone_records_endpoint fuel E i z ty n)"
| "handler E L fmt fuel (Mint b n c rs ex) = managed L b (mint_scoped_token_endpoint fmt E n c rs ex)"
| "handler E L fmt fuel (Tokens b) = managed L b (list_scoped_tokens_endpoint fmt)"
| "handler E L fmt fuel (Token_detail b i) = managed L b (get_scoped_token_endpoint fmt i)"
| "handler E L fmt fuel (Rotate b i) = managed L b (rotate_scoped_token_endpoint E i)"
| "handler E L fmt fuel (Revoke b i) = managed L b (revoke_scoped_token_endpoint E i)"
| "handler E L fmt fuel (Audit b k z s p n) = managed L b (get_audit_logs_endpoint fmt k z s p n)"

section \<open>What an invariant has to survive\<close>

lemma keeps_lift_bind [keeps_intros]: "keeps P (\<lambda>w. (f w, w))"
  by (rule keepsI) simp

lemma keeps_lock_free:
  assumes "keeps P body" and "\<And>w n. P w \<Longrightarrow> P (w\<lparr>w_lock_calls := n\<rparr>)" and "\<And>w tr. P w \<Longrightarrow> P (w\<lparr>w_trace := tr\<rparr>)"
  shows "keeps P (guarded_run E exempt name body)"
  using assms unfolding guarded_run_def by (intro keeps_intros keeps_advisory_lock)

text \<open>The calls that mint or rotate a token\<close>

fun issues_token :: "call \<Rightarrow> bool" where
  "issues_token (Mint _ _ _ _ _) = True"
| "issues_token (Rotate _ _) = True"
| "issues_token _ = False"

locale upstream_invariant =
  fixes E :: env and P :: "world \<Rightarrow> bool"
  assumes trace: "P w \<Longrightarrow> P (w\<lparr>w_trace := tr\<rparr>)" and rand: "P w \<Longrightarrow> P (w\<lparr>w_rand := n\<rparr>)"
    and jwks: "P w \<Longrightarrow> P (w\<lparr>w_jwks := j\<rparr>)" and lock_calls: "P w \<Longrightarrow> P (w\<lparr>w_lock_calls := n\<rparr>)"
    and client: "keeps P (get_cf_client E)"
    and cache_get: "keeps P (cache_get_json E k)"
    and cache_set: "(\<And>l v. k \<noteq> rules_key l v) \<Longrightarrow> keeps P (cache_set_json E k x ttl)"
    and rows: "(\<And>w. f w = w\<lparr>w_users := w_users (f w), w_credentials := w_credentials (f w), w_audit := w_audit (f w)\<rparr>)
      \<Longrightarrow> keeps P (commit_db E f)"
begin

lemma tape: "keeps P (new_uuid E)" "keeps P (encrypt_secret E s)" "keeps P (hash_password L pw)" "keeps P (flush_db E f)"
  by (auto intro!: keepsI rand simp: new_uuid_def encrypt_secret_def hash_password_def flush_db_def)

lemma http: "keeps P (send_http E q)" "keeps P (forward_request E m p h ps c a)"
proof -
  show s: "keeps P (send_http E q)" for q by (rule keepsI) (simp add: send_http_run trace)
  show "keeps P (forward_request E m p h ps c a)" unfolding forward_request_def by (intro keeps_intros client s)
qed

lemma fetch: "keeps P (fetch_cf_record E z i a)"
  unfolding fetch_cf_record_def by (intro keeps_intros http)

lemma records_loop: "keeps P (list_records_loop fuel E z ps a page xs)"
proof (induction fuel arbitrary: page xs)
  case 0
  show ?case by (simp only: list_records_loop.simps) (rule keeps_raise)
next
  case (Suc fuel)
  show ?case unfolding list_records_loop.simps by (intro keeps_intros http Suc)
qed

lemma zones_loops: "keeps P (fetch_zones_loop fuel E a ps page xs)" "keeps P (credential_zones_loop fuel E a page xs)"
proof (induction fuel arbitrary: page xs)
  case 0
  show "keeps P (fetch_zones_loop 0 E a ps page xs)" "keeps P (credential_zones_loop 0 E a page xs)" for page xs
    by (simp_all only: fetch_zones_loop.simps credential_zones_loop.simps) (rule keeps_raise)+
next
  case (Suc fuel)
  show "keeps P (fetch_zones_loop (Suc fuel) E a ps page xs)" for page xs
    unfolding fetch_zones_loop.simps by (intro keeps_intros http Suc)
  show "keeps P (credential_zones_loop (Suc fuel) E a page xs)" for page xs
    unfolding credential_zones_loop.simps by (intro keeps_intros http Suc)
qed

lemma oauth_key_set: "keeps P (cache_set_json E (oauth_at_key c) x ttl)" "keeps P (cache_set_json E (zones_key c) x ttl)"
  by (rule cache_set, simp)+

lemma upstream_auth: "keeps P (resolve_upstream_auth E c)"
proof -
  have "keeps P (commit_db E (store_rotated i n x y d))" for i n x y d by (rule rows) (simp add: store_rotated_def)
  then show ?thesis
    unfolding resolve_upstream_auth_def get_valid_access_token_def refresh_and_store_def refresh_access_token_def
      cache_access_token_def
    by (intro keeps_intros http tape cache_get oauth_key_set)
qed

lemma audit: "keeps P (record_audit E ctx entry)"
proof -
  have "keeps P (commit_db E (\<lambda>w. w\<lparr>w_audit := w_audit w @ [row]\<rparr>))" for row by (rule rows) simp
  then show ?thesis unfolding record_audit_def write_audit_def Let_def by (intro keeps_intros tape)
qed

lemma deny: "keeps P (deny_and_answer E ctx d entry)"
  unfolding deny_and_answer_def by (intro keeps_intros audit)

lemma authorize: "(\<And>z i. keeps P (f z i)) \<Longrightarrow> keeps P (authorize_dns_request uni rules m z i body f)"
  unfolding authorize_dns_request_def Let_def by (intro keeps_intros)

lemma authorize_id: "keeps P (authorize_by_record_id E ctx m z i body a)"
  unfolding authorize_by_record_id_def by (intro authorize fetch)

lemma guarded: "keeps P body \<Longrightarrow> keeps P (guarded_run E exempt name body)"
  by (rule keeps_lock_free) (auto intro: lock_calls trace)

lemma outcome: "keeps P (answer_mutation E m z i rq ctx r)"
  unfolding answer_mutation_def by (intro keeps_intros deny audit)

lemma mutation: "keeps P (mutate_dns_record_by_id E m z i body c rq ctx)"
proof -
  have "keeps P (authorize_and_forward E m z i body c ctx a)" for a
    unfolding authorize_and_forward_def by (intro keeps_intros authorize_id http)
  then show ?thesis unfolding mutate_dns_record_by_id_def Let_def by (intro keeps_intros upstream_auth guarded outcome)
qed

lemma proxy_handlers:
  "keeps P (verify_token_endpoint ctx)" "keeps P (list_zones fuel E rq ctx)" "keeps P (list_dns_records fuel E z rq ctx)"
  "keeps P (create_dns_record E z rq ctx)" "keeps P (by_id_handler E m z i rq ctx)"
proof -
  show "keeps P (verify_token_endpoint ctx)" unfolding verify_token_endpoint_def by (intro keeps_intros)
  show "keeps P (list_zones fuel E rq ctx)"
    unfolding list_zones_def fetch_all_zones_def by (intro keeps_intros upstream_auth zones_loops)
  show "keeps P (list_dns_records fuel E z rq ctx)"
    unfolding list_dns_records_def list_all_records_def by (intro keeps_intros upstream_auth records_loop)
  show "keeps P (create_dns_record E z rq ctx)"
    unfolding create_dns_record_def Let_def by (intro keeps_intros authorize upstream_auth http audit deny)
  show "keeps P (by_id_handler E m z i rq ctx)"
  proof -
    have "keeps P (patch_dns_record E z i rq ctx)" "keeps P (put_dns_record E z i rq ctx)" "keeps P (delete_dns_record E z i rq ctx)"
      unfolding patch_dns_record_def put_dns_record_def delete_dns_record_def by (intro keeps_intros mutation)+
    moreover have "keeps P (get_dns_record E z i rq ctx)"
      unfolding get_dns_record_def by (intro keeps_intros upstream_auth authorize_id deny)
    ultimately show ?thesis by (simp add: by_id_handler_def)
  qed
qed

lemma owned: "keeps P (get_owned_credential u i)" "keeps P (get_owned_scoped_token u j)"
  unfolding get_owned_credential_def get_owned_scoped_token_def by (intro keeps_intros)+

lemma validation: "keeps P (validate_scope_rules E cred rs)"
proof -
  have "keeps P (validate_rules_loop E cred rs auth memo)" for rs auth memo
  proof (induction rs arbitrary: auth memo)
    case Nil
    show ?case by (simp only: validate_rules_loop.simps) (rule keeps_return)
  next
    case (Cons r rs)
    show ?case unfolding validate_rules_loop.simps resolve_zone_name_def by (intro keeps_intros upstream_auth http Cons)
  qed
  then show ?thesis unfolding validate_scope_rules_def by (intro keeps_intros)
qed

lemma random_token: "keeps P (generate_scoped_token E)"
  by (rule keepsI) (use generate_scoped_token_spec [of E] rand in \<open>metis snd_conv\<close>)

lemma answered: "keeps P m \<Longrightarrow> keeps P (answer_errors b m)"
  unfolding answer_errors_def by (intro keeps_intros)

lemma user_dependency: "keeps P (current_user L b)"
proof -
  have "snd (current_user L b w) = w" for w
    by (auto simp: current_user_def get_current_user_def bind_app catch_app split: option.splits sum.splits)
  then show ?thesis by (simp add: keeps_def)
qed

lemma login_start: "keeps P (start_cf_oauth_login E)"
proof -
  have b: "keeps P (token_bytes E n)" for n by (rule keepsI) (use token_bytes_run [of E n] rand in \<open>metis snd_conv\<close>)
  have "keeps P (cache_set_json E (oauth_state_key k) x ttl)" for k x ttl by (rule cache_set) simp
  with b show ?thesis
    unfolding start_cf_oauth_login_def make_pkce_def token_urlsafe_def by (intro keeps_intros)
qed

end

text \<open>The handlers that also resolve scoped tokens, delete cache entries or revoke tokens\<close>

locale handler_invariant = upstream_invariant +
  assumes getdel: "keeps P (redis_getdel E k)" and cache_del: "keeps P (cache_del E ks)"
    and resolve: "keeps P (resolve_scoped_token E full)"
    and revocation: "keeps P (commit_db E (update_token i (revoke_row now)))" "keeps P (commit_db E (deletion c now))"
begin

lemma token_dependency: "keeps P (require_scoped_token E header)"
  unfolding require_scoped_token_def Let_def by (intro keeps_intros resolve)

lemma credential_services:
  "keeps P (register_credential E u label ty tok key email)" "keeps P (verify_credential E u i)"
  "keeps P (list_credential_zones fuel E u i)" "keeps P (list_credential_zone_records fuel E u i z ps)"
proof -
  have c: "keeps P (commit_db E (\<lambda>w. w\<lparr>w_credentials := w_credentials w @ [row]\<rparr>))" for row by (rule rows) simp
  have v: "keeps P (commit_db E (update_credential i f))" for f by (rule rows) (simp add: update_credential_def)
  show "keeps P (register_credential E u label ty tok key email)"
    unfolding register_credential_def Let_def by (intro keeps_intros tape c)
  show "keeps P (verify_credential E u i)"
    unfolding verify_credential_def verify_upstream_def Let_def by (intro keeps_intros owned upstream_auth http v)
  show "keeps P (list_credential_zones fuel E u i)"
    unfolding list_credential_zones_def by (intro keeps_intros owned cache_get upstream_auth zones_loops oauth_key_set)
  show "keeps P (list_credential_zone_records fuel E u i z ps)"
    unfolding list_credential_zone_records_def list_all_records_def by (intro keeps_intros owned upstream_auth records_loop)
qed

lemma deletion_service: "keeps P (delete_credential E u i)"
proof -
  have d: "keeps P (drop_rule_keys E ks)" for ks
  proof (induction ks)
    case Nil
    show ?case by (simp only: drop_rule_keys.simps) (rule keeps_return)
  next
    case (Cons k ks)
    then show ?case unfolding drop_rule_keys.simps by (intro keeps_intros cache_del)
  qed
  show ?thesis unfolding delete_credential_def by (intro keeps_intros owned d cache_del revocation(2) [unfolded deletion_def [abs_def]])
qed

lemma revocation_service: "keeps P (revoke_scoped_token E u i)"
  unfolding revoke_scoped_token_def by (intro keeps_intros owned revocation cache_del)

lemma accounts:
  "keeps P (register fmt E L email pw)" "keeps P (login E L email pw)" "keeps P (cf_callback E L code state)"
proof -
  have u: "keeps P (commit_db E (\<lambda>w. w\<lparr>w_users := w_users w @ [row]\<rparr>))" for row by (rule rows) simp
  show "keeps P (register fmt E L email pw)"
    unfolding register_def Let_def by (intro keeps_intros tape u)
  show "keeps P (login E L email pw)"
    unfolding login_def create_jwt_def by (intro keeps_intros)
  have link: "keeps P (link_credential E tokens u g)" if g: "\<And>v. g v = v\<lparr>w_users := w_users (g v)\<rparr>" for tokens u g
  proof -
    let ?f = "\<lambda>s a r e found fresh. store_delegated s a r e found fresh \<circ> g"
    have "?f s a r e found fresh w = w\<lparr>w_users := w_users (?f s a r e found fresh w),
        w_credentials := w_credentials (?f s a r e found fresh w), w_audit := w_audit (?f s a r e found fresh w)\<rparr>" for s a r e found fresh w
    proof -
      have "?f s a r e found fresh w = store_delegated s a r e found fresh (w\<lparr>w_users := w_users (g w)\<rparr>)"
        unfolding o_apply by (subst g) (rule refl)
      then show ?thesis by (cases found) (simp_all add: store_delegated_def)
    qed
    then have "keeps P (commit_db E (store_delegated s a r e found fresh \<circ> g))" for s a r e found fresh by (rule rows)
    then show ?thesis unfolding link_credential_def encrypt_token_def by (intro keeps_intros tape)
  qed
  have upsert: "keeps P (upsert_user E sub email)" for sub email
    unfolding upsert_user_def Let_def by (intro keeps_intros tape)
  have tail: "keeps P (bind (upsert_user E sub email) (\<lambda>(u, g).
      bind (link_credential E tokens u g) (\<lambda>_. bind (create_jwt E L (u_id u)) (\<lambda>jwt. return (u, jwt)))))" for sub email tokens
  proof (rule keeps_bind_result [OF upsert])
    fix p w t assume run: "upsert_user E sub email w = (Inr p, t)"
    obtain u g where p: "p = (u, g)" by (cases p)
    have "keeps P (link_credential E tokens u g)" using upsert_user_change [OF run [unfolded p]] by (rule link)
    then show "keeps P (case p of (u, g) \<Rightarrow> bind (link_credential E tokens u g) (\<lambda>_. bind (create_jwt E L (u_id u)) (\<lambda>jwt. return (u, jwt))))"
      unfolding p prod.case create_jwt_def by (intro keeps_intros)
  qed
  have ex: "keeps P (exchange_code E code v)" for v
    unfolding exchange_code_def call_json_def by (intro keeps_intros http)
  have val: "keeps P (validate_id_token E L i n a c)" for i n a c
    by (rule keeps_validate_id_token) (auto intro: trace jwks)
  have "keeps P (complete_cf_oauth_login E L code stored)" for stored
    unfolding complete_cf_oauth_login_def by (rule tail | rule ex | rule val | rule keeps_intros)+
  moreover have "keeps P (consume_oauth_state E state)"
    unfolding consume_oauth_state_def
    by (rule keeps_bind, intro keeps_intros getdel) (auto intro: keeps_intros split: option.splits redis_raw.splits)
  ultimately show "keeps P (cf_callback E L code state)"
    unfolding cf_callback_def handle_cf_oauth_callback_def
    by (intro keeps_intros) (auto intro: keeps_intros split: sum.splits)
qed

text \<open>Every handler but the two that issue a token carries the invariant; those two do if their commits do.\<close>

lemma handlers:
  assumes "\<not> issues_token c" shows "keeps P (handler E L fmt fuel c)"
proof -
  have m: "keeps P (managed L b h)" if "\<And>u. keeps P (h u)" for b h
    unfolding managed_def by (intro keeps_intros user_dependency that)
  have p: "keeps P (scoped E rq h)" if "\<And>ctx. keeps P (h ctx)" for rq h
    unfolding scoped_def by (intro keeps_intros token_dependency that)
  show ?thesis
  proof (cases c)
    case (Proxy_records z rq)
    then show ?thesis by (simp only: handler.simps) (intro p proxy_handlers)
  next
    case (Proxy_create z rq)
    then show ?thesis by (simp only: handler.simps) (intro p proxy_handlers)
  next
    case (Proxy_by_id m z i rq)
    then show ?thesis by (simp only: handler.simps) (intro p proxy_handlers)
  next
    case (Add_credential b l t k g e)
    then show ?thesis by (simp only: handler.simps) (intro m, unfold create_credential_endpoint_def, intro keeps_intros credential_services)
  next
    case (Credentials b)
    then show ?thesis by (simp only: handler.simps) (intro m, unfold list_credentials_endpoint_def, intro keeps_intros)
  next
    case (Remove_credential b i)
    then show ?thesis by (simp only: handler.simps) (intro m, unfold delete_credential_endpoint_def, intro answered keeps_intros deletion_service)
  next
    case (Check_credential b i)
    then show ?thesis by (simp only: handler.simps) (intro m, unfold verify_credential_endpoint_def, intro answered keeps_intros credential_services)
  next
    case (Zones b i)
    then show ?thesis by (simp only: handler.simps) (intro m, unfold list_zones_endpoint_def, intro answered keeps_intros credential_services)
  next
    case (Zone_records b i z t n)
    then show ?thesis by (simp only: handler.simps) (intro m, unfold list_zone_records_endpoint_def, intro answered keeps_intros credential_services)
  next
    case (Tokens b)
    then show ?thesis by (simp only: handler.simps) (intro m, unfold list_scoped_tokens_endpoint_def, intro keeps_intros)
  next
    case (Token_detail b i)
    then show ?thesis
      by (simp only: handler.simps) (intro m, unfold get_scoped_token_endpoint_def get_scoped_token_detail_def, intro answered keeps_intros owned)
  next
    case (Revoke b i)
    then show ?thesis by (simp only: handler.simps) (intro m, unfold revoke_scoped_token_endpoint_def, intro answered keeps_intros revocation_service)
  next
    case (Audit b k z s q n)
    then show ?thesis by (simp only: handler.simps) (intro m, unfold get_audit_logs_endpoint_def, intro keeps_intros)
  next
    case (Me b)
    then show ?thesis by (simp only: handler.simps) (intro m, unfold read_me_def, intro keeps_intros)
  qed (use assms in \<open>simp_all only: handler.simps issues_token.simps\<close>, (intro p proxy_handlers accounts keeps_intros | blast)+)
qed

lemma issuing_handlers:
  assumes mint: "\<And>row rs. keeps P (commit_db E (\<lambda>w. w\<lparr>w_tokens := w_tokens w @ [row], w_rules := w_rules w @ rs\<rparr>))"
    and rot: "\<And>i g. keeps P (commit_db E (update_token i (rotate_row g)))"
  shows "keeps P (handler E L fmt fuel c)"
proof (cases "issues_token c")
  case False
  then show ?thesis by (rule handlers)
next
  case True
  have rows: "keeps P (rule_rows E i now rs)" for i now rs
  proof (induction rs)
    case Nil
    show ?case by (simp only: rule_rows.simps) (rule keeps_return)
  next
    case (Cons r rs)
    then show ?case unfolding rule_rows.simps by (intro keeps_intros tape)
  qed
  have mint_service: "keeps P (mint_scoped_token E u n up rs ex)" for u n up rs ex
    unfolding mint_scoped_token_def Let_def by (intro keeps_intros owned validation random_token tape rows mint)
  have rotation_service: "keeps P (rotate_scoped_token E u i)" for u i
    unfolding rotate_scoped_token_def by (intro keeps_intros owned random_token rot cache_del)
  have m: "keeps P (managed L b h)" if "\<And>u. keeps P (h u)" for b h
    unfolding managed_def by (intro keeps_intros user_dependency that)
  show ?thesis
  proof (cases c)
    case (Mint b n up rs ex)
    then show ?thesis by (simp only: handler.simps) (intro m, unfold mint_scoped_token_endpoint_def, intro answered keeps_intros mint_service)
  next
    case (Rotate b i)
    then show ?thesis
      by (simp only: handler.simps) (intro m, unfold rotate_scoped_token_endpoint_def, intro answered keeps_intros rotation_service)
  qed (use True in simp_all)
qed

end

end
