(* ===== verification/Operations.thy ===== *)
theory Operations
  imports App
begin

text \<open>
  \<^verbatim>\<open>cli/console.py\<close> and the life of the process in \<^verbatim>\<open>main.py\<close>: the operator's commands, the
  readiness probes and the startup. A command returns the lines that it prints; the styles of the
  lines are presentation. The probe of the database is an argument, and so is the rendering of a
  time stamp (\<open>fmt\<close>).
\<close>

section \<open>Probes and lifespan\<close>

definition check_database :: "(world, unit) prog \<Rightarrow> (world, bool) prog" where
  "check_database select_one = catch (bind select_one (\<lambda>_. return True)) (\<lambda>_. return False)"

definition redis_ping :: "env \<Rightarrow> (world, unit) prog" where
  "redis_ping E = redis_call E (return ())"

definition check_redis :: "env \<Rightarrow> (world, bool) prog" where
  "check_redis E = catch (bind (redis_ping E) (\<lambda>_. return True)) (\<lambda>_. return False)"

definition readyz_endpoint :: "env \<Rightarrow> (world, unit) prog \<Rightarrow> (world, response) prog" where
  "readyz_endpoint E select_one =
     bind (check_database select_one) (\<lambda>database.
       if \<not> database then return (readyz False False)
       else bind (check_redis E) (\<lambda>redis. return (readyz True redis)))"

text \<open>
  \<^verbatim>\<open>_lifespan\<close> around the serving of requests; creating the Redis client and disposing of the engine
  have no effect on what is modelled, and closing Redis may fail without consequence.
\<close>

definition lifespan :: "env \<Rightarrow> (world, 'a) prog \<Rightarrow> (world, 'a) prog" where
  "lifespan E serving =
     bind (get_cf_client E) (\<lambda>_. \<lambda>w.
       (case serving w of (r, t) \<Rightarrow>
          (case close_cf_client t of (Inl e, u) \<Rightarrow> (Inl e, u) | (Inr _, u) \<Rightarrow> (r, u))))"

section \<open>The database\<close>

text \<open>
  \<^verbatim>\<open>db/session.py\<close>: \<open>create_all\<close> leaves the tables of the model as they are (they exist, or are
  created empty); on MySQL it runs, with its commit, under a lock. The version row is read and
  written in a session of its own after that.
\<close>

definition CURRENT_SCHEMA_VERSION :: int where "CURRENT_SCHEMA_VERSION = 1"

definition create_tables :: "env \<Rightarrow> (world, unit) prog" where
  "create_tables E =
     (if e_mysql E then advisory_lock E ''cfproxy_init_db'' (commit_db E (\<lambda>w. w)) else commit_db E (\<lambda>w. w))"

definition add_version :: "env \<Rightarrow> (world, unit) prog" where
  "add_version E = commit_db E (\<lambda>w. w\<lparr>w_schema_versions := w_schema_versions w @ [CURRENT_SCHEMA_VERSION]\<rparr>)"

definition init_db :: "env \<Rightarrow> (world, unit) prog" where
  "init_db E =
     bind (create_tables E) (\<lambda>_.
     bind (gets (\<lambda>w. CURRENT_SCHEMA_VERSION \<in> set (w_schema_versions w))) (\<lambda>existing.
       if existing then return () else add_version E))"

section \<open>Commands\<close>

definition init_db_command :: "env \<Rightarrow> (world, string list) prog" where
  "init_db_command E = bind (init_db E) (\<lambda>_. return [''[OK] database initialized''])"

definition bootstrap_admin_command :: "env \<Rightarrow> libs \<Rightarrow> string \<Rightarrow> string \<Rightarrow> (world, string list) prog" where
  "bootstrap_admin_command E L email password =
     bind (gets (user_by_email email)) (\<lambda>existing.
       if existing \<noteq> None then return [''[ERROR] a user with email '' @ CHR 0x27 # email @ CHR 0x27 # '' already exists'']
       else
         bind (hash_password L password) (\<lambda>h.
         bind (new_uuid E) (\<lambda>i.
         bind (gets utcnow) (\<lambda>now.
           let u = \<lparr>u_id = i, u_email = Some email, u_password_hash = Some h, u_auth_provider = ''local'', u_cf_sub = None,
                    u_is_active = True, u_created_at = now, u_updated_at = now\<rparr>
           in bind (commit_db E (\<lambda>w. w\<lparr>w_users := w_users w @ [u]\<rparr>)) (\<lambda>_.
                return [''[OK] created admin user id='' @ i @ '' email='' @ email])))))"

definition discover_scope_command :: "(json \<Rightarrow> string) \<Rightarrow> env \<Rightarrow> (world, string list) prog" where
  "discover_scope_command show E = bind (discover_dns_scope show E) (\<lambda>scopes.
     if scopes = [] then return [''[INFO] no scopes returned''] else return scopes)"

text \<open>\<^verbatim>\<open>f"{value}"\<close> of an optional string\<close>

definition str_opt :: "string option \<Rightarrow> string" where
  "str_opt v = (case v of None \<Rightarrow> ''None'' | Some s \<Rightarrow> s)"

definition audit_line :: "(datetime \<Rightarrow> string) \<Rightarrow> audit_log \<Rightarrow> string" where
  "audit_line fmt a = ''['' @ fmt (a_ts a) @ ''] '' @ py_upper (a_decision a) @ '' '' @ a_method a @ '' '' @ a_path a
     @ '' zone='' @ str_opt (a_zone_id a) @ '' record='' @ str_opt (a_record_id a) @ '' reason='' @ str_opt (a_deny_reason a)"

text \<open>A negative limit is no limit to SQLite and a syntax error to MySQL.\<close>

definition latest_audit :: "env \<Rightarrow> int \<Rightarrow> (world, audit_log list) prog" where
  "latest_audit E limit =
     (if limit < 0 \<and> e_mysql E then raise ProgrammingError
      else gets (\<lambda>w. let rows = sort_key (\<lambda>a. - instant (a_ts a)) (w_audit w)
                 in if limit < 0 then rows else take (nat limit) rows))"

definition tail_audit_command :: "(datetime \<Rightarrow> string) \<Rightarrow> env \<Rightarrow> int \<Rightarrow> (world, string list) prog" where
  "tail_audit_command fmt E limit = bind (latest_audit E limit) (\<lambda>entries.
     if entries = [] then return [''[INFO] no audit log entries found'']
     else return (map (audit_line fmt) (rev entries)))"

definition health_command :: "env \<Rightarrow> (world, unit) prog \<Rightarrow> (world, string list) prog" where
  "health_command E select_one =
     bind (check_database select_one) (\<lambda>db_ok.
     bind (check_redis E) (\<lambda>redis_ok.
       return [''['' @ (if db_ok then ''OK'' else ''FAIL'') @ ''] database'',
               ''['' @ (if redis_ok then ''OK'' else ''DEGRADED'') @ ''] redis'']))"

text \<open>The parsed command line, and \<^verbatim>\<open>main\<close>\<close>

datatype console_command = Init_db | Bootstrap_admin string string | Discover_scope | Tail_audit int | Health

fun console_main :: "(datetime \<Rightarrow> string) \<Rightarrow> (json \<Rightarrow> string) \<Rightarrow> env \<Rightarrow> libs \<Rightarrow> (world, unit) prog \<Rightarrow> console_command
    \<Rightarrow> (world, string list) prog" where
  "console_main fmt show E L select_one Init_db = init_db_command E"
| "console_main fmt show E L select_one (Bootstrap_admin email password) = bootstrap_admin_command E L email password"
| "console_main fmt show E L select_one Discover_scope = discover_scope_command show E"
| "console_main fmt show E L select_one (Tail_audit limit) = tail_audit_command fmt E limit"
| "console_main fmt show E L select_one Health = health_command E select_one"

section \<open>Lemmas\<close>

text \<open>The command and the endpoint create the same account.\<close>

lemma bootstrap_as_register:
  "snd (bootstrap_admin_command E L email pw w) = snd (register fmt E L email pw w)"
  "(\<exists>e. fst (bootstrap_admin_command E L email pw w) = Inl e) = (\<exists>e. fst (register fmt E L email pw w) = Inl e)"
  by (simp_all add: bootstrap_admin_command_def register_def bind_app Let_def split: prod.split sum.split)

lemma check_redis_run:
  "check_redis E w = (Inr (e_redis_up E (w_redis_calls w)), w\<lparr>w_redis_calls := Suc (w_redis_calls w)\<rparr>)"
  by (simp add: check_redis_def redis_ping_def redis_call_def catch_app bind_app Let_def)

lemma check_database_run:
  "select_one w = (r, t) \<Longrightarrow> check_database select_one w = (Inr (case r of Inl e \<Rightarrow> False | Inr _ \<Rightarrow> True), t)"
  by (cases r) (simp_all add: check_database_def catch_app bind_app)

lemma sorted_latest:
  assumes "latest_audit E limit w = (Inr rows, t)"
  shows "sorted (map (\<lambda>a. instant (a_ts a)) (rev rows)) \<and> set rows \<subseteq> set (w_audit w) \<and> t = w
     \<and> (0 \<le> limit \<longrightarrow> int (length rows) \<le> limit)
     \<and> (\<forall>a \<in> set rows. \<forall>b \<in> set (w_audit w) - set rows. instant (a_ts b) \<le> instant (a_ts a))"
proof -
  let ?key = "\<lambda>a. - instant (a_ts a)"
  let ?all = "sort_key ?key (w_audit w)"
  have rows: "rows = (if limit < 0 then ?all else take (nat limit) ?all)" "t = w"
    using assms by (auto simp: latest_audit_def Let_def split: if_splits)
  then obtain n where n: "rows = take n ?all" by (metis order_refl take_all)
  have s: "sorted (map ?key ?all)" by simp
  have "sorted (map ?key rows)" unfolding n take_map [symmetric] using s by (rule sorted_wrt_take)
  moreover have "sorted (map ?key xs) \<Longrightarrow> sorted (map (\<lambda>a. instant (a_ts a)) (rev xs))" for xs :: "audit_log list"
    by (induction xs) (auto simp: sorted_append)
  moreover have "set rows \<subseteq> set (w_audit w)" unfolding n using set_take_subset [of n ?all] by simp
  moreover have "instant (a_ts b) \<le> instant (a_ts a)" if a: "a \<in> set rows" and b: "b \<in> set (w_audit w) - set rows" for a b
  proof -
    have "b \<in> set (take n ?all @ drop n ?all)" using b by simp
    then have "b \<in> set (drop n ?all)" using b n by (simp only: set_append) blast
    moreover have "sorted (map ?key (take n ?all) @ map ?key (drop n ?all))" using s by (simp only: map_append [symmetric] append_take_drop_id)
    ultimately show ?thesis using a n by (fastforce simp: sorted_append)
  qed
  ultimately show ?thesis using rows by auto
qed

lemma create_tables_run:
  assumes "create_tables E w = (r, t)"
  shows "w_schema_versions t = w_schema_versions w \<and> w_users t = w_users w \<and> (constraints_ok E w \<longrightarrow> constraints_ok E t)"
  using assms
  by (auto simp: create_tables_def advisory_lock_def acquire_lock_def release_lock_def bind_app Let_def elim!: commit_db_cases
      split: if_splits prod.splits)

text \<open>
  The version row is written outside the lock: a process that has read the table before another
  one wrote the row fails on the primary key.
\<close>

lemma add_version_race:
  assumes "CURRENT_SCHEMA_VERSION \<in> set (w_schema_versions w)" and "e_commit_ok E (w_commits w)"
  shows "fst (add_version E w) = Inl IntegrityError"
  using assms by (simp add: add_version_def commit_db_def Let_def constraints_ok_def)

section \<open>Properties\<close>


text \<open>
  The service does not start with another upstream: with a base URL that is not pinned to the
  Cloudflare API the lifespan raises before anything is served or sent; otherwise it serves, and
  on every way out the client is closed.
\<close>

theorem startup_requires_pinned_origin:
  assumes "\<not> w_cf_client w"
  shows "(\<not> pinned E \<longrightarrow> lifespan E serving w = (Inl (unpinned (s_upstream_base_url (e_settings E))), w))
     \<and> (pinned E \<longrightarrow> fst (lifespan E serving w) = fst (serving (w\<lparr>w_cf_client := True\<rparr>))
          \<and> \<not> w_cf_client (snd (lifespan E serving w)))"
  using assms by (simp add: lifespan_def bind_app get_cf_client_run split: prod.split)

text \<open>
  The tail of the audit log: the command reads only, prints one line per row oldest first, no more than the limit, and no row that it leaves out is
  newer than one that it prints.
\<close>

theorem tail_audit_latest:
  assumes "tail_audit_command fmt E limit w = (Inr lines, t)"
  shows "t = w \<and> (\<exists>rows. lines = (if rows = [] then [''[INFO] no audit log entries found''] else map (audit_line fmt) rows)
     \<and> sorted (map (\<lambda>a. instant (a_ts a)) rows) \<and> set rows \<subseteq> set (w_audit w)
     \<and> (0 \<le> limit \<longrightarrow> int (length rows) \<le> limit)
     \<and> (\<forall>a \<in> set rows. \<forall>b \<in> set (w_audit w) - set rows. instant (a_ts b) \<le> instant (a_ts a)))"
proof -
  obtain rows where rows: "latest_audit E limit w = (Inr rows, t)"
      "lines = (if rows = [] then [''[INFO] no audit log entries found''] else map (audit_line fmt) (rev rows))"
    using assms by (auto simp: tail_audit_command_def bind_Inr_iff split: if_splits)
  from sorted_latest [OF rows(1)] rows(2) show ?thesis by (intro conjI exI [of _ "rev rows"]) auto
qed

text \<open>
  Readiness: the probes never raise; the service is unready exactly when the database does not
  answer, and a Redis that does not answer only degrades the answer.
\<close>

theorem readiness:
  assumes "select_one w = (r, t)"
  shows "\<exists>resp u. readyz_endpoint E select_one w = (Inr resp, u)
     \<and> status_code resp = (case r of Inl e \<Rightarrow> 503 | Inr _ \<Rightarrow> 200)
     \<and> ((\<exists>x. r = Inr x) \<longrightarrow> content resp = JObj [(''status'', JStr ''ok''), (''redis'', JStr (if e_redis_up E (w_redis_calls t) then ''ok'' else ''degraded''))])"
  using check_database_run [of select_one w r t] assms
  by (cases r) (simp_all add: readyz_endpoint_def bind_app check_redis_run readyz_def)

section \<open>Witnesses\<close>


lemma startup_requires_pinned_origin_witness:
  "fst (lifespan (demo_env\<lparr>e_settings := demo_settings\<lparr>s_upstream_base_url := ''https://evil.example.com''\<rparr>\<rparr>) (return ()) demo_world)
     = Inl (unpinned ''https://evil.example.com'')"
proof -
  let ?E = "demo_env\<lparr>e_settings := demo_settings\<lparr>s_upstream_base_url := ''https://evil.example.com''\<rparr>\<rparr>"
  have c: "\<not> w_cf_client demo_world" by (simp add: demo_world_def)
  have "\<not> pinned ?E" unfolding pinned_def by code_simp
  with startup_requires_pinned_origin [OF c, of ?E "return ()"] show ?thesis by simp
qed

definition demo_audited :: world where
  "demo_audited = demo_world\<lparr>w_audit := [(audit_entry ''GET'' ''/a'' ''allow'')\<lparr>a_ts := demo_time\<rparr>,
     (audit_entry ''PUT'' ''/b'' ''deny'')\<lparr>a_ts := demo_time\<lparr>instant := 9\<rparr>\<rparr>]\<rparr>"

lemma tail_audit_latest_witness:
  "\<exists>lines. tail_audit_command (\<lambda>_. ''t'') demo_env 1 demo_audited = (Inr lines, demo_audited) \<and> length lines = 1"
proof -
  let ?run = "tail_audit_command (\<lambda>_. ''t'') demo_env 1 demo_audited"
  have "case fst ?run of Inl e \<Rightarrow> False | Inr l \<Rightarrow> length l = 1" by code_simp
  then obtain lines t where run: "?run = (Inr lines, t)" "length lines = 1" by (cases ?run) (auto split: sum.splits)
  with tail_audit_latest [OF run(1)] show ?thesis by auto
qed

lemma readiness_witness:
  "\<exists>resp u. readyz_endpoint demo_env (raise OperationalError) demo_world = (Inr resp, u) \<and> status_code resp = 503"
  using readiness [of "raise OperationalError" demo_world "Inl OperationalError" demo_world demo_env] by auto

end
