(* ===== verification/Deployment.thy ===== *)
theory Deployment
  imports System Operations
begin

text \<open>
  The transitions of a deployment: a call is served, an OAuth login starts, the operator runs a
  command, time passes, Redis loses entries, the process restarts; and what holds in every world they reach. The invariants
  are interpretations of \<open>handler_invariant\<close>.
\<close>

section \<open>Serving a call\<close>

text \<open>The router prefix of a call, which is what the exception handlers look at\<close>

fun surface :: "call \<Rightarrow> string" where
  "surface (Verify_token _) = ''/client/v4/user/tokens/verify''"
| "surface (Proxy_zones _) = ''/client/v4/zones''"
| "surface (Proxy_records z _) = ''/client/v4/zones/'' @ z @ ''/dns_records''"
| "surface (Proxy_create z _) = ''/client/v4/zones/'' @ z @ ''/dns_records''"
| "surface (Proxy_by_id _ z i _) = ''/client/v4/zones/'' @ z @ ''/dns_records/'' @ i"
| "surface Proxy_blocked = ''/client/v4/zones''"
| "surface Proxy_other = ''/client/v4''"
| "surface _ = ''/api/v1''"

definition serve :: "env \<Rightarrow> libs \<Rightarrow> (datetime \<Rightarrow> string) \<Rightarrow> nat \<Rightarrow> call \<Rightarrow> world \<Rightarrow> response \<times> world" where
  "serve E L fmt fuel c = run_endpoint (surface c) (handler E L fmt fuel c)"

section \<open>Transitions\<close>

text \<open>
  The lookup id of a new or rotated token is drawn at random from 62 to the 16; a transition in
  which it hits one under which Redis still holds rules of a token that was rotated away is left
  out.
\<close>

definition fresh_lookups :: "world \<Rightarrow> world \<Rightarrow> bool" where
  "fresh_lookups w t \<longleftrightarrow> (\<forall>k \<in> set (w_tokens t). t_lookup_id k \<notin> t_lookup_id ` set (w_tokens w) \<longrightarrow>
     (\<forall>n. live_json w (rules_key (t_lookup_id k) n) = None))"

inductive transition :: "env \<Rightarrow> libs \<Rightarrow> (datetime \<Rightarrow> string) \<Rightarrow> nat \<Rightarrow> world \<Rightarrow> world \<Rightarrow> bool"
  for E L fmt fuel where
  served: "serve E L fmt fuel c w = (resp, t) \<Longrightarrow> fresh_lookups w t \<Longrightarrow> transition E L fmt fuel w t"
| login_started: "start_cf_oauth_login E w = (r, t) \<Longrightarrow> transition E L fmt fuel w t"
| operated: "console_main fmt shw E L (\<lambda>v. (probe, v)) command w = (out, t) \<Longrightarrow> transition E L fmt fuel w t"
| tick: "0 \<le> d \<Longrightarrow> transition E L fmt fuel w (w\<lparr>w_now := w_now w + d\<rparr>)"
| eviction: "transition E L fmt fuel w (w\<lparr>w_redis := w_redis w |` K\<rparr>)"
| restart: "transition E L fmt fuel w (w\<lparr>w_cf_client := False, w_jwks := (JNull, 0)\<rparr>)"

inductive reachable :: "env \<Rightarrow> libs \<Rightarrow> (datetime \<Rightarrow> string) \<Rightarrow> nat \<Rightarrow> world \<Rightarrow> world \<Rightarrow> bool"
  for E L fmt fuel w where
  start: "reachable E L fmt fuel w w"
| step: "reachable E L fmt fuel w u \<Longrightarrow> transition E L fmt fuel u t \<Longrightarrow> reachable E L fmt fuel w t"

section \<open>Invariants carried by every handler\<close>

text \<open>
  The operator's commands carry an invariant of the handlers that the recording of the schema
  version carries too; the probe of the database changes nothing.
\<close>

context handler_invariant
begin

lemma redis_contact: "P w \<Longrightarrow> P (w\<lparr>w_redis_calls := Suc (w_redis_calls w)\<rparr>)"
  using keepsD [OF cache_get, of w] by (simp add: cache_get_json_run)

lemma console:
  assumes "keeps P (add_version E)" shows "keeps P (console_main dfmt shw E L (\<lambda>v. (probe, v)) command)"
proof (cases command)
  case Init_db
  have "keeps P (commit_db E (\<lambda>w. w))" by (rule rows) simp
  then have "keeps P (create_tables E)"
    unfolding create_tables_def by (intro keeps_intros keeps_advisory_lock) (auto intro: lock_calls trace)
  then show ?thesis using assms unfolding Init_db console_main.simps init_db_command_def init_db_def by (intro keeps_intros)
next
  case (Bootstrap_admin email pw)
  show ?thesis
    unfolding Bootstrap_admin console_main.simps
    using accounts(1) [of undefined L email pw] by (simp add: keeps_def bootstrap_as_register [where fmt = undefined])
next
  case Discover_scope
  show ?thesis
    unfolding Discover_scope console_main.simps discover_scope_command_def discover_dns_scope_def call_json_def
    by (intro keeps_intros http)
next
  case (Tail_audit limit)
  show ?thesis
    unfolding Tail_audit console_main.simps tail_audit_command_def latest_audit_def by (intro keeps_intros)
next
  case Health
  have "keeps P (check_redis E)" by (rule keepsI) (simp add: check_redis_run redis_contact)
  moreover have "keeps P (check_database (\<lambda>v. (probe, v)))"
    by (rule keepsI) (cases probe; simp add: check_database_def catch_app bind_app)
  ultimately show ?thesis unfolding Health console_main.simps health_command_def by (intro keeps_intros)
qed

end

text \<open>The schema's constraints\<close>

lemma keeps_commit_if:
  assumes "\<And>w. P w \<Longrightarrow> P (w\<lparr>w_commits := Suc (w_commits w)\<rparr>)"
    and "\<And>w. P w \<Longrightarrow> constraints_ok E (f w) \<Longrightarrow> P ((f w)\<lparr>w_commits := Suc (w_commits w)\<rparr>)"
  shows "keeps P (commit_db E f)"
  using assms by (intro keepsI) (auto simp: commit_db_def Let_def)

lemma redis_getdel_run:
  "redis_getdel E k w = (if e_redis_up E (w_redis_calls w)
     then (Inr (live_entry w k), w\<lparr>w_redis_calls := Suc (w_redis_calls w), w_redis := (w_redis w)(k := None)\<rparr>)
     else (Inl RedisError, w\<lparr>w_redis_calls := Suc (w_redis_calls w)\<rparr>))"
  by (simp add: redis_getdel_def redis_call_def bind_app Let_def live_entry_def)

lemma keeps_tables:
  assumes "\<And>w t. same_but_redis w t \<Longrightarrow> P w \<Longrightarrow> P t"
  shows "keeps P (cache_get_json E k)" "keeps P (redis_getdel E k)" "keeps P (cache_del E ks)"
    "keeps P (cache_set_json E k x ttl)" "keeps P (resolve_scoped_token E full)"
proof -
  have *: "keeps P m" if "\<And>w. same_but_redis w (snd (m w))" for m :: "(world, 'a) prog"
    using assms that by (intro keepsI) blast
  show "keeps P (cache_get_json E k)" "keeps P (cache_del E ks)" "keeps P (cache_set_json E k x ttl)"
    "keeps P (resolve_scoped_token E full)"
    by (rule *, rule redis.get_frame redis.set_frame redis.del_frame resolve_frame)+
  show "keeps P (redis_getdel E k)" by (rule *) (simp add: redis_getdel_run same_but_redis_def)
qed

interpretation constrained: handler_invariant E "constraints_ok E" for E
proof
  have c: "constraints_ok E w = constraints_ok E t" if "same_but_redis w t" for w t
    using that unfolding same_but_redis_def by (metis constraints_ok_upd(3,4))
  show "keeps (constraints_ok E) (cache_get_json E k)" "keeps (constraints_ok E) (redis_getdel E k)"
    "keeps (constraints_ok E) (cache_del E ks)" "keeps (constraints_ok E) (cache_set_json E k x ttl)"
    "keeps (constraints_ok E) (resolve_scoped_token E full)" for k ks x ttl full
    by (rule keeps_tables, simp add: c)+
  show "keeps (constraints_ok E) (get_cf_client E)"
    by (rule keepsI) (simp add: get_cf_client_run)
qed (simp_all add: keeps_constraints_commit)

interpretation pinning: handler_invariant E "client_pinned E" for E
proof
  have c: "client_pinned E w = client_pinned E t" if "same_but_redis w t" for w t
    using that unfolding same_but_redis_def client_pinned_def by (metis world.select_convs(12) world.surjective world.update_convs(6,7))
  show "keeps (client_pinned E) (cache_get_json E k)" "keeps (client_pinned E) (redis_getdel E k)"
    "keeps (client_pinned E) (cache_del E ks)" "keeps (client_pinned E) (cache_set_json E k x ttl)"
    "keeps (client_pinned E) (resolve_scoped_token E full)" for k ks x ttl full
    by (rule keeps_tables, simp add: c)+
  show "keeps (client_pinned E) (get_cf_client E)"
    by (rule keepsI) (auto simp: get_cf_client_run client_pinned_def)
  show "keeps (client_pinned E) (commit_db E f)"
    if "\<And>w. f w = w\<lparr>w_users := w_users (f w), w_credentials := w_credentials (f w), w_audit := w_audit (f w)\<rparr>" for f
  proof (rule keeps_commit_if)
    fix w assume "client_pinned E w"
    moreover have "w_cf_client (f w) = w_cf_client w" by (subst that) simp
    ultimately show "client_pinned E ((f w)\<lparr>w_commits := Suc (w_commits w)\<rparr>)" by (simp add: client_pinned_def)
  qed (simp add: client_pinned_def)
  show "keeps (client_pinned E) (commit_db E (update_token i (revoke_row now)))" for i now
    by (rule keeps_commit_if) (simp_all add: client_pinned_def update_token_def)
  show "keeps (client_pinned E) (commit_db E (deletion c now))" for c now
    by (rule keeps_commit_if) (simp_all add: client_pinned_def deletion_def)
qed (simp_all add: client_pinned_def)

text \<open>Coherence of the rules cache\<close>

definition coherent :: "env \<Rightarrow> world \<Rightarrow> bool" where
  "coherent E w \<longleftrightarrow> constraints_ok E w \<and> rules_coherent w"

lemma rules_coherent_less:
  assumes "rules_coherent w" and "w_tokens t = w_tokens w" and "w_rules t = w_rules w"
    and "\<And>l n v. live_json t (rules_key l n) = Some v \<Longrightarrow> live_json w (rules_key l n) = Some v"
  shows "rules_coherent t"
  using assms by (intro rules_coherent_step [OF assms(1)]) (auto simp: rules_of_def)

lemma keeps_coherent_less:
  assumes "keeps (constraints_ok E) m"
    and "\<And>w. w_tokens (snd (m w)) = w_tokens w \<and> w_rules (snd (m w)) = w_rules w"
    and "\<And>w l n v. live_json (snd (m w)) (rules_key l n) = Some v \<Longrightarrow> live_json w (rules_key l n) = Some v"
  shows "keeps (coherent E) m"
proof (rule keepsI)
  fix w assume w: "coherent E w"
  then have "constraints_ok E (snd (m w))" using assms(1) by (simp add: keeps_def coherent_def)
  moreover have "rules_coherent (snd (m w))"
    using w assms(2,3) [of w] by (intro rules_coherent_less [of w "snd (m w)"]) (simp_all add: coherent_def)
  ultimately show "coherent E (snd (m w))" by (simp add: coherent_def)
qed

lemma live_getdel: "live_json (snd (redis_getdel E k w)) j = Some v \<Longrightarrow> live_json w j = Some v"
  by (auto simp: redis_getdel_run live_json_def live_entry_def split: if_splits)

lemma live_del: "live_json (snd (cache_del E ks w)) j = Some v \<Longrightarrow> live_json w j = Some v"
  using redis.del_frame(2) [of E ks w j] by auto

lemma live_set:
  assumes "\<And>l n. k \<noteq> rules_key l n" and "live_json (snd (cache_set_json E k x ttl w)) (rules_key l n) = Some v"
  shows "live_json w (rules_key l n) = Some v"
  using redis.set_frame(2) [of E k x ttl w] assms(2) assms(1) [of l n] by auto

lemma keeps_coherent_commit:
  assumes "\<And>w. w_redis (f w) = w_redis w \<and> w_now (f w) = w_now w"
    and "\<And>w. coherent E w \<Longrightarrow> constraints_ok E (f w) \<Longrightarrow> rules_coherent (f w)"
  shows "keeps (coherent E) (commit_db E f)"
proof (rule keeps_commit_if)
  show "coherent E (w\<lparr>w_commits := Suc (w_commits w)\<rparr>)" if "coherent E w" for w
    using that rules_coherent_less [of w "w\<lparr>w_commits := Suc (w_commits w)\<rparr>"] by (simp add: coherent_def live_json_def live_entry_def)
  fix w assume "coherent E w" "constraints_ok E (f w)"
  then show "coherent E ((f w)\<lparr>w_commits := Suc (w_commits w)\<rparr>)"
    using assms(2) rules_coherent_less [of "f w" "(f w)\<lparr>w_commits := Suc (w_commits w)\<rparr>"]
    by (simp add: coherent_def live_json_def live_entry_def)
qed

lemma tables_coherent:
  assumes "rules_coherent w" and "w_redis t = w_redis w" "w_now t = w_now w" "w_rules t = w_rules w"
    and "w_tokens t = map (\<lambda>k. if p k then f k else k) (w_tokens w)"
    and "\<And>k. t_lookup_id (f k) = t_lookup_id k" and "\<And>k. t_version k < t_version (f k)"
  shows "rules_coherent t"
proof (rule rules_coherent_step [OF assms(1)])
  show "live_json t (rules_key l n) = Some v \<Longrightarrow> live_json w (rules_key l n) = Some v" for l n v
    using assms(2,3) by (simp add: live_json_def live_entry_def)
  fix k' assume "k' \<in> set (w_tokens t)"
  then obtain k where k: "k \<in> set (w_tokens w)" "k' = (if p k then f k else k)" using assms(5) by auto
  with assms(4,6,7) have "t_lookup_id k = t_lookup_id k' \<and> (t_version k < t_version k' \<or> (t_version k = t_version k' \<and> rules_of t k' = rules_of w k))"
    by (auto simp: rules_of_def)
  with k(1) show "(\<forall>n. live_json w (rules_key (t_lookup_id k') n) = None)
      \<or> (\<exists>k \<in> set (w_tokens w). t_lookup_id k = t_lookup_id k' \<and>
           (t_version k < t_version k' \<or> (t_version k = t_version k' \<and> rules_of t k' = rules_of w k)))" by blast
qed

interpretation caching: handler_invariant E "coherent E" for E
proof
  have upd: "coherent E t" if "coherent E w" "constraints_ok E t = constraints_ok E w" "w_tokens t = w_tokens w"
    "w_rules t = w_rules w" "w_redis t = w_redis w" "w_now t = w_now w" for w t
  proof -
    have "rules_coherent t"
      using that by (intro rules_coherent_less [of w t]) (simp_all add: coherent_def live_json_def live_entry_def)
    with that(1,2) show ?thesis by (simp add: coherent_def)
  qed
  show "coherent E w \<Longrightarrow> coherent E (w\<lparr>w_trace := tr\<rparr>)" "coherent E w \<Longrightarrow> coherent E (w\<lparr>w_rand := n\<rparr>)"
    "coherent E w \<Longrightarrow> coherent E (w\<lparr>w_jwks := j\<rparr>)" "coherent E w \<Longrightarrow> coherent E (w\<lparr>w_lock_calls := n\<rparr>)" for w tr n j
    by (rule upd [of w], assumption, simp, simp, simp, simp, simp)+
  show "keeps (coherent E) (get_cf_client E)"
  proof (rule keepsI)
    fix w assume "coherent E w"
    then show "coherent E (snd (get_cf_client E w))" by (rule upd) (simp_all add: get_cf_client_run)
  qed
  note same = same_but_redis_fields(1,2)
  show "keeps (coherent E) (cache_get_json E k)" for k
    by (rule keeps_coherent_less [OF keeps_constraints_cache(1)])
      (simp_all add: redis.get_frame(2) same [OF redis.get_frame(1)])
  show "keeps (coherent E) (cache_del E ks)" for ks
    by (rule keeps_coherent_less [OF keeps_constraints_cache(3)])
      (simp add: same [OF redis.del_frame(1)], erule live_del)
  show "keeps (coherent E) (redis_getdel E k)" for k
    by (rule keeps_coherent_less [OF constrained.getdel]) (simp add: redis_getdel_run, erule live_getdel)
  show "keeps (coherent E) (cache_set_json E k x ttl)" if "\<And>l v. k \<noteq> rules_key l v" for k x ttl
    by (rule keeps_coherent_less [OF keeps_constraints_cache(2)])
      (simp add: same [OF redis.set_frame(1)], erule live_set [OF that])
  show "keeps (coherent E) (resolve_scoped_token E full)" for full
  proof (rule keepsI)
    fix w assume w: "coherent E w"
    have "constraints_ok E (snd (resolve_scoped_token E full w))"
      using constrained.resolve w by (simp add: keeps_def coherent_def)
    moreover have "rules_coherent (snd (resolve_scoped_token E full w))"
      using resolve_database [of w E full] w by (simp add: coherent_def constraints_ok_def)
    ultimately show "coherent E (snd (resolve_scoped_token E full w))" by (simp add: coherent_def)
  qed
  show "keeps (coherent E) (commit_db E f)"
    if f: "\<And>w. f w = w\<lparr>w_users := w_users (f w), w_credentials := w_credentials (f w), w_audit := w_audit (f w)\<rparr>" for f
  proof (rule keeps_coherent_commit)
    have *: "w_redis (f w) = w_redis w" "w_now (f w) = w_now w" "w_tokens (f w) = w_tokens w" "w_rules (f w) = w_rules w" for w
      by (subst f, simp)+
    show "w_redis (f w) = w_redis w \<and> w_now (f w) = w_now w" for w using * by simp
    show "coherent E w \<Longrightarrow> rules_coherent (f w)" for w
      using rules_coherent_less [of w "f w"] * by (simp add: coherent_def live_json_def live_entry_def)
  qed
  show "keeps (coherent E) (commit_db E (update_token i (revoke_row now)))" for i now
    by (rule keeps_coherent_commit, simp add: update_token_def)
      (rule tables_coherent [where p = "\<lambda>k. t_id k = i" and f = "revoke_row now"], auto simp: coherent_def update_token_def)
  show "keeps (coherent E) (commit_db E (deletion c now))" for c now
    by (rule keeps_coherent_commit, simp add: deletion_def)
      (rule tables_coherent [where p = "dependent_token c" and f = "revoke_row now"], auto simp: coherent_def deletion_def)
qed

section \<open>Issuing tokens\<close>

text \<open>A program that, when it raises, has kept a predicate\<close>

definition keeps_err :: "('s \<Rightarrow> bool) \<Rightarrow> ('s, 'a) prog \<Rightarrow> bool" where
  "keeps_err P m \<longleftrightarrow> (\<forall>s e t. P s \<longrightarrow> m s = (Inl e, t) \<longrightarrow> P t)"

lemma keeps_err_bind: "keeps P m \<Longrightarrow> (\<And>x. keeps_err P (f x)) \<Longrightarrow> keeps_err P (bind m f)"
  by (fastforce simp: keeps_err_def keeps_def bind_app split: prod.splits sum.splits)

lemma keeps_err_last:
  assumes m: "keeps_err P m" and f: "\<And>x s. \<exists>y t. f x s = (Inr y, t)"
  shows "keeps_err P (bind m f)"
  unfolding keeps_err_def
proof (intro allI impI)
  fix s e t assume "P s" "bind m f s = (Inl e, t)"
  moreover obtain r u where "m s = (r, u)" by (cases "m s")
  moreover have "f x u \<noteq> (Inl e, t)" for x using f [of x u] by auto
  ultimately show "P t" using m by (cases r) (auto simp: keeps_err_def bind_app)
qed

lemma keeps_errD: "keeps_err P m \<Longrightarrow> P s \<Longrightarrow> m s = (Inl e, t) \<Longrightarrow> P t"
  unfolding keeps_err_def by blast

lemma keeps_err_commit: "(\<And>w. P w \<Longrightarrow> P (w\<lparr>w_commits := Suc (w_commits w)\<rparr>)) \<Longrightarrow> keeps_err P (commit_db E f)"
  by (auto simp: keeps_err_def elim!: commit_db_cases)

text \<open>The tokens, their rules and what Redis holds of them are those of \<open>u\<close>.\<close>

definition unmoved :: "world \<Rightarrow> world \<Rightarrow> bool" where
  "unmoved u w \<longleftrightarrow> w_tokens w = w_tokens u \<and> w_rules w = w_rules u
     \<and> (\<forall>l n. live_json w (rules_key l n) = live_json u (rules_key l n))"

lemma unmoved_upd:
  "w_tokens t = w_tokens w \<Longrightarrow> w_rules t = w_rules w \<Longrightarrow> (\<And>l n. live_json t (rules_key l n) = live_json w (rules_key l n)) \<Longrightarrow>
     unmoved u w \<Longrightarrow> unmoved u t"
  by (simp add: unmoved_def)

lemma unmoved_refl: "unmoved u u"
  by (simp add: unmoved_def)

lemma unmoved_frame:
  "w_tokens t = w_tokens w \<Longrightarrow> w_rules t = w_rules w \<Longrightarrow> w_redis t = w_redis w \<Longrightarrow> w_now t = w_now w \<Longrightarrow> unmoved u w \<Longrightarrow> unmoved u t"
  by (simp add: unmoved_def live_json_def live_entry_def)

interpretation unmoving: upstream_invariant E "unmoved u" for E u
proof
  show "unmoved u w \<Longrightarrow> unmoved u (w\<lparr>w_trace := tr\<rparr>)" "unmoved u w \<Longrightarrow> unmoved u (w\<lparr>w_rand := n\<rparr>)"
    "unmoved u w \<Longrightarrow> unmoved u (w\<lparr>w_jwks := j\<rparr>)" "unmoved u w \<Longrightarrow> unmoved u (w\<lparr>w_lock_calls := n\<rparr>)" for w tr n j
    by (rule unmoved_frame [of _ w], simp, simp, simp, simp, assumption)+
  show "keeps (unmoved u) (get_cf_client E)"
  proof (rule keepsI)
    fix w assume "unmoved u w"
    then show "unmoved u (snd (get_cf_client E w))" by (rule unmoved_frame [rotated 4]) (simp_all add: get_cf_client_run)
  qed
  show "keeps (unmoved u) (cache_get_json E k)" for k
  proof (rule keepsI)
    fix w assume "unmoved u w"
    then show "unmoved u (snd (cache_get_json E k w))"
      by (rule unmoved_upd [rotated 3]) (simp_all add: redis.get_frame(2) same_but_redis_fields(1,2) [OF redis.get_frame(1)])
  qed
  show "keeps (unmoved u) (cache_set_json E k x ttl)" if k: "\<And>l v. k \<noteq> rules_key l v" for k x ttl
  proof (rule keepsI)
    fix w assume "unmoved u w"
    moreover have "live_json (snd (cache_set_json E k x ttl w)) (rules_key l n) = live_json w (rules_key l n)" for l n
      using redis.set_frame(2) [of E k x ttl w] k [of l n] by auto
    ultimately show "unmoved u (snd (cache_set_json E k x ttl w))"
      by (rule unmoved_upd [OF same_but_redis_fields(1,2) [OF redis.set_frame(1)], rotated])
  qed
  show "keeps (unmoved u) (commit_db E f)"
    if f: "\<And>w. f w = w\<lparr>w_users := w_users (f w), w_credentials := w_credentials (f w), w_audit := w_audit (f w)\<rparr>" for f
  proof (rule keeps_commit_if)
    have *: "w_redis (f w) = w_redis w" "w_now (f w) = w_now w" "w_tokens (f w) = w_tokens w" "w_rules (f w) = w_rules w" for w
      by (subst f, simp)+
    fix w assume "unmoved u w"
    show "unmoved u (w\<lparr>w_commits := Suc (w_commits w)\<rparr>)"
      by (rule unmoved_frame [OF _ _ _ _ \<open>unmoved u w\<close>]) simp_all
    show "unmoved u ((f w)\<lparr>w_commits := Suc (w_commits w)\<rparr>)"
      by (rule unmoved_frame [OF _ _ _ _ \<open>unmoved u w\<close>]) (simp_all add: *)
  qed
qed

lemma unmoved_commits: "unmoved u w \<Longrightarrow> unmoved u (w\<lparr>w_commits := n\<rparr>)"
  by (rule unmoved_frame) simp_all

lemma keeps_unmoved_rows: "keeps (unmoved u) (rule_rows E i now rs)"
proof (induction rs)
  case Nil
  show ?case by (simp only: rule_rows.simps) (rule keeps_return)
next
  case (Cons r rs)
  then show ?case unfolding rule_rows.simps by (intro keeps_intros unmoving.tape)
qed

lemma mint_failed:
  assumes "mint_scoped_token E u name up rs ex w = (Inl e, t)" shows "unmoved w t"
proof -
  have "keeps_err (unmoved w) (mint_scoped_token E u name up rs ex)"
    unfolding mint_scoped_token_def Let_def
    by (rule keeps_err_bind, rule unmoving.owned unmoving.validation unmoving.random_token unmoving.tape keeps_gets keeps_unmoved_rows)+
      (rule keeps_err_last, rule keeps_err_commit, erule unmoved_commits, simp)
  from keeps_errD [OF this unmoved_refl assms] show ?thesis .
qed

lemma rotate_failed:
  assumes "rotate_scoped_token E u i w = (Inl e, t)" shows "unmoved w t"
proof -
  have "keeps_err (unmoved w) (rotate_scoped_token E u i)"
    unfolding rotate_scoped_token_def
    by (rule keeps_err_bind, rule unmoving.owned unmoving.random_token)+
      (rule keeps_err_last, rule keeps_err_commit, erule unmoved_commits, simp add: bind_app cache_del_run)
  from keeps_errD [OF this unmoved_refl assms] show ?thesis .
qed

lemma unmoved_coherent: "unmoved w t \<Longrightarrow> rules_coherent w \<Longrightarrow> rules_coherent t"
  by (rule rules_coherent_less) (simp_all add: unmoved_def)

lemma same_lookup: "tokens_ok ts \<Longrightarrow> k \<in> set ts \<Longrightarrow> k' \<in> set ts \<Longrightarrow> t_lookup_id k = t_lookup_id k' \<Longrightarrow> k = k'"
  unfolding tokens_ok_def by (metis distinct_map inj_onD)

lemma same_id: "tokens_ok ts \<Longrightarrow> k \<in> set ts \<Longrightarrow> k' \<in> set ts \<Longrightarrow> t_id k = t_id k' \<Longrightarrow> k = k'"
  unfolding tokens_ok_def by (metis distinct_map inj_onD)

lemma mint_coherent:
  assumes coh: "rules_coherent w" and run: "mint_scoped_token E u name up rs ex w = (r, t)" and fresh: "fresh_lookups w t"
  shows "rules_coherent t"
proof (cases r)
  case (Inl e)
  with run coh show ?thesis using mint_failed unmoved_coherent by blast
next
  case (Inr p)
  obtain row full where p: "p = (row, full)" by (cases p)
  obtain cred w1 rows where val: "validate_scope_rules E cred rs w = (Inr (), w1)"
    and rows: "\<forall>r \<in> set rows. r_scoped_token_id r = t_id row" "w_tokens t = w_tokens w1 @ [row]" "w_rules t = w_rules w1 @ rows"
      "live_json t = live_json w1" "constraints_ok E t"
    using mint_run [OF run [unfolded Inr p]] by metis
  have w1: "unmoved w w1" using keepsD [OF unmoving.validation unmoved_refl val] .
  note t = rows(2-4) w1 [unfolded unmoved_def]
  have ok: "tokens_ok (w_tokens w @ [row])" using rows(5) t by (simp add: constraints_ok_def)
  show ?thesis
  proof (rule rules_coherent_step [OF coh])
    show "live_json t (rules_key l n) = Some v \<Longrightarrow> live_json w (rules_key l n) = Some v" for l n v using t by simp
    fix k assume "k \<in> set (w_tokens t)"
    then consider "k = row" | "k \<in> set (w_tokens w)" "k \<noteq> row" using t by auto
    then show "(\<forall>n. live_json w (rules_key (t_lookup_id k) n) = None)
        \<or> (\<exists>k' \<in> set (w_tokens w). t_lookup_id k' = t_lookup_id k \<and>
             (t_version k' < t_version k \<or> (t_version k' = t_version k \<and> rules_of t k = rules_of w k')))"
    proof cases
      case 1
      have "t_lookup_id row \<notin> t_lookup_id ` set (w_tokens w)" using ok by (simp add: tokens_ok_def)
      with 1 fresh t show ?thesis by (simp add: fresh_lookups_def)
    next
      case 2
      have "t_id k \<noteq> t_id row" using 2 same_id [OF ok, of k row] by auto
      then have "rules_of t k = rules_of w k" using t rows(1) by (auto simp: rules_of_def filter_empty_conv)
      with 2 show ?thesis by blast
    qed
  qed
qed

lemma rotate_coherent:
  assumes coh: "rules_coherent w" and ok: "tokens_ok (w_tokens w)" and run: "rotate_scoped_token E u i w = (r, t)"
    and fresh: "fresh_lookups w t"
  shows "rules_coherent t"
proof (cases r)
  case (Inl e)
  with run coh show ?thesis using rotate_failed unmoved_coherent by blast
next
  case (Inr p)
  obtain row full where p: "p = (row, full)" by (cases p)
  obtain g where ch: "token_changed i (rotate_row g) w t" using run [unfolded Inr p] by (rule rotate_changed)
  have t: "w_tokens t = map (\<lambda>k. if t_id k = i then rotate_row g k else k) (w_tokens w)" "tokens_ok (w_tokens t)"
    using ch unfolding token_changed_def by blast+
  show ?thesis
  proof (rule token_changed_coherent [OF ch coh])
    fix k assume k: "k \<in> set (w_tokens w)" "t_id k = i"
    then have new: "rotate_row g k \<in> set (w_tokens t)" using t(1) by auto
    show "t_lookup_id (rotate_row g k) = t_lookup_id k \<and> t_version k < t_version (rotate_row g k)
        \<or> (\<forall>n. live_json w (rules_key (t_lookup_id (rotate_row g k)) n) = None)"
    proof (cases "g_lookup_id g \<in> t_lookup_id ` set (w_tokens w)")
      case False
      with new fresh show ?thesis by (force simp: fresh_lookups_def)
    next
      case True
      then obtain k' where k': "k' \<in> set (w_tokens w)" "t_lookup_id k' = g_lookup_id g" by auto
      have "t_id k' = i"
      proof (rule ccontr)
        assume "t_id k' \<noteq> i"
        then have "k' \<in> set (w_tokens t)" using k'(1) t(1) by force
        then have "k' = rotate_row g k" using same_lookup [OF t(2) _ new] k'(2) by simp
        with \<open>t_id k' \<noteq> i\<close> k(2) show False by simp
      qed
      then have "k' = k" using same_id [OF ok k'(1) k(1)] k(2) by simp
      with k' show ?thesis by simp
    qed
  qed
qed

section \<open>From handlers to deployments\<close>

lemma serve_run: "serve E L fmt fuel c w = (resp, t) \<Longrightarrow> \<exists>r. handler E L fmt fuel c w = (r, t)"
  by (auto simp: serve_def run_endpoint_def split: prod.splits sum.splits)

lemma answer_errors_world: "snd (answer_errors b m w) = snd (m w)"
  by (simp add: answer_errors_def catch_app split: prod.splits sum.splits)

lemma current_user_world: "snd (current_user L b w) = w"
  by (auto simp: current_user_def get_current_user_def bind_app catch_app split: option.splits sum.splits)

lemma managed_world: "snd (managed L b h w) = w \<or> (\<exists>u. snd (managed L b h w) = snd (h u w))"
  using current_user_world [of L b w] by (auto simp: managed_def bind_app split: prod.splits sum.splits)

lemma bind_return_world: "snd (bind m (\<lambda>x. return (f x)) w) = snd (m w)"
  by (simp add: bind_app split: prod.splits sum.splits)

lemma served_keeps:
  assumes "keeps P (handler E L fmt fuel c)" and "P w" and "serve E L fmt fuel c w = (resp, t)"
  shows "P t"
  using serve_run [OF assms(3)] keepsD [OF assms(1,2)] by blast

lemma served_coherent:
  assumes w: "coherent E w" and run: "serve E L fmt fuel c w = (resp, t)" and fresh: "fresh_lookups w t"
  shows "coherent E t"
proof (cases "issues_token c")
  case False
  show ?thesis using caching.handlers [OF False] w run by (rule served_keeps)
next
  case True
  obtain r where h: "handler E L fmt fuel c w = (r, t)" using serve_run [OF run] by blast
  have ok: "constraints_ok E w" "rules_coherent w" using w by (simp_all add: coherent_def)
  have "constraints_ok E t"
    using constrained.issuing_handlers [OF keeps_constraints_commit keeps_constraints_commit] ok(1) run by (rule served_keeps)
  moreover have "rules_coherent t"
  proof (cases c)
    case (Mint b name up rs ex)
    then consider "t = w" | u where "t = snd (mint_scoped_token_endpoint fmt E name up rs ex u w)"
      using h managed_world [of L b "mint_scoped_token_endpoint fmt E name up rs ex" w] by auto
    then show ?thesis
    proof cases
      case 2
      then have "t = snd (mint_scoped_token E (u_id u) name up rs ex w)"
        by (simp add: mint_scoped_token_endpoint_def answer_errors_world bind_return_world)
      then show ?thesis
        using mint_coherent [OF ok(2) _ fresh, of E "u_id u" name up rs ex] by (cases "mint_scoped_token E (u_id u) name up rs ex w") simp
    qed (simp add: ok)
  next
    case (Rotate b i)
    then consider "t = w" | u where "t = snd (rotate_scoped_token_endpoint E i u w)"
      using h managed_world [of L b "rotate_scoped_token_endpoint E i" w] by auto
    then show ?thesis
    proof cases
      case 2
      then have "t = snd (rotate_scoped_token E (u_id u) i w)"
        by (simp add: rotate_scoped_token_endpoint_def answer_errors_world bind_return_world)
      then show ?thesis
        using rotate_coherent [OF ok(2) _ _ fresh, of E "u_id u" i] ok(1)
        by (cases "rotate_scoped_token E (u_id u) i w") (simp add: constraints_ok_def)
    qed (simp add: ok)
  qed (use True in simp_all)
  ultimately show ?thesis by (simp add: coherent_def)
qed

lemma served_pinned: "client_pinned E w \<Longrightarrow> serve E L fmt fuel c w = (resp, t) \<Longrightarrow> client_pinned E t"
proof (rule served_keeps [OF pinning.issuing_handlers])
  show "keeps (client_pinned E) (commit_db E (\<lambda>w. w\<lparr>w_tokens := w_tokens w @ [row], w_rules := w_rules w @ rs\<rparr>))" for row rs
    by (rule keeps_commit_if) (simp_all add: client_pinned_def)
  show "keeps (client_pinned E) (commit_db E (update_token i (rotate_row g)))" for i g
    by (rule keeps_commit_if) (simp_all add: client_pinned_def update_token_def)
qed

text \<open>What holds of every world of a deployment\<close>

definition sound :: "env \<Rightarrow> world \<Rightarrow> bool" where
  "sound E w \<longleftrightarrow> constraints_ok E w \<and> rules_coherent w \<and> client_pinned E w"

lemma live_later:
  assumes "0 \<le> d" and "live_json (w\<lparr>w_now := w_now w + d\<rparr>) k = Some v" shows "live_json w k = Some v"
proof -
  obtain e where e: "w_redis w k = Some e" using assms(2) by (cases "w_redis w k") (simp_all add: live_json_def live_entry_def)
  obtain raw ttl where "e = (raw, ttl)" by (cases e)
  with assms e show ?thesis by (cases ttl) (auto simp: live_json_def live_entry_def split: if_splits)
qed

lemma live_evicted: "live_json (w\<lparr>w_redis := w_redis w |` K\<rparr>) k = Some v \<Longrightarrow> live_json w k = Some v"
  by (cases "k \<in> K") (simp_all add: live_json_def live_entry_def)

lemma sound_transition:
  assumes "transition E L fmt fuel w t" and "sound E w" shows "sound E t"
proof -
  have coh: "rules_coherent w" using assms(2) by (simp add: sound_def)
  from assms(1) show ?thesis
  proof (cases rule: transition.cases)
  case (served c resp)
  with assms(2) show ?thesis
    using served_coherent [OF _ served(1,2)] served_pinned [OF _ served(1)] by (simp add: sound_def coherent_def)
next
  case (login_started r)
  have "coherent E t" using caching.login_start _ login_started by (rule keepsD) (use assms(2) in \<open>simp add: sound_def coherent_def\<close>)
  moreover have "client_pinned E t" using pinning.login_start _ login_started by (rule keepsD) (use assms(2) in \<open>simp add: sound_def\<close>)
  ultimately show ?thesis by (simp add: sound_def coherent_def)
next
  case (operated shw probe command out)
  have "keeps (coherent E) (add_version E)" "keeps (client_pinned E) (add_version E)"
    unfolding add_version_def
    by (rule keeps_coherent_commit, simp, rule rules_coherent_less)
      (auto simp: coherent_def live_json_def live_entry_def client_pinned_def intro!: keeps_commit_if)
  from keepsD [OF caching.console [OF this(1)] _ operated] keepsD [OF pinning.console [OF this(2)] _ operated] assms(2)
  show ?thesis by (simp add: sound_def coherent_def)
next
  case (tick d)
  have "rules_coherent t" unfolding tick(1)
    by (rule rules_coherent_less [OF coh _ _ live_later [OF tick(2)]]) simp_all
  with assms(2) tick show ?thesis by (simp add: sound_def client_pinned_def)
next
  case (eviction K)
  have "rules_coherent t" unfolding eviction
    by (rule rules_coherent_less [OF coh _ _ live_evicted]) simp_all
  with assms(2) eviction show ?thesis by (simp add: sound_def client_pinned_def)
next
  case restart
  have "rules_coherent t" unfolding restart
    by (rule rules_coherent_less [OF coh]) (simp_all add: live_json_def live_entry_def)
  with assms(2) restart show ?thesis by (simp add: sound_def client_pinned_def)
  qed
qed

lemma sound_reachable: "reachable E L fmt fuel w t \<Longrightarrow> sound E w \<Longrightarrow> sound E t"
  by (induction rule: reachable.induct) (auto intro: sound_transition)

text \<open>A revoked row stays revoked.\<close>

definition revoked_row :: "string \<Rightarrow> world \<Rightarrow> bool" where
  "revoked_row i w \<longleftrightarrow> (\<exists>k \<in> set (w_tokens w). t_id k = i \<and> t_status k = ''revoked'')"

lemma revoked_row_map:
  assumes "revoked_row i w" and "w_tokens t = map (\<lambda>k. if p k then f k else k) (w_tokens w)"
    and "\<And>k. t_id (f k) = t_id k" and "\<And>k. t_status k = ''revoked'' \<Longrightarrow> t_status (f k) = ''revoked''"
  shows "revoked_row i t"
proof -
  obtain k where "k \<in> set (w_tokens w)" "t_id k = i" "t_status k = ''revoked''" using assms(1) unfolding revoked_row_def by blast
  with assms(2-4) show ?thesis unfolding revoked_row_def by (intro bexI [of _ "if p k then f k else k"]) auto
qed

lemma revoked_row_same: "w_tokens t = w_tokens w \<Longrightarrow> revoked_row i w \<Longrightarrow> revoked_row i t"
  by (simp add: revoked_row_def)

interpretation revoking: handler_invariant E "revoked_row i" for E i
proof
  have c: "revoked_row i t" if "same_but_redis w t" "revoked_row i w" for w t
    using same_but_redis_fields(1) [OF that(1)] that(2) by (rule revoked_row_same)
  show "keeps (revoked_row i) (cache_get_json E k)" "keeps (revoked_row i) (redis_getdel E k)"
    "keeps (revoked_row i) (cache_del E ks)" "keeps (revoked_row i) (cache_set_json E k x ttl)"
    "keeps (revoked_row i) (resolve_scoped_token E full)" for k ks x ttl full
    by (rule keeps_tables, erule c, assumption)+
  show "keeps (revoked_row i) (get_cf_client E)"
    by (rule keepsI) (simp add: get_cf_client_run revoked_row_def)
  show "keeps (revoked_row i) (commit_db E f)"
    if "\<And>w. f w = w\<lparr>w_users := w_users (f w), w_credentials := w_credentials (f w), w_audit := w_audit (f w)\<rparr>" for f
  proof (rule keeps_commit_if)
    fix w assume w: "revoked_row i w"
    have "w_tokens (f w) = w_tokens w" by (subst that) simp
    then show "revoked_row i ((f w)\<lparr>w_commits := Suc (w_commits w)\<rparr>)" by (intro revoked_row_same [OF _ w]) simp
  qed (simp add: revoked_row_def)
  show "keeps (revoked_row i) (commit_db E (update_token j (revoke_row now)))" for j now
  proof (rule keeps_commit_if)
    fix w assume w: "revoked_row i w"
    show "revoked_row i ((update_token j (revoke_row now) w)\<lparr>w_commits := Suc (w_commits w)\<rparr>)"
      by (rule revoked_row_map [OF w, of _ "\<lambda>k. t_id k = j" "revoke_row now"]) (simp_all add: update_token_def)
  qed (simp add: revoked_row_def)
  show "keeps (revoked_row i) (commit_db E (deletion c now))" for c now
  proof (rule keeps_commit_if)
    fix w assume w: "revoked_row i w"
    show "revoked_row i ((deletion c now w)\<lparr>w_commits := Suc (w_commits w)\<rparr>)"
      by (rule revoked_row_map [OF w, of _ "dependent_token c" "revoke_row now"]) simp_all
  qed (simp add: revoked_row_def)
qed (simp_all add: revoked_row_def)

lemma revoked_served: "revoked_row i w \<Longrightarrow> serve E L fmt fuel c w = (resp, t) \<Longrightarrow> revoked_row i t"
proof (rule served_keeps [OF revoking.issuing_handlers])
  show "keeps (revoked_row i) (commit_db E (\<lambda>w. w\<lparr>w_tokens := w_tokens w @ [row], w_rules := w_rules w @ rs\<rparr>))" for row rs
    by (rule keeps_commit_if) (auto simp: revoked_row_def)
  show "keeps (revoked_row i) (commit_db E (update_token j (rotate_row g)))" for j g
  proof (rule keeps_commit_if)
    fix w assume w: "revoked_row i w"
    show "revoked_row i ((update_token j (rotate_row g) w)\<lparr>w_commits := Suc (w_commits w)\<rparr>)"
      by (rule revoked_row_map [OF w, of _ "\<lambda>k. t_id k = j" "rotate_row g"]) (simp_all add: update_token_def)
  qed (simp add: revoked_row_def)
qed

lemma revoked_reachable: "reachable E L fmt fuel w t \<Longrightarrow> revoked_row i w \<Longrightarrow> revoked_row i t"
proof (induction rule: reachable.induct)
  case (step u t)
  from \<open>transition E L fmt fuel u t\<close> step.IH [OF step.prems] show ?case
  proof (cases rule: transition.cases)
    case (served c resp)
    then show ?thesis using step.IH [OF step.prems] revoked_served by blast
  next
    case (login_started r)
    then show ?thesis using step.IH [OF step.prems] keepsD [OF revoking.login_start] by blast
  next
    case (operated shw probe command out)
    have "keeps (revoked_row i) (add_version E)"
      unfolding add_version_def by (rule keeps_commit_if) (simp_all add: revoked_row_def)
    from keepsD [OF revoking.console [OF this] step.IH [OF step.prems] operated] show ?thesis .
  qed (simp_all add: revoked_row_def)
qed

text \<open>A deployment starts with a database that satisfies its schema, an empty Redis and no client.\<close>

definition booted :: "env \<Rightarrow> world \<Rightarrow> bool" where
  "booted E w \<longleftrightarrow> constraints_ok E w \<and> w_redis w = (\<lambda>_. None) \<and> \<not> w_cf_client w"

lemma booted_sound: "booted E w \<Longrightarrow> sound E w"
  by (simp add: booted_def sound_def client_pinned_def rules_coherent_def redis.entries_def live_json_def live_entry_def)

section \<open>Properties\<close>

text \<open>
  C2: the invariant of a deployment: in every world that calls of any kind, OAuth logins, operator
  commands, the clock, losses of Redis entries and restarts can reach from a booted one, the tables satisfy the
  schema's constraints, every live entry of the rules cache is what the database says for the
  current version of its token, and the upstream client, if there is one, is pinned to the
  Cloudflare API.
\<close>

theorem deployment_invariant:
  assumes "booted E w" and "reachable E L fmt fuel w t"
  shows "constraints_ok E t \<and> client_pinned E t
     \<and> (\<forall>tok \<in> set (w_tokens t). \<forall>v. live_json t (rules_key (t_lookup_id tok) (t_version tok)) = Some v
          \<longrightarrow> v = JArr (map rule_to_cache_dict (rules_of t tok)))"
proof -
  have s: "sound E t" using assms(2) booted_sound [OF assms(1)] by (rule sound_reachable)
  then show ?thesis
    unfolding sound_def rules_coherent_def redis.entries_def rules_entry_ok_def by blast
qed


text \<open>
  C10: revocation is for good: once a row is revoked, by its owner or with its credential, then
  whatever calls are served afterwards (rotation and cache losses included), no string ever
  resolves to it again.
\<close>

theorem revoked_forever:
  assumes "booted E w0" and "reachable E L fmt fuel w0 w" and "k \<in> set (w_tokens w)" and "t_status k = ''revoked''"
    and "reachable E L fmt fuel w t"
    and "resolve_scoped_token E full t = (Inr (Some ctx), t')"
  shows "t_id (x_token ctx) \<noteq> t_id k"
proof
  assume i: "t_id (x_token ctx) = t_id k"
  have "revoked_row (t_id k) t"
    using assms(5) by (rule revoked_reachable) (use assms(3,4) in \<open>auto simp: revoked_row_def\<close>)
  then obtain k' where k': "k' \<in> set (w_tokens t)" "t_id k' = t_id k" "t_status k' = ''revoked''" by (auto simp: revoked_row_def)
  have "sound E t" using assms(5) sound_reachable [OF assms(2) booted_sound [OF assms(1)]] by (rule sound_reachable)
  then have "tokens_ok (w_tokens t)" by (simp add: sound_def constraints_ok_def)
  then have "x_token ctx = k'" using same_id resolve_tokenD(1) [OF assms(6)] k' i by metis
  with resolve_tokenD(3) [OF assms(6)] k'(3) show False by simp
qed

section \<open>Witnesses\<close>

lemma demo_booted: "booted demo_env demo_world"
proof -
  have "constraints_ok demo_env demo_world" by code_simp
  then show ?thesis by (simp add: booted_def demo_world_def)
qed

lemma deployment_invariant_witness:
  "constraints_ok demo_env (demo_world\<lparr>w_now := w_now demo_world + 5\<rparr>)"
proof -
  have "reachable demo_env demo_libs (\<lambda>_. []) 1 demo_world (demo_world\<lparr>w_now := w_now demo_world + 5\<rparr>)"
    by (rule reachable.step [OF reachable.start transition.tick]) simp
  from deployment_invariant [OF demo_booted this] show ?thesis by blast
qed


text \<open>A world in which the demo token is revoked and an active copy exists under another id\<close>

definition demo_revoked :: world where
  "demo_revoked = demo_world\<lparr>w_tokens := [demo_token\<lparr>t_id := ''tok0'', t_lookup_id := ''0000000000000000'', t_token_hash := ''old'',
     t_status := ''revoked''\<rparr>, demo_token]\<rparr>"

lemma revoked_forever_witness:
  "\<exists>ctx t. resolve_scoped_token demo_env demo_full (demo_revoked\<lparr>w_now := w_now demo_revoked + 5\<rparr>) = (Inr (Some ctx), t)
     \<and> t_id (x_token ctx) \<noteq> ''tok0''"
proof -
  let ?w = "demo_revoked\<lparr>w_now := w_now demo_revoked + 5\<rparr>"
  let ?k = "demo_token\<lparr>t_id := ''tok0'', t_lookup_id := ''0000000000000000'', t_token_hash := ''old'', t_status := ''revoked''\<rparr>"
  have b: "booted demo_env demo_revoked"
  proof -
    have "constraints_ok demo_env demo_revoked" by code_simp
    then show ?thesis by (simp add: booted_def demo_revoked_def demo_world_def)
  qed
  have r: "reachable demo_env demo_libs (\<lambda>_. []) 1 demo_revoked ?w"
    by (rule reachable.step [OF reachable.start transition.tick]) simp
  have "case fst (resolve_scoped_token demo_env demo_full ?w) of Inl _ \<Rightarrow> False | Inr None \<Rightarrow> False | Inr (Some ctx) \<Rightarrow> True"
    by code_simp
  then obtain ctx t where run: "resolve_scoped_token demo_env demo_full ?w = (Inr (Some ctx), t)"
    by (cases "resolve_scoped_token demo_env demo_full ?w") (auto split: sum.splits option.splits)
  have k: "?k \<in> set (w_tokens demo_revoked)" by (simp add: demo_revoked_def)
  have "t_id (x_token ctx) \<noteq> t_id ?k"
    by (rule revoked_forever [OF b reachable.start k _ r run]) simp
  with run show ?thesis by auto
qed

end
