(* ===== verification/Surfaces.thy ===== *)
theory Surfaces
  imports Deployment
begin

text \<open>
  What each of the two API surfaces answers with: the management plane in its own envelope, the
  machine plane in Cloudflare's, or with what Cloudflare answered.
\<close>

section \<open>Postconditions\<close>

definition yields :: "('a \<Rightarrow> bool) \<Rightarrow> ('s, 'a) prog \<Rightarrow> bool" where
  "yields Q m \<longleftrightarrow> (\<forall>w x t. m w = (Inr x, t) \<longrightarrow> Q x)"

named_theorems yields_intros \<open>rules for what a program returns\<close>

lemma yieldsD: "yields Q m \<Longrightarrow> m w = (Inr x, t) \<Longrightarrow> Q x"
  unfolding yields_def by blast

lemma yields_return [yields_intros]: "Q x \<Longrightarrow> yields Q (return x)"
  by (simp add: yields_def)

lemma yields_raise [yields_intros]: "yields Q (raise e)"
  by (simp add: yields_def)

lemma yields_post: "yields R m \<Longrightarrow> (\<And>x. R x \<Longrightarrow> yields Q (f x)) \<Longrightarrow> yields Q (bind m f)"
  unfolding yields_def bind_Inr_iff by blast

lemma yields_bind [yields_intros]: "(\<And>x. yields Q (f x)) \<Longrightarrow> yields Q (bind m f)"
  unfolding yields_def bind_Inr_iff by blast

lemma yields_catch [yields_intros]: "yields Q m \<Longrightarrow> (\<And>e. yields Q (h e)) \<Longrightarrow> yields Q (catch m h)"
  unfolding yields_def catch_app by (auto split: prod.splits sum.splits)

lemma yields_if [yields_intros]: "yields Q m \<Longrightarrow> yields Q n \<Longrightarrow> yields Q (if b then m else n)"
  by simp

lemma yields_option [yields_intros]:
  "yields Q m \<Longrightarrow> (\<And>x. yields Q (f x)) \<Longrightarrow> yields Q (case q of None \<Rightarrow> m | Some x \<Rightarrow> f x)"
  by (cases q) simp_all

lemma yields_sum [yields_intros]:
  "(\<And>x. yields Q (f x)) \<Longrightarrow> (\<And>x. yields Q (g x)) \<Longrightarrow> yields Q (case q of Inl x \<Rightarrow> f x | Inr x \<Rightarrow> g x)"
  by (cases q) simp_all

lemma yields_prod [yields_intros]: "(\<And>a b. yields Q (f a b)) \<Longrightarrow> yields Q (case p of (a, b) \<Rightarrow> f a b)"
  by (cases p) simp

lemma yields_let [yields_intros]: "yields Q (f x) \<Longrightarrow> yields Q (let y = x in f y)"
  by simp

section \<open>The management plane\<close>

fun machine_plane :: "call \<Rightarrow> bool" where
  "machine_plane (Verify_token _) = True"
| "machine_plane (Proxy_zones _) = True"
| "machine_plane (Proxy_records _ _) = True"
| "machine_plane (Proxy_create _ _) = True"
| "machine_plane (Proxy_by_id _ _ _ _) = True"
| "machine_plane Proxy_blocked = True"
| "machine_plane Proxy_other = True"
| "machine_plane _ = False"

lemma yields_errors: "yields is_mgmt_envelope m \<Longrightarrow> yields is_mgmt_envelope (answer_errors b m)"
  unfolding answer_errors_def by (intro yields_intros envelope_kinds)

lemma yields_managed: "(\<And>u. yields Q (h u)) \<Longrightarrow> yields Q (managed L b h)"
  unfolding managed_def by (intro yields_intros)

lemma yields_me: "yields is_mgmt_envelope (read_me fmt u)"
  unfolding read_me_def by (intro yields_intros envelope_kinds)

lemma yields_accounts:
  "yields is_mgmt_envelope (register fmt E L email pw)" "yields is_mgmt_envelope (login E L email pw)"
  "yields is_mgmt_envelope (cf_callback E L code state)"
proof -
  show "yields is_mgmt_envelope (register fmt E L email pw)"
    unfolding register_def Let_def by (intro yields_intros envelope_kinds)
  show "yields is_mgmt_envelope (login E L email pw)"
    unfolding login_def invalid_login_def by (intro yields_intros envelope_kinds)
  show "yields is_mgmt_envelope (cf_callback E L code state)"
    unfolding cf_callback_def
  proof (rule yields_post)
    show "yields (\<lambda>r. case r of Inl answer \<Rightarrow> is_mgmt_envelope answer | Inr jwt \<Rightarrow> True)
      (catch (bind (handle_cf_oauth_callback E L code state) (\<lambda>p. return (Inr (snd p))))
         (\<lambda>e. if is_ValueError e then return (Inl (make_response 400 (exn_text e) JNull)) else raise e))"
      by (intro yields_intros) simp_all
  qed (auto intro: yields_intros split: sum.splits)
qed

lemma yields_credential_endpoints:
  "yields is_mgmt_envelope (create_credential_endpoint fmt E label ty tok key email u)"
  "yields is_mgmt_envelope (list_credentials_endpoint fmt u)"
  "yields is_mgmt_envelope (delete_credential_endpoint E i u)"
  "yields is_mgmt_envelope (verify_credential_endpoint fmt E i u)"
  "yields is_mgmt_envelope (list_zones_endpoint fuel E i u)"
  "yields is_mgmt_envelope (list_zone_records_endpoint fuel E i z rt n u)"
  unfolding create_credential_endpoint_def list_credentials_endpoint_def delete_credential_endpoint_def
    verify_credential_endpoint_def list_zones_endpoint_def list_zone_records_endpoint_def
  by (intro yields_errors yields_intros envelope_kinds)+

lemma yields_token_endpoints:
  "yields is_mgmt_envelope (mint_scoped_token_endpoint fmt E name up rs ex u)"
  "yields is_mgmt_envelope (list_scoped_tokens_endpoint fmt u)"
  "yields is_mgmt_envelope (get_scoped_token_endpoint fmt i u)"
  "yields is_mgmt_envelope (rotate_scoped_token_endpoint E i u)"
  "yields is_mgmt_envelope (revoke_scoped_token_endpoint E i u)"
  "yields is_mgmt_envelope (get_audit_logs_endpoint fmt k z s p n u)"
  unfolding mint_scoped_token_endpoint_def list_scoped_tokens_endpoint_def get_scoped_token_endpoint_def
    rotate_scoped_token_endpoint_def revoke_scoped_token_endpoint_def get_audit_logs_endpoint_def
  by (intro yields_errors yields_intros envelope_kinds)+

lemma management_answers:
  assumes "\<not> machine_plane c" shows "yields is_mgmt_envelope (handler E L fmt fuel c)"
  using assms
  by (cases c) (simp_all only: handler.simps machine_plane.simps simp_thms,
      (intro yields_managed yields_accounts yields_me yields_credential_endpoints yields_token_endpoints)+)

section \<open>The machine plane\<close>

text \<open>An answer that is, status and body, what Cloudflare answered to some request\<close>

definition relayed :: "env \<Rightarrow> response \<Rightarrow> bool" where
  "relayed E resp \<longleftrightarrow> (\<exists>tr q r. e_http E tr q = Inr r \<and> p_status r = status_code resp \<and> p_json r = Some (content resp))"

definition upstream_answer :: "env \<Rightarrow> http_response \<Rightarrow> bool" where
  "upstream_answer E r \<longleftrightarrow> (\<exists>tr q. e_http E tr q = Inr r)"

definition machine_answer :: "env \<Rightarrow> response \<Rightarrow> bool" where
  "machine_answer E resp \<longleftrightarrow> is_cf_envelope resp \<or> relayed E resp"

lemma machine_envelopes [simp]: "machine_answer E (make_cf_response r st ms i)" "machine_answer E (make_cf_error st c m)"
  by (simp_all add: machine_answer_def)

lemma machine_relay: "upstream_answer E up \<Longrightarrow> response_json up = Inr j \<Longrightarrow> machine_answer E (json_response (p_status up) j)"
  by (auto simp: upstream_answer_def machine_answer_def relayed_def json_response_def response_json_def split: option.splits)

lemma yields_forward: "yields (upstream_answer E) (forward_request E m p h ps c a)"
  by (auto simp: yields_def upstream_answer_def forward_request_run split: if_splits)

lemma yields_json: "yields (\<lambda>j. response_json up = Inr j) (lift (response_json up))"
  by (simp add: yields_def)

lemma yields_deny: "yields (machine_answer E') (deny_and_answer E ctx d entry)"
  unfolding deny_and_answer_def by (intro yields_intros machine_envelopes)

lemma yields_lock: "yields Q body \<Longrightarrow> yields Q (advisory_lock E name body)"
  unfolding advisory_lock_def yields_def by (auto simp: bind_app catch_app Let_def split: prod.splits sum.splits if_splits)

text \<open>A decision together with the answer to the mutation, if one was sent\<close>

definition forwarded_answer :: "env \<Rightarrow> auth_decision \<times> http_response option \<Rightarrow> bool" where
  "forwarded_answer E p \<longleftrightarrow> (\<forall>up. snd p = Some up \<longrightarrow> upstream_answer E up)"

lemma yields_authorize_and_forward: "yields (forwarded_answer E) (authorize_and_forward E m z i body c ctx auth)"
  unfolding authorize_and_forward_def
  by (rule yields_bind, rule yields_if, rule yields_return, simp add: forwarded_answer_def,
      rule yields_post [OF yields_forward], rule yields_return, simp add: forwarded_answer_def)

lemma yields_guarded:
  fixes body :: "(world, 'a) prog"
  assumes "yields Q body"
  shows "yields (\<lambda>x. case x of None \<Rightarrow> True | Some y \<Rightarrow> Q y) (guarded_run E exempt name body)"
proof -
  let ?Q = "\<lambda>x. case x of None \<Rightarrow> True | Some y \<Rightarrow> Q y"
  have wrap: "yields ?Q (bind n (\<lambda>x. return (Some x)))" if "yields Q n" for n :: "(world, 'a) prog"
    by (rule yields_post [OF that], rule yields_return, simp)
  have "yields ?Q (bind body (\<lambda>x. return (Some x)))" using assms by (rule wrap)
  moreover have "yields ?Q (bind (advisory_lock E name body) (\<lambda>x. return (Some x)))"
    using yields_lock [OF assms] by (rule wrap)
  ultimately show ?thesis unfolding guarded_run_def by (intro yields_if yields_catch yields_return yields_raise) simp_all
qed

lemma yields_answer_mutation:
  assumes "case r of None \<Rightarrow> True | Some y \<Rightarrow> forwarded_answer E y"
  shows "yields (machine_answer E) (answer_mutation E m z i rq ctx r)"
proof (cases r)
  case None
  then show ?thesis by (simp add: answer_mutation_def yields_return)
next
  case (Some p)
  obtain d up where p: "p = (d, up)" by (cases p)
  show ?thesis
  proof (cases up)
    case None
    show ?thesis unfolding answer_mutation_def \<open>r = Some p\<close> p None option.case prod.case
      by (intro yields_if yields_bind yields_deny yields_raise)
  next
    case (Some u)
    have u: "upstream_answer E u" using assms \<open>r = Some p\<close> p Some by (simp add: forwarded_answer_def)
    show ?thesis unfolding answer_mutation_def \<open>r = Some p\<close> p Some option.case prod.case
      by (rule yields_if, rule yields_bind, rule yields_deny, rule yields_post [OF yields_json], rule yields_bind, rule yields_bind,
          rule yields_return, rule machine_relay [OF u])
  qed
qed

lemma yields_mutation: "yields (machine_answer E) (mutate_dns_record_by_id E m z i body c rq ctx)"
  unfolding mutate_dns_record_by_id_def Let_def
  by (rule yields_bind, rule yields_post, rule yields_guarded, rule yields_authorize_and_forward, rule yields_answer_mutation)

lemma yields_proxy_handlers:
  "yields (machine_answer E) (verify_token_endpoint ctx)" "yields (machine_answer E) (list_zones fuel E rq ctx)"
  "yields (machine_answer E) (list_dns_records fuel E z rq ctx)" "yields (machine_answer E) (create_dns_record E z rq ctx)"
  "yields (machine_answer E) (by_id_handler E m z i rq ctx)"
proof -
  show "yields (machine_answer E) (verify_token_endpoint ctx)"
    unfolding verify_token_endpoint_def by (intro yields_intros machine_envelopes)
  show "yields (machine_answer E) (list_zones fuel E rq ctx)"
    unfolding list_zones_def paged_response_def Let_def by (intro yields_intros) (simp split: prod.split)
  show "yields (machine_answer E) (list_dns_records fuel E z rq ctx)"
    unfolding list_dns_records_def paged_response_def Let_def by (intro yields_intros) (simp_all split: prod.split)
  show "yields (machine_answer E) (create_dns_record E z rq ctx)"
    unfolding create_dns_record_def Let_def
    by (rule yields_bind, rule yields_bind, rule yields_if, rule yields_deny, rule yields_bind, rule yields_post [OF yields_forward],
        rule yields_post [OF yields_json], rule yields_bind, rule yields_return, rule machine_relay)
  have get: "yields (machine_answer E) (get_dns_record E z i rq ctx)"
    unfolding get_dns_record_def by (intro yields_if yields_bind yields_deny yields_return machine_envelopes)
  have "yields (machine_answer E) (patch_dns_record E z i rq ctx)" "yields (machine_answer E) (put_dns_record E z i rq ctx)"
    "yields (machine_answer E) (delete_dns_record E z i rq ctx)"
    unfolding patch_dns_record_def put_dns_record_def delete_dns_record_def by (intro yields_bind yields_mutation)+
  with get show "yields (machine_answer E) (by_id_handler E m z i rq ctx)" by (simp add: by_id_handler_def)
qed

lemma machine_answers:
  assumes "machine_plane c" shows "yields (machine_answer E) (handler E L fmt fuel c)"
proof -
  have s: "yields Q (scoped E rq h)" if "\<And>ctx. yields Q (h ctx)" for Q rq and h :: "proxy_auth_context \<Rightarrow> (world, response) prog"
    unfolding scoped_def using that by (intro yields_bind)
  show ?thesis using assms
    by (cases c) (simp_all only: handler.simps machine_plane.simps,
        (intro s yields_proxy_handlers yields_return | simp add: blocked_dns_records_def catch_all_def)+)
qed

lemma surface_plane: "is_proxy_path (surface c) = machine_plane c"
proof -
  have p: "is_proxy_path (PROXY_PATH_PREFIX @ s)" for s by (simp add: is_proxy_path_def py_startswith_def)
  have "\<not> is_proxy_path ''/api/v1''" by code_simp
  then show ?thesis using p [of "surface c" for c] by (cases c) (simp_all add: p [unfolded PROXY_PATH_PREFIX_def, simplified])
qed

section \<open>Properties\<close>



end
