(* ===== verification/Requests.thy ===== *)
theory Requests
  imports Surfaces
begin

text \<open>
  The management plane from the wire: the request models of \<^verbatim>\<open>schemas/management.py\<close>, the routes that
  the routers \<^verbatim>\<open>auth\<close>, \<^verbatim>\<open>credentials\<close>, \<^verbatim>\<open>tokens\<close> and \<^verbatim>\<open>audit\<close> declare with their path, query and body
  parameters, and the way of a request from there to the handler or to the validation error.
  Pydantic's conversions of single values are arguments; that a model takes its fields by name,
  ignores the others, and uses the default of an absent one is its documented rule.
\<close>

section \<open>Request models\<close>

text \<open>Pydantic's conversion of a JSON value, or a query string, to a field's type; \<open>None\<close> is an error.\<close>

record validators =
  v_str :: "json \<Rightarrow> string option"
  v_bool :: "json \<Rightarrow> bool option"
  v_int :: "json \<Rightarrow> int option"
  v_datetime :: "json \<Rightarrow> datetime option"
  v_query_int :: "string \<Rightarrow> int option"
  v_query_datetime :: "string \<Rightarrow> datetime option"

fun lookup :: "json \<Rightarrow> string \<Rightarrow> json option" where
  "lookup (JObj kvs) k = map_of kvs k"
| "lookup _ k = None"

definition required :: "(json \<Rightarrow> 'a option) \<Rightarrow> json \<Rightarrow> string \<Rightarrow> 'a option" where
  "required conv j k = Option.bind (lookup j k) conv"

definition defaulted :: "'a \<Rightarrow> (json \<Rightarrow> 'a option) \<Rightarrow> json \<Rightarrow> string \<Rightarrow> 'a option" where
  "defaulted d conv j k = (case lookup j k of None \<Rightarrow> Some d | Some v \<Rightarrow> conv v)"

text \<open>\<^verbatim>\<open>T | None\<close> and \<^verbatim>\<open>list[T]\<close>\<close>

definition nullable :: "(json \<Rightarrow> 'a option) \<Rightarrow> json \<Rightarrow> 'a option option" where
  "nullable conv v = (if v = JNull then Some None else map_option Some (conv v))"

fun listed :: "(json \<Rightarrow> 'a option) \<Rightarrow> json \<Rightarrow> 'a list option" where
  "listed conv (JArr xs) = those (map conv xs)"
| "listed conv _ = None"

definition register_request :: "validators \<Rightarrow> json \<Rightarrow> (string \<times> string) option" where
  "register_request V j =
     Option.bind (required (v_str V) j ''email'') (\<lambda>email.
     Option.bind (required (v_str V) j ''password'') (\<lambda>password. Some (email, password)))"

definition login_request :: "validators \<Rightarrow> json \<Rightarrow> (string \<times> string) option" where
  "login_request V j =
     Option.bind (required (v_str V) j ''email'') (\<lambda>email.
     Option.bind (required (v_str V) j ''password'') (\<lambda>password. Some (email, password)))"

definition credential_request ::
  "validators \<Rightarrow> json \<Rightarrow> (string \<times> string \<times> string option \<times> string option \<times> string option) option" where
  "credential_request V j =
     Option.bind (required (v_str V) j ''label'') (\<lambda>label.
     Option.bind (required (v_str V) j ''cred_type'') (\<lambda>cred_type.
     Option.bind (defaulted None (nullable (v_str V)) j ''api_token'') (\<lambda>api_token.
     Option.bind (defaulted None (nullable (v_str V)) j ''global_key'') (\<lambda>global_key.
     Option.bind (defaulted None (nullable (v_str V)) j ''cf_account_email'') (\<lambda>cf_account_email.
       Some (label, cred_type, api_token, global_key, cf_account_email))))))"

definition scope_rule_request :: "validators \<Rightarrow> json \<Rightarrow> rule_request option" where
  "scope_rule_request V j =
     Option.bind (required (v_str V) j ''zone_id'') (\<lambda>zone_id.
     Option.bind (defaulted None (nullable (v_str V)) j ''name_pattern'') (\<lambda>name_pattern.
     Option.bind (defaulted ''exact'' (v_str V) j ''name_match'') (\<lambda>name_match.
     Option.bind (required (listed (v_str V)) j ''record_types'') (\<lambda>record_types.
     Option.bind (defaulted None (nullable (listed (v_str V))) j ''record_ids'') (\<lambda>record_ids.
     Option.bind (defaulted True (v_bool V) j ''allow_read'') (\<lambda>allow_read.
     Option.bind (defaulted False (v_bool V) j ''allow_create'') (\<lambda>allow_create.
     Option.bind (defaulted False (v_bool V) j ''allow_write'') (\<lambda>allow_write.
     Option.bind (defaulted False (v_bool V) j ''allow_delete'') (\<lambda>allow_delete.
     Option.bind (defaulted None (nullable (v_str V)) j ''content_lock'') (\<lambda>lock.
       Some \<lparr>rule_zone_id = zone_id, rule_name_pattern = name_pattern, rule_name_match = name_match,
         rule_record_types = record_types, rule_record_ids = record_ids, rule_allow_read = allow_read,
         rule_allow_create = allow_create, rule_allow_write = allow_write, rule_allow_delete = allow_delete,
         content_lock = lock\<rparr>))))))))))"

definition mint_request :: "validators \<Rightarrow> json \<Rightarrow> (string \<times> string \<times> datetime option \<times> rule_request list) option" where
  "mint_request V j =
     Option.bind (required (v_str V) j ''name'') (\<lambda>name.
     Option.bind (required (v_str V) j ''upstream_credential_id'') (\<lambda>upstream_credential_id.
     Option.bind (defaulted None (nullable (v_datetime V)) j ''expires_at'') (\<lambda>expires_at.
     Option.bind (required (listed (scope_rule_request V)) j ''scope_rules'') (\<lambda>scope_rules.
       Some (name, upstream_credential_id, expires_at, scope_rules)))))"

section \<open>Routes of the management plane\<close>

text \<open>A request: the segments of its path, its query, its bearer token, and its body, if that is JSON\<close>

datatype wire_body = Not_json | Json json

record wire_request =
  wr_method :: string
  wr_path :: "string list"
  wr_query :: "(string \<times> string) list"
  wr_bearer :: "string option"
  wr_body :: wire_body

datatype mgmt_endpoint = Ep_register | Ep_login | Ep_me | Ep_cf_callback
  | Ep_add_credential | Ep_credentials | Ep_remove_credential | Ep_check_credential | Ep_zones | Ep_zone_records
  | Ep_mint | Ep_tokens | Ep_token_detail | Ep_rotate | Ep_revoke | Ep_audit

record mgmt_route =
  mr_method :: string
  mr_path :: "segment list"
  mr_endpoint :: mgmt_endpoint

definition api_prefix :: "segment list" where
  "api_prefix = [Lit ''api'', Lit ''v1'']"

definition auth_prefix :: "segment list" where
  "auth_prefix = api_prefix @ [Lit ''auth'']"

definition credentials_prefix :: "segment list" where
  "credentials_prefix = api_prefix @ [Lit ''upstream-credentials'']"

definition tokens_prefix :: "segment list" where
  "tokens_prefix = api_prefix @ [Lit ''scoped-tokens'']"

definition audit_prefix :: "segment list" where
  "audit_prefix = api_prefix @ [Lit ''audit-logs'']"

text \<open>
  \<^verbatim>\<open>include_router\<close> in the order of \<^verbatim>\<open>create_app\<close>. The redirect of \<^verbatim>\<open>/cf/login\<close> has no JSON answer and is
  not part of the table (\<open>OAuth.start_cf_oauth_login\<close> is its model).
\<close>

definition management_routes :: "mgmt_route list" where
  "management_routes = [
     \<lparr>mr_method = ''POST'', mr_path = auth_prefix @ [Lit ''register''], mr_endpoint = Ep_register\<rparr>,
     \<lparr>mr_method = ''POST'', mr_path = auth_prefix @ [Lit ''login''], mr_endpoint = Ep_login\<rparr>,
     \<lparr>mr_method = ''GET'', mr_path = auth_prefix @ [Lit ''me''], mr_endpoint = Ep_me\<rparr>,
     \<lparr>mr_method = ''GET'', mr_path = auth_prefix @ [Lit ''cf'', Lit ''callback''], mr_endpoint = Ep_cf_callback\<rparr>,
     \<lparr>mr_method = ''POST'', mr_path = credentials_prefix, mr_endpoint = Ep_add_credential\<rparr>,
     \<lparr>mr_method = ''GET'', mr_path = credentials_prefix, mr_endpoint = Ep_credentials\<rparr>,
     \<lparr>mr_method = ''DELETE'', mr_path = credentials_prefix @ [Param], mr_endpoint = Ep_remove_credential\<rparr>,
     \<lparr>mr_method = ''POST'', mr_path = credentials_prefix @ [Param, Lit ''verify''], mr_endpoint = Ep_check_credential\<rparr>,
     \<lparr>mr_method = ''GET'', mr_path = credentials_prefix @ [Param, Lit ''zones''], mr_endpoint = Ep_zones\<rparr>,
     \<lparr>mr_method = ''GET'', mr_path = credentials_prefix @ [Param, Lit ''zones'', Param, Lit ''records''], mr_endpoint = Ep_zone_records\<rparr>,
     \<lparr>mr_method = ''POST'', mr_path = tokens_prefix, mr_endpoint = Ep_mint\<rparr>,
     \<lparr>mr_method = ''GET'', mr_path = tokens_prefix, mr_endpoint = Ep_tokens\<rparr>,
     \<lparr>mr_method = ''GET'', mr_path = tokens_prefix @ [Param], mr_endpoint = Ep_token_detail\<rparr>,
     \<lparr>mr_method = ''POST'', mr_path = tokens_prefix @ [Param, Lit ''rotate''], mr_endpoint = Ep_rotate\<rparr>,
     \<lparr>mr_method = ''DELETE'', mr_path = tokens_prefix @ [Param], mr_endpoint = Ep_revoke\<rparr>,
     \<lparr>mr_method = ''GET'', mr_path = audit_prefix, mr_endpoint = Ep_audit\<rparr>]"

text \<open>The first route whose path and method match answers (FastAPI's documented rule).\<close>

definition find_route :: "wire_request \<Rightarrow> mgmt_route option" where
  "find_route q = find (\<lambda>r. mr_method r = wr_method q \<and> path_matches (mr_path r) (wr_path q)) management_routes"

fun path_params :: "segment list \<Rightarrow> string list \<Rightarrow> string list" where
  "path_params (Lit _ # ss) (p # ps) = path_params ss ps"
| "path_params (Param # ss) (p # ps) = p # path_params ss ps"
| "path_params _ _ = []"

section \<open>From a request to a call\<close>

definition body_of :: "wire_request \<Rightarrow> json" where
  "body_of q = (case wr_body q of Not_json \<Rightarrow> JNull | Json j \<Rightarrow> j)"

text \<open>\<^verbatim>\<open>Annotated[int, Query(ge=lo, le=hi)] = d\<close> and an optional query parameter with a conversion\<close>

definition query_int :: "validators \<Rightarrow> wire_request \<Rightarrow> string \<Rightarrow> int \<Rightarrow> int option \<Rightarrow> int \<Rightarrow> int option" where
  "query_int V q k lo hi d = (case map_of (wr_query q) k of
      None \<Rightarrow> Some d
    | Some s \<Rightarrow> Option.bind (v_query_int V s) (\<lambda>n.
        if lo \<le> n \<and> (case hi of None \<Rightarrow> True | Some h \<Rightarrow> n \<le> h) then Some n else None))"

definition query_opt :: "wire_request \<Rightarrow> string \<Rightarrow> (string \<Rightarrow> 'a option) \<Rightarrow> 'a option option" where
  "query_opt q k conv = (case map_of (wr_query q) k of None \<Rightarrow> Some None | Some s \<Rightarrow> map_option Some (conv s))"

definition audit_call :: "validators \<Rightarrow> wire_request \<Rightarrow> call option" where
  "audit_call V q =
     Option.bind (query_opt q ''token_id'' Some) (\<lambda>token_id.
     Option.bind (query_opt q ''zone_id'' Some) (\<lambda>zone_id.
     Option.bind (query_opt q ''since'' (v_query_datetime V)) (\<lambda>since.
     Option.bind (query_int V q ''page'' 1 None 1) (\<lambda>page.
     Option.bind (query_int V q ''per_page'' 1 (Some 200) 50) (\<lambda>per_page.
       Some (Audit (wr_bearer q) token_id zone_id (map_option instant since) (nat page) (nat per_page)))))))"

definition cf_callback_call :: "wire_request \<Rightarrow> call option" where
  "cf_callback_call q =
     Option.bind (map_of (wr_query q) ''code'') (\<lambda>code.
     Option.bind (map_of (wr_query q) ''state'') (\<lambda>state. Some (Cf_callback code state)))"

text \<open>The call with its validated parameters; \<open>None\<close> where FastAPI raises \<^verbatim>\<open>RequestValidationError\<close>\<close>

definition call_of :: "validators \<Rightarrow> wire_request \<Rightarrow> mgmt_route \<Rightarrow> call option" where
  "call_of V q r = (let b = wr_bearer q; j = body_of q; ps = path_params (mr_path r) (wr_path q) in case mr_endpoint r of
      Ep_register \<Rightarrow> map_option (\<lambda>(email, password). Register email password) (register_request V j)
    | Ep_login \<Rightarrow> map_option (\<lambda>(email, password). Login email password) (login_request V j)
    | Ep_me \<Rightarrow> Some (Me b)
    | Ep_cf_callback \<Rightarrow> cf_callback_call q
    | Ep_add_credential \<Rightarrow> map_option (\<lambda>(label, ty, tok, key, email). Add_credential b label ty tok key email) (credential_request V j)
    | Ep_credentials \<Rightarrow> Some (Credentials b)
    | Ep_remove_credential \<Rightarrow> Some (Remove_credential b (ps ! 0))
    | Ep_check_credential \<Rightarrow> Some (Check_credential b (ps ! 0))
    | Ep_zones \<Rightarrow> Some (Zones b (ps ! 0))
    | Ep_zone_records \<Rightarrow> Option.bind (query_opt q ''type'' Some) (\<lambda>ty. Option.bind (query_opt q ''name'' Some) (\<lambda>n.
        Some (Zone_records b (ps ! 0) (ps ! 1) ty n)))
    | Ep_mint \<Rightarrow> map_option (\<lambda>(name, cred, expires_at, rules). Mint b name cred rules expires_at) (mint_request V j)
    | Ep_tokens \<Rightarrow> Some (Tokens b)
    | Ep_token_detail \<Rightarrow> Some (Token_detail b (ps ! 0))
    | Ep_rotate \<Rightarrow> Some (Rotate b (ps ! 0))
    | Ep_revoke \<Rightarrow> Some (Revoke b (ps ! 0))
    | Ep_audit \<Rightarrow> audit_call V q)"

fun takes_body :: "mgmt_endpoint \<Rightarrow> bool" where
  "takes_body Ep_register = True"
| "takes_body Ep_login = True"
| "takes_body Ep_add_credential = True"
| "takes_body Ep_mint = True"
| "takes_body _ = False"

text \<open>The endpoints that depend on \<^verbatim>\<open>get_current_user\<close>\<close>

fun needs_session :: "mgmt_endpoint \<Rightarrow> bool" where
  "needs_session Ep_register = False"
| "needs_session Ep_login = False"
| "needs_session Ep_cf_callback = False"
| "needs_session _ = True"

text \<open>
  The answer to a request: a body that is not JSON is rejected before the dependencies run, any
  other invalid parameter after them (FastAPI's documented order). No route, no answer of the
  program's own.
\<close>

definition management_prog ::
  "env \<Rightarrow> libs \<Rightarrow> validators \<Rightarrow> (datetime \<Rightarrow> string) \<Rightarrow> nat \<Rightarrow> json \<Rightarrow> string \<Rightarrow> wire_request \<Rightarrow> mgmt_route \<Rightarrow> (world, response) prog" where
  "management_prog E L V fmt fuel errors path q r =
     (if takes_body (mr_endpoint r) \<and> wr_body q = Not_json then return (handle_validation_error path errors)
      else case call_of V q r of
        Some c \<Rightarrow> handler E L fmt fuel c
      | None \<Rightarrow> if needs_session (mr_endpoint r)
                then bind (current_user L (wr_bearer q)) (\<lambda>_. return (handle_validation_error path errors))
                else return (handle_validation_error path errors))"

definition path_string :: "string list \<Rightarrow> string" where
  "path_string ps = concat (map (\<lambda>p. CHR ''/'' # p) ps)"

definition management ::
  "env \<Rightarrow> libs \<Rightarrow> validators \<Rightarrow> (datetime \<Rightarrow> string) \<Rightarrow> nat \<Rightarrow> json \<Rightarrow> wire_request \<Rightarrow> world \<Rightarrow> (response \<times> world) option" where
  "management E L V fmt fuel errors q w = (case find_route q of
      None \<Rightarrow> None
    | Some r \<Rightarrow> Some (run_endpoint (path_string (wr_path q)) (management_prog E L V fmt fuel errors (path_string (wr_path q)) q r) w))"

section \<open>Lemmas\<close>

lemma required_SomeD: "required conv j k = Some x \<Longrightarrow> \<exists>v. lookup j k = Some v \<and> conv v = Some x"
  by (auto simp: required_def Option.bind_eq_Some_conv)

lemma defaulted_SomeD: "defaulted d conv j k = Some x \<Longrightarrow> x = d \<or> (\<exists>v. lookup j k = Some v \<and> conv v = Some x)"
  by (auto simp: defaulted_def split: option.splits)

lemma those_map: "those (map f xs) = Some ys \<Longrightarrow> list_all2 (\<lambda>x y. f x = Some y) xs ys"
proof (induction xs arbitrary: ys)
  case (Cons x xs)
  then show ?case by (cases "f x") (auto split: option.splits)
qed simp

lemma listed_SomeD: "listed conv v = Some ys \<Longrightarrow> \<exists>xs. v = JArr xs \<and> list_all2 (\<lambda>x y. conv x = Some y) xs ys"
  by (cases v) (auto dest: those_map)

lemma routed:
  assumes "find_route q = Some r"
  shows "r \<in> set management_routes" "path_matches (mr_path r) (wr_path q)"
proof -
  from find_SomeD [OF assms [unfolded find_route_def]]
  show "r \<in> set management_routes" "path_matches (mr_path r) (wr_path q)" by auto
qed

lemma routed_prefix: "r \<in> set management_routes \<Longrightarrow> \<exists>ss. mr_path r = Lit ''api'' # Lit ''v1'' # ss"
  by (auto simp: management_routes_def auth_prefix_def credentials_prefix_def tokens_prefix_def audit_prefix_def api_prefix_def)

lemma api_path: "\<not> is_proxy_path (path_string (''api'' # ps))" "\<not> is_proxy_path ''/api/v1''"
  by (simp_all add: is_proxy_path_def PROXY_PATH_PREFIX_def path_string_def py_startswith_def)

lemma routed_path:
  assumes "find_route q = Some r" shows "\<not> is_proxy_path (path_string (wr_path q))"
proof -
  obtain ss where "mr_path r = Lit ''api'' # Lit ''v1'' # ss" using routed_prefix routed(1) [OF assms] by blast
  with routed(2) [OF assms] obtain ps where "wr_path q = ''api'' # ps" by (auto split: list.splits)
  then show ?thesis by (simp add: api_path)
qed

lemma error_response_surface:
  "\<not> is_proxy_path p \<Longrightarrow> \<not> is_proxy_path p' \<Longrightarrow> error_response p e = error_response p' e"
  by (simp add: error_response_def handle_http_exception_def handle_generic_error_def split: exn.splits)

lemma call_of_surface: "call_of V q r = Some c \<Longrightarrow> \<not> machine_plane c \<and> surface c = ''/api/v1''"
  by (auto simp: call_of_def Let_def audit_call_def cf_callback_call_def Option.bind_eq_Some_conv split: mgmt_endpoint.splits)

text \<open>A request with valid parameters is the call that \<open>serve\<close> answers.\<close>

lemma management_serve:
  assumes "find_route q = Some r" and "call_of V q r = Some c" and "takes_body (mr_endpoint r) \<Longrightarrow> wr_body q \<noteq> Not_json"
  shows "management E L V fmt fuel errors q w = Some (serve E L fmt fuel c w)"
proof -
  have "error_response (path_string (wr_path q)) e = error_response (surface c) e" for e
    using error_response_surface [OF routed_path [OF assms(1)] api_path(2)] call_of_surface [OF assms(2)] by simp
  then have "run_endpoint (path_string (wr_path q)) (handler E L fmt fuel c) w = serve E L fmt fuel c w"
    by (auto simp: serve_def run_endpoint_def split: prod.splits sum.splits)
  with assms show ?thesis by (auto simp: management_def management_prog_def)
qed

lemma validation_answer:
  assumes "find_route q = Some r"
  shows "handle_validation_error (path_string (wr_path q)) errors = make_response 422 ''Validation error'' errors"
  using routed_path [OF assms] by (simp add: handle_validation_error_def)

text \<open>What a row of a rule may permit, given the item of the body that it comes from\<close>

definition asked_for :: "validators \<Rightarrow> json \<Rightarrow> 'a rule_scheme \<Rightarrow> bool" where
  "asked_for V item row \<longleftrightarrow>
     (\<exists>z. lookup item ''zone_id'' = Some z \<and> v_str V z = Some (rule_zone_id row))
     \<and> (rule_allow_create row \<longrightarrow> (\<exists>v. lookup item ''allow_create'' = Some v \<and> v_bool V v = Some True))
     \<and> (rule_allow_write row \<longrightarrow> (\<exists>v. lookup item ''allow_write'' = Some v \<and> v_bool V v = Some True))
     \<and> (rule_allow_delete row \<longrightarrow> (\<exists>v. lookup item ''allow_delete'' = Some v \<and> v_bool V v = Some True))"

lemma scope_rule_request_asked:
  assumes "scope_rule_request V item = Some r" shows "asked_for V item r"
proof -
  have "required (v_str V) item ''zone_id'' = Some (rule_zone_id r)"
    "defaulted False (v_bool V) item ''allow_create'' = Some (rule_allow_create r)"
    "defaulted False (v_bool V) item ''allow_write'' = Some (rule_allow_write r)"
    "defaulted False (v_bool V) item ''allow_delete'' = Some (rule_allow_delete r)"
    using assms by (auto simp: scope_rule_request_def Option.bind_eq_Some_conv)
  from this(1) [THEN required_SomeD] this(2-4) [THEN defaulted_SomeD] show ?thesis unfolding asked_for_def by metis
qed

lemma asked_for_truncate: "rule.truncate r = rule.truncate r' \<Longrightarrow> asked_for V item r = asked_for V item r'"
  by (auto simp: asked_for_def rule.truncate_def)

section \<open>Properties\<close>


lemma mint_rows:
  assumes "mint_scoped_token E u name up rs ex w = (Inr (row, full), t)"
  shows "\<exists>rows. w_rules t = w_rules w @ rows \<and> map rule.truncate rows = map rule.truncate rs \<and> row \<in> set (w_tokens t)
     \<and> t_user_id row = u \<and> (\<forall>r \<in> set rows. r_scoped_token_id r = t_id row)"
proof -
  obtain cred w1 n where val: "validate_scope_rules E cred rs w = (Inr (), w1)"
    and row: "row = \<lparr>t_id = e_uuid E n, t_user_id = u, t_upstream_credential_id = up, t_name = name,
       t_lookup_id = t_lookup_id row, t_token_prefix = t_token_prefix row, t_token_hash = hash_token E full, t_version = 1,
       t_status = ''active'', t_expires_at = ex, t_last_used_at = None, t_created_at = t_created_at row, t_revoked_at = None\<rparr>"
    and tab: "\<exists>rows m. map rule.truncate rows = map rule.truncate rs \<and> (\<forall>r \<in> set rows. r_scoped_token_id r = t_id row)
          \<and> w_tokens t = w_tokens w1 @ [row] \<and> w_rules t = w_rules w1 @ rows \<and> w_credentials t = w_credentials w1
          \<and> live_json t = live_json w1 \<and> constraints_ok E t"
    using assms by (rule mint_run)
  have "w_rules w1 = w_rules w" using keepsD [OF keeps_frame_validate [OF upstream_frame_fields(4) [of "w_rules w"]] _ val] by simp
  moreover have "t_user_id row = u" by (subst row) simp
  ultimately show ?thesis using tab by auto
qed

lemma error_response_data:
  "\<not> is_proxy_path p \<Longrightarrow> \<exists>st m. error_response p e = make_response st m JNull"
  by (auto simp: error_response_def handle_http_exception_def handle_generic_error_def split: exn.splits)

lemma make_response_inj: "make_response st m d = make_response st' m' d' \<longleftrightarrow> st = st' \<and> m = m' \<and> d = d'"
  by (auto simp: make_response_def)

text \<open>
  C8: a token gets no permission that its request did not ask for by name: when the mint request is
  answered with a minted token, the caller's session was valid, the new rules are in order the
  items of \<^verbatim>\<open>scope_rules\<close> in the body, each for the zone of its item, and creation, change and deletion
  are permitted only where the item carries the permission with a value that validates to true.
\<close>

theorem minted_permissions_asked_for:
  assumes "find_route q = Some r" and "mr_endpoint r = Ep_mint" and "wr_body q = Json j"
    and "management E L V fmt fuel errors q w = Some (make_response 201 ''Scoped token minted'' (JObj minted), t)"
  shows "\<exists>u items rows k. fst (current_user L (wr_bearer q) w) = Inr u \<and> lookup j ''scope_rules'' = Some (JArr items)
     \<and> w_rules t = w_rules w @ rows \<and> list_all2 (asked_for V) items rows
     \<and> k \<in> set (w_tokens t) \<and> t_user_id k = u_id u \<and> (\<forall>row \<in> set rows. r_scoped_token_id row = t_id k)"
proof -
  obtain u where u: "current_user L (wr_bearer q) w = (u, w)"
    using current_user_world [of L "wr_bearer q" w] by (metis prod.collapse)
  have err: "error_response (path_string (wr_path q)) e \<noteq> make_response 201 m (JObj minted)" for e m
    using error_response_data [OF routed_path [OF assms(1)], of e] by (auto simp: make_response_inj)
  have run: "run_endpoint (path_string (wr_path q)) (management_prog E L V fmt fuel errors (path_string (wr_path q)) q r) w
      = (make_response 201 ''Scoped token minted'' (JObj minted), t)"
    using assms(1,4) by (simp add: management_def)
  have v: "handle_validation_error (path_string (wr_path q)) errors \<noteq> make_response 201 m d" for m d
    by (simp add: validation_answer [OF assms(1)] make_response_inj)
  then obtain c where c: "call_of V q r = Some c"
    using run err assms(2,3) u
    by (cases "call_of V q r") (auto simp: run_endpoint_def management_prog_def bind_app split: sum.splits)
  then obtain name cred ex rules where call: "c = Mint (wr_bearer q) name cred rules ex"
    and body: "mint_request V j = Some (name, cred, ex, rules)"
    using assms(2,3) by (auto simp: call_of_def Let_def body_of_def)
  have "run_endpoint (path_string (wr_path q)) (managed L (wr_bearer q) (mint_scoped_token_endpoint fmt E name cred rules ex)) w
      = (make_response 201 ''Scoped token minted'' (JObj minted), t)"
    using run assms(3) c by (simp add: management_prog_def call)
  then obtain v where v: "u = Inr v" "mint_scoped_token_endpoint fmt E name cred rules ex v w
      = (Inr (make_response 201 ''Scoped token minted'' (JObj minted)), t)"
    using u err by (auto simp: run_endpoint_def managed_def bind_app split: prod.splits sum.splits)
  then obtain row full where mint: "mint_scoped_token E (u_id v) name cred rules ex w = (Inr (row, full), t)"
    by (auto simp: mint_scoped_token_endpoint_def answer_errors_def catch_app bind_app make_response_inj split: prod.splits sum.splits if_splits)
  from mint_rows [OF this] obtain rows where rows: "w_rules t = w_rules w @ rows" "map rule.truncate rows = map rule.truncate rules"
    "row \<in> set (w_tokens t)" "t_user_id row = u_id v" "\<forall>r \<in> set rows. r_scoped_token_id r = t_id row" by blast
  have "required (listed (scope_rule_request V)) j ''scope_rules'' = Some rules"
    using body by (auto simp: mint_request_def Option.bind_eq_Some_conv)
  then obtain items where items: "lookup j ''scope_rules'' = Some (JArr items)"
    "list_all2 (\<lambda>x y. scope_rule_request V x = Some y) items rules"
    by (auto dest!: required_SomeD listed_SomeD)
  then have "list_all2 (asked_for V) items rules"
    by (auto intro: list_all2_mono scope_rule_request_asked)
  moreover have "list_all2 (\<lambda>x y. rule.truncate x = rule.truncate y) rules rows"
    using rows(2) [symmetric] by (simp add: list_all2_map1 list_all2_map2 list.rel_eq [symmetric])
  ultimately have "list_all2 (asked_for V) items rows"
    by (rule list_all2_trans [rotated]) (auto dest: asked_for_truncate)
  with u v(1) items(1) rows show ?thesis by auto
qed

section \<open>Witnesses\<close>

definition demo_validators :: validators where
  "demo_validators = \<lparr>v_str = (\<lambda>j. case j of JStr s \<Rightarrow> Some s | _ \<Rightarrow> None), v_bool = (\<lambda>j. case j of JBool b \<Rightarrow> Some b | _ \<Rightarrow> None),
     v_int = (\<lambda>j. case j of JNum n \<Rightarrow> Some n | _ \<Rightarrow> None),
     v_datetime = (\<lambda>j. case j of JNum n \<Rightarrow> Some \<lparr>instant = n, aware = True\<rparr> | _ \<Rightarrow> None), v_query_int = (\<lambda>s. None),
     v_query_datetime = (\<lambda>s. None)\<rparr>"

text \<open>A mint request with one rule, and one whose rule has no record types\<close>

definition demo_mint_body :: json where
  "demo_mint_body = JObj [(''name'', JStr ''ddns2''), (''upstream_credential_id'', JStr ''cred1''),
     (''scope_rules'', JArr [JObj [(''zone_id'', JStr ''z1''), (''name_pattern'', JStr ''home.example.com''),
       (''record_types'', JArr [JStr ''A'']), (''allow_write'', JBool True)]])]"

definition demo_wire :: "json \<Rightarrow> wire_request" where
  "demo_wire j = \<lparr>wr_method = ''POST'', wr_path = [''api'', ''v1'', ''scoped-tokens''], wr_query = [], wr_bearer = Some ''jwt:user1'',
     wr_body = Json j\<rparr>"

definition mint_route :: mgmt_route where
  "mint_route = \<lparr>mr_method = ''POST'', mr_path = tokens_prefix, mr_endpoint = Ep_mint\<rparr>"

lemma demo_wire_route: "find_route (demo_wire j) = Some mint_route"
  by (simp add: find_route_def management_routes_def demo_wire_def mint_route_def api_prefix_def auth_prefix_def
      credentials_prefix_def tokens_prefix_def)

lemma demo_wire_user: "current_user demo_libs (wr_bearer (demo_wire j)) demo_world = (Inr demo_user, demo_world)"
  by (simp add: current_user_def get_current_user_def demo_wire_def decode_jwt_def demo_libs_def demo_world_def demo_user_def
      bind_app catch_app)


lemma minted_permissions_asked_for_witness:
  "\<exists>m t rows. management zone_env demo_libs demo_validators (\<lambda>_. []) 1 (JArr []) (demo_wire demo_mint_body) demo_world
       = Some (make_response 201 ''Scoped token minted'' (JObj m), t)
     \<and> w_rules t = w_rules demo_world @ rows \<and> length rows = 1 \<and> (\<forall>r \<in> set rows. \<not> rule_allow_delete r)"
proof -
  have rules: "mint_request demo_validators demo_mint_body = Some (''ddns2'', ''cred1'', None, [demo_rule_request])"
    by code_simp
  have call: "call_of demo_validators (demo_wire demo_mint_body) mint_route = Some (Mint (Some ''jwt:user1'') ''ddns2'' ''cred1'' [demo_rule_request] None)"
    by (simp add: call_of_def mint_route_def body_of_def demo_wire_def rules)
  obtain row full t where mint: "mint_scoped_token zone_env ''user1'' ''ddns2'' ''cred1'' [demo_rule_request] None demo_world = (Inr (row, full), t)"
    using demo_mint by blast
  obtain m where m: "minted_response_data (\<lambda>_. []) (row, full) = JObj m" by (simp add: minted_response_data_def)
  have user: "current_user demo_libs (Some ''jwt:user1'') demo_world = (Inr demo_user, demo_world)"
    using demo_wire_user by (simp add: demo_wire_def)
  have "u_id demo_user = ''user1''" by (simp add: demo_user_def)
  then have run: "management zone_env demo_libs demo_validators (\<lambda>_. []) 1 (JArr []) (demo_wire demo_mint_body) demo_world
       = Some (make_response 201 ''Scoped token minted'' (JObj m), t)"
    using mint user m
    by (simp add: management_def demo_wire_route management_prog_def call run_endpoint_def managed_def bind_app
        mint_scoped_token_endpoint_def answer_errors_def catch_app) (simp add: mint_route_def demo_wire_def)
  have b: "wr_body (demo_wire demo_mint_body) = Json demo_mint_body" and e: "mr_endpoint mint_route = Ep_mint"
    by (simp_all add: demo_wire_def mint_route_def)
  from minted_permissions_asked_for [OF demo_wire_route e b run] obtain items rows
    where "lookup demo_mint_body ''scope_rules'' = Some (JArr items)" and rows: "w_rules t = w_rules demo_world @ rows"
      "list_all2 (asked_for demo_validators) items rows" by blast
  then obtain i where "items = [i]" "lookup i ''allow_delete'' = None" by (auto simp: demo_mint_body_def)
  then have "length rows = 1 \<and> (\<forall>r \<in> set rows. \<not> rule_allow_delete r)"
    using rows(2) by (auto simp: list_all2_Cons1 asked_for_def)
  with run rows(1) show ?thesis by blast
qed

end
