(* ===== verification/Documented.thy ===== *)
theory Documented
  imports Requests
begin

text \<open>
  The routes as they are documented: the decorator of every endpoint of the routers, with its methods,
  its path and the responses that the OpenAPI document shows for it; that the routes of the model
  are the decorators', and that the handlers answer what is documented.
\<close>

section \<open>The decorators\<close>

text \<open>
  The responses are given by status: a description, and the examples by name with their summary
  and value.
\<close>

record documented =
  d_methods :: "string list"
  d_path :: string
  d_responses :: "(int \<times> string \<times> (string \<times> string \<times> json) list) list"

definition register_doc :: documented where
  "register_doc = \<lparr>d_methods = [''POST''], d_path = ''/register'', d_responses = [
     (201, (''User registered'', [(''success'', ''Successful registration'', JObj [(''status'', JNum 201),
       (''message'', JStr ''User registered''), (''data'', JObj [(''id'',
       JStr ''5b1e2f0a-9a3b-4a0e-9c1a-8f6d3c2b7a10''), (''email'', JStr ''operator@example.com''), (''auth_provider'',
       JStr ''local''), (''is_active'', JBool True), (''created_at'', JStr ''2026-07-15T09:30:00+00:00'')])])])),
     (409, (''Email already registered'', [(''conflict'', ''Duplicate email'', JObj [(''status'', JNum 409),
       (''message'', JStr ''Email already registered''), (''data'', JNull)])]))]\<rparr>"

definition login_doc :: documented where
  "login_doc = \<lparr>d_methods = [''POST''], d_path = ''/login'', d_responses = [
     (200, (''Login successful'', [(''success'', ''Valid credentials'', JObj [(''status'', JNum 200), (''message'',
       JStr ''Login successful''), (''data'', JObj [(''access_token'',
       JStr ''eyJhbGciOiJIUzI1NiIsInR5cCI6IkpXVCJ9...''), (''token_type'', JStr ''bearer'')])])])),
     (401, (''Invalid email or password'', [(''invalid'', ''Bad credentials'', JObj [(''status'', JNum 401),
       (''message'', JStr ''Invalid email or password''), (''data'', JNull)])]))]\<rparr>"

definition read_me_doc :: documented where
  "read_me_doc = \<lparr>d_methods = [''GET''], d_path = ''/me'', d_responses = [
     (200, (''Current user'', [(''success'', ''Authenticated user'', JObj [(''status'', JNum 200), (''message'',
       JStr ''Current user''), (''data'', JObj [(''id'', JStr ''5b1e2f0a-9a3b-4a0e-9c1a-8f6d3c2b7a10''), (''email'',
       JStr ''operator@example.com''), (''auth_provider'', JStr ''local''), (''is_active'', JBool True),
       (''created_at'', JStr ''2026-07-15T09:30:00+00:00'')])])])),
     (401, (''Not authenticated'', [(''unauthenticated'', ''Missing or invalid bearer token'', JObj [(''detail'',
       JStr ''Not authenticated'')])]))]\<rparr>"

definition cf_login_doc :: documented where
  "cf_login_doc = \<lparr>d_methods = [''GET''], d_path = ''/cf/login'', d_responses = [
     (302, (''Redirect to the Cloudflare OAuth authorize endpoint'', []))]\<rparr>"

definition cf_callback_doc :: documented where
  "cf_callback_doc = \<lparr>d_methods = [''GET''], d_path = ''/cf/callback'', d_responses = [
     (200, (''Cloudflare login successful'', [(''success'', ''Valid OAuth callback'', JObj [(''status'', JNum 200),
       (''message'', JStr ''Cloudflare login successful''), (''data'', JObj [(''access_token'',
       JStr ''eyJhbGciOiJIUzI1NiIsInR5cCI6IkpXVCJ9...''), (''token_type'', JStr ''bearer'')])])])),
     (400, (''Invalid or expired OAuth state, or malformed token response'', [(''bad_state'',
       ''Expired or replayed state'', JObj [(''status'', JNum 400), (''message'',
       JStr ''invalid or expired oauth state''), (''data'', JNull)])]))]\<rparr>"

definition credential_not_found :: "string \<times> (string \<times> string \<times> json) list" where
  "credential_not_found = (''Upstream credential not found'', [(''not_found'', ''Credential does not exist or is not owned by the caller'',
     JObj [(''status'', JNum 404), (''message'', JStr ''upstream credential not found''), (''data'', JNull)])])"

definition create_credential_doc :: documented where
  "create_credential_doc = \<lparr>d_methods = [''POST''], d_path = '''', d_responses = [
     (201, (''Upstream credential registered'', [(''success'', ''Registered a pasted API token'', JObj [(''status'',
       JNum 201), (''message'', JStr ''Upstream credential registered''), (''data'', JObj [(''id'',
       JStr ''9d2c1b0a-3e4f-4a5b-8c6d-7e8f9a0b1c2d''), (''label'', JStr ''prod-dns-token''), (''cred_type'',
       JStr ''token''), (''cf_account_email'', JNull), (''verify_status'', JNull), (''verified_at'', JNull),
       (''created_at'', JStr ''2026-07-15T09:30:00+00:00'')])])])),
     (400, (''Invalid credential payload'', [(''invalid'', ''Missing required secret for the given cred_type'',
       JObj [(''status'', JNum 400), (''message'',
       JStr (''api_token is required for cred_type='' @ [CHR 0x27] @ ''token'' @ [CHR 0x27] @ [])), (''data'',
       JNull)])]))]\<rparr>"

definition list_credentials_doc :: documented where
  "list_credentials_doc = \<lparr>d_methods = [''GET''], d_path = '''', d_responses = [
     (200, (''Upstream credentials listed'', [(''success'', ''One stored credential'', JObj [(''status'', JNum 200),
       (''message'', JStr ''Upstream credentials listed''), (''data'', JArr [JObj [(''id'',
       JStr ''9d2c1b0a-3e4f-4a5b-8c6d-7e8f9a0b1c2d''), (''label'', JStr ''prod-dns-token''), (''cred_type'',
       JStr ''token''), (''cf_account_email'', JStr ''operator@example.com''), (''verify_status'', JStr ''active''),
       (''verified_at'', JStr ''2026-07-15T09:31:00+00:00''), (''created_at'',
       JStr ''2026-07-15T09:30:00+00:00'')]])])]))]\<rparr>"

definition delete_credential_doc :: documented where
  "delete_credential_doc = \<lparr>d_methods = [''DELETE''], d_path = ''/{credential_id}'', d_responses = [
     (200, (''Upstream credential deleted'', [(''success'', ''Credential removed'', JObj [(''status'', JNum 200),
       (''message'', JStr ''Upstream credential deleted''), (''data'', JNull)])])),
     (404, credential_not_found)]\<rparr>"

definition verify_credential_doc :: documented where
  "verify_credential_doc = \<lparr>d_methods = [''POST''], d_path = ''/{credential_id}/verify'', d_responses = [
     (200, (''Upstream credential verified'', [(''success'', ''Credential is valid upstream'', JObj [(''status'',
       JNum 200), (''message'', JStr ''Upstream credential verified''), (''data'', JObj [(''id'',
       JStr ''9d2c1b0a-3e4f-4a5b-8c6d-7e8f9a0b1c2d''), (''label'', JStr ''prod-dns-token''), (''cred_type'',
       JStr ''token''), (''cf_account_email'', JStr ''operator@example.com''), (''verify_status'', JStr ''active''),
       (''verified_at'', JStr ''2026-07-15T09:31:00+00:00''), (''created_at'',
       JStr ''2026-07-15T09:30:00+00:00'')])])])),
     (404, credential_not_found)]\<rparr>"

definition list_credential_zones_doc :: documented where
  "list_credential_zones_doc = \<lparr>d_methods = [''GET''], d_path = ''/{credential_id}/zones'', d_responses = [
     (200, (''Zones listed'', [(''success'', ''One visible zone'', JObj [(''status'', JNum 200), (''message'',
       JStr ''Zones listed''), (''data'', JArr [JObj [(''id'', JStr ''023e105f4ecef8ad9ca31a8372d0c353''), (''name'',
       JStr ''example.com''), (''status'', JStr ''active'')]])])])),
     (404, credential_not_found)]\<rparr>"

definition list_zone_records_doc :: documented where
  "list_zone_records_doc = \<lparr>d_methods = [''GET''], d_path = ''/{credential_id}/zones/{zone_id}/records'', d_responses = [
     (200, (''DNS records listed'', [(''success'', ''One DNS record'', JObj [(''status'', JNum 200), (''message'',
       JStr ''DNS records listed''), (''data'', JArr [JObj [(''id'', JStr ''rec1''), (''zone_id'',
       JStr ''023e105f4ecef8ad9ca31a8372d0c353''), (''type'', JStr ''A''), (''name'', JStr ''app.example.com''),
       (''content'', JStr ''203.0.113.10'')]])])])),
     (404, credential_not_found)]\<rparr>"

definition token_not_found :: "string \<times> (string \<times> string \<times> json) list" where
  "token_not_found = (''Scoped token not found'', [(''not_found'', ''Token does not exist or is not owned by the caller'',
     JObj [(''status'', JNum 404), (''message'', JStr ''scoped token not found''), (''data'', JNull)])])"

definition mint_scoped_token_doc :: documented where
  "mint_scoped_token_doc = \<lparr>d_methods = [''POST''], d_path = '''', d_responses = [
     (201, (''Scoped token minted'', [(''success'', ''New record-scoped token minted'', JObj [(''status'', JNum 201),
       (''message'', JStr ''Scoped token minted''), (''data'', JObj [(''id'',
       JStr ''1a2b3c4d-5e6f-4a5b-8c6d-7e8f9a0b1c2d''), (''name'', JStr ''staging-acme-dns''), (''token'',
       JStr ''cfsx_AbCdEf0123456789AbCd_1234567890abcdefghijklmnopqrstuvwxyzABCD''), (''token_prefix'',
       JStr ''cfsx_AbCdEf''), (''expires_at'', JNull), (''created_at'', JStr ''2026-07-15T09:32:00+00:00'')])])])),
     (400, (''Invalid scope rules'', [(''invalid'', ''A scope rule was missing name_pattern and record_ids'',
       JObj [(''status'', JNum 400), (''message'', JStr ''each scope rule requires a name_pattern or record_ids''),
       (''data'', JNull)])])),
     (404, (''Upstream credential not found'', [(''not_found'', ''upstream_credential_id is not owned by the caller'',
       JObj [(''status'', JNum 404), (''message'', JStr ''upstream credential not found''), (''data'', JNull)])]))]\<rparr>"

definition list_scoped_tokens_doc :: documented where
  "list_scoped_tokens_doc = \<lparr>d_methods = [''GET''], d_path = '''', d_responses = [
     (200, (''Scoped tokens listed'', [(''success'', ''One active scoped token'', JObj [(''status'', JNum 200),
       (''message'', JStr ''Scoped tokens listed''), (''data'', JArr [JObj [(''id'',
       JStr ''1a2b3c4d-5e6f-4a5b-8c6d-7e8f9a0b1c2d''), (''name'', JStr ''staging-acme-dns''), (''token_prefix'',
       JStr ''cfsx_AbCdEf''), (''status'', JStr ''active''), (''version'', JNum 1), (''expires_at'', JNull),
       (''last_used_at'', JNull), (''created_at'', JStr ''2026-07-15T09:32:00+00:00''), (''revoked_at'', JNull)]])])]))]\<rparr>"

definition get_scoped_token_doc :: documented where
  "get_scoped_token_doc = \<lparr>d_methods = [''GET''], d_path = ''/{token_id}'', d_responses = [
     (200, (''Scoped token detail'', [(''success'', ''Token with its scope rules'', JObj [(''status'', JNum 200),
       (''message'', JStr ''Scoped token detail''), (''data'', JObj [(''id'',
       JStr ''1a2b3c4d-5e6f-4a5b-8c6d-7e8f9a0b1c2d''), (''name'', JStr ''staging-acme-dns''), (''token_prefix'',
       JStr ''cfsx_AbCdEf''), (''status'', JStr ''active''), (''version'', JNum 1), (''expires_at'', JNull),
       (''last_used_at'', JNull), (''created_at'', JStr ''2026-07-15T09:32:00+00:00''), (''revoked_at'', JNull),
       (''rules'', JArr [JObj [(''id'', JStr ''2b3c4d5e-6f70-4a5b-8c6d-7e8f9a0b1c2d''), (''zone_id'',
       JStr ''023e105f4ecef8ad9ca31a8372d0c353''), (''name_pattern'', JStr ''*.staging''), (''name_match'',
       JStr ''wildcard''), (''record_types'', JArr [JStr ''A'', JStr ''CNAME'']), (''record_ids'', JNull),
       (''allow_read'', JBool True), (''allow_create'', JBool True), (''allow_write'', JBool True), (''allow_delete'',
       JBool False), (''content_lock'', JNull), (''created_at'', JStr ''2026-07-15T09:32:00+00:00'')]])])])])),
     (404, token_not_found)]\<rparr>"

definition rotate_scoped_token_doc :: documented where
  "rotate_scoped_token_doc = \<lparr>d_methods = [''POST''], d_path = ''/{token_id}/rotate'', d_responses = [
     (200, (''Scoped token rotated'', [(''success'', ''New raw token issued, old secret invalidated'',
       JObj [(''status'', JNum 200), (''message'', JStr ''Scoped token rotated''), (''data'', JObj [(''id'',
       JStr ''1a2b3c4d-5e6f-4a5b-8c6d-7e8f9a0b1c2d''), (''token'',
       JStr ''cfsx_ZzYyXxWwVvUuTtSsRrQq_abcdefghijklmnopqrstuvwxyzABCDEFGHIJKLMN''), (''token_prefix'',
       JStr ''cfsx_ZzYyXx''), (''version'', JNum 2)])])])),
     (404, token_not_found)]\<rparr>"

definition revoke_scoped_token_doc :: documented where
  "revoke_scoped_token_doc = \<lparr>d_methods = [''DELETE''], d_path = ''/{token_id}'', d_responses = [
     (200, (''Scoped token revoked'', [(''success'', ''Token revoked'', JObj [(''status'', JNum 200), (''message'',
       JStr ''Scoped token revoked''), (''data'', JNull)])])),
     (404, token_not_found)]\<rparr>"

definition get_audit_logs_doc :: documented where
  "get_audit_logs_doc = \<lparr>d_methods = [''GET''], d_path = '''', d_responses = [
     (200, (''Audit logs listed'', [(''success'', ''One allowed request'', JObj [(''status'', JNum 200), (''message'',
       JStr ''Audit logs listed''), (''data'', JObj [(''items'', JArr [JObj [(''id'',
       JStr ''3c4d5e6f-7081-4a5b-8c6d-7e8f9a0b1c2d''), (''ts'', JStr ''2026-07-15T10:05:00+00:00''),
       (''scoped_token_id'', JStr ''1a2b3c4d-5e6f-4a5b-8c6d-7e8f9a0b1c2d''), (''token_prefix'', JStr ''cfsx_AbCdEf''),
       (''method'', JStr ''PATCH''), (''path'',
       JStr ''/client/v4/zones/023e105f4ecef8ad9ca31a8372d0c353/dns_records/rec1''), (''zone_id'',
       JStr ''023e105f4ecef8ad9ca31a8372d0c353''), (''record_id'', JStr ''rec1''), (''record_name'',
       JStr ''app.staging.example.com''), (''record_type'', JStr ''A''), (''decision'', JStr ''allow''),
       (''deny_reason'', JNull), (''upstream_status'', JNum 200), (''client_ip'', JStr ''203.0.113.7''),
       (''latency_ms'', JNum 42)]]), (''result_info'', JObj [(''page'', JNum 1), (''per_page'', JNum 50), (''count'',
       JNum 1), (''total_count'', JNum 1)])])])]))]\<rparr>"

definition verify_token_doc :: documented where
  "verify_token_doc = \<lparr>d_methods = [''GET''], d_path = ''/client/v4/user/tokens/verify'', d_responses = [
     (200, (''The scoped token is active'', [(''active'', ''Token resolved and active'', JObj [(''success'',
       JBool True), (''errors'', JArr []), (''messages'', JArr [JObj [(''code'', JNum 10000), (''message'',
       JStr ''This API Token is valid and active'')]]), (''result'', JObj [(''id'',
       JStr ''1a2b3c4d-5e6f-4a5b-8c6d-7e8f9a0b1c2d''), (''status'', JStr ''active'')])])])),
     (401, (''The presented token is missing, malformed, unknown, or inactive'', [(''invalid'', ''Invalid API Token'',
       JObj [(''success'', JBool False), (''errors'', JArr [JObj [(''code'', JNum 1000), (''message'',
       JStr ''Invalid API Token'')]]), (''messages'', JArr []), (''result'', JNull)])]))]\<rparr>"

definition list_zones_doc :: documented where
  "list_zones_doc = \<lparr>d_methods = [''GET''], d_path = ''/client/v4/zones'', d_responses = [
     (200, (''Zones the scoped token has any rule for'', [(''success'', ''One in-scope zone'', JObj [(''success'',
       JBool True), (''errors'', JArr []), (''messages'', JArr []), (''result'', JArr [JObj [(''id'', JStr ''zone1''),
       (''name'', JStr ''example.com''), (''status'', JStr ''active'')]]), (''result_info'', JObj [(''page'', JNum 1),
       (''per_page'', JNum 20), (''count'', JNum 1), (''total_count'', JNum 1), (''total_pages'', JNum 1)])])]))]\<rparr>"

definition list_dns_records_doc :: documented where
  "list_dns_records_doc = \<lparr>d_methods = [''GET''], d_path = ''/client/v4/zones/{zone_id}/dns_records'', d_responses = [
     (200, (''Records the scoped token is authorized to read'', [(''success'', ''One authorized record'',
       JObj [(''success'', JBool True), (''errors'', JArr []), (''messages'', JArr []), (''result'',
       JArr [JObj [(''id'', JStr ''rec1''), (''zone_id'', JStr ''zone1''), (''type'', JStr ''A''), (''name'',
       JStr ''home.example.com''), (''content'', JStr ''1.2.3.4'')]]), (''result_info'', JObj [(''page'', JNum 1),
       (''per_page'', JNum 20), (''count'', JNum 1), (''total_count'', JNum 1), (''total_pages'', JNum 1)])])]))]\<rparr>"

definition create_dns_record_doc :: documented where
  "create_dns_record_doc = \<lparr>d_methods = [''POST''], d_path = ''/client/v4/zones/{zone_id}/dns_records'', d_responses = [
     (200, (''Record created and forwarded verbatim from Cloudflare'', [(''success'', ''Record created'',
       JObj [(''success'', JBool True), (''errors'', JArr []), (''messages'', JArr []), (''result'', JObj [(''id'',
       JStr ''rec1''), (''zone_id'', JStr ''zone1''), (''type'', JStr ''A''), (''name'', JStr ''home.example.com''),
       (''content'', JStr ''1.2.3.4'')])])])),
     (403, ((''The scoped token'' @ [CHR 0x27] @ ''s rules do not grant create for this name/type''), [(''forbidden'',
       ''Out of scope'', JObj [(''success'', JBool False), (''errors'', JArr [JObj [(''code'', JNum 9109), (''message'',
       JStr ''Authorization error: insufficient scope'')]]), (''messages'', JArr []), (''result'', JNull)])]))]\<rparr>"

definition get_dns_record_doc :: documented where
  "get_dns_record_doc = \<lparr>d_methods = [''GET''], d_path = ''/client/v4/zones/{zone_id}/dns_records/{record_id}'', d_responses = [
     (200, (''The authorized record'', [(''success'', ''Record fetched'', JObj [(''success'', JBool True),
       (''errors'', JArr []), (''messages'', JArr []), (''result'', JObj [(''id'', JStr ''rec1''), (''zone_id'',
       JStr ''zone1''), (''type'', JStr ''A''), (''name'', JStr ''home.example.com''), (''content'',
       JStr ''1.2.3.4'')])])])),
     (404, (''Record missing, cross-zone, or not read-authorized'', [(''not_found'', ''Record does not exist'',
       JObj [(''success'', JBool False), (''errors'', JArr [JObj [(''code'', JNum 81044), (''message'',
       JStr ''Record does not exist.'')]]), (''messages'', JArr []), (''result'', JNull)])]))]\<rparr>"

definition patch_dns_record_doc :: documented where
  "patch_dns_record_doc = \<lparr>d_methods = [''PATCH''], d_path = ''/client/v4/zones/{zone_id}/dns_records/{record_id}'', d_responses = [
     (200, (''Record patched and forwarded verbatim from Cloudflare'', [(''success'', ''Record patched'',
       JObj [(''success'', JBool True), (''errors'', JArr []), (''messages'', JArr []), (''result'', JObj [(''id'',
       JStr ''rec1''), (''zone_id'', JStr ''zone1''), (''type'', JStr ''A''), (''name'', JStr ''home.example.com''),
       (''content'', JStr ''5.6.7.8'')])])])),
     (403, ((''The rename/retype would escape the token'' @ [CHR 0x27] @ ''s scope''), [(''forbidden'',
       ''Rename escape'', JObj [(''success'', JBool False), (''errors'', JArr [JObj [(''code'', JNum 9109),
       (''message'', JStr ''Authorization error: insufficient scope'')]]), (''messages'', JArr []), (''result'',
       JNull)])])),
     (404, (''Record missing, cross-zone, or not write-authorized'', [(''not_found'', ''Record does not exist'',
       JObj [(''success'', JBool False), (''errors'', JArr [JObj [(''code'', JNum 81044), (''message'',
       JStr ''Record does not exist.'')]]), (''messages'', JArr []), (''result'', JNull)])])),
     (503, (''The mutation lock could not be acquired'', [(''locked'', ''Fail-closed on lock timeout'',
       JObj [(''success'', JBool False), (''errors'', JArr [JObj [(''code'', JNum 1000), (''message'',
       JStr ''Could not acquire the record mutation lock, please retry.'')]]), (''messages'', JArr []), (''result'',
       JNull)])]))]\<rparr>"

definition put_dns_record_doc :: documented where
  "put_dns_record_doc = \<lparr>d_methods = [''PUT''], d_path = ''/client/v4/zones/{zone_id}/dns_records/{record_id}'', d_responses = [
     (200, (''Record replaced and forwarded verbatim from Cloudflare'', [(''success'', ''Record replaced'',
       JObj [(''success'', JBool True), (''errors'', JArr []), (''messages'', JArr []), (''result'', JObj [(''id'',
       JStr ''rec1''), (''zone_id'', JStr ''zone1''), (''type'', JStr ''A''), (''name'', JStr ''home.example.com''),
       (''content'', JStr ''5.6.7.8'')])])])),
     (403, ((''The rename/retype would escape the token'' @ [CHR 0x27] @ ''s scope''), [(''forbidden'',
       ''Rename escape'', JObj [(''success'', JBool False), (''errors'', JArr [JObj [(''code'', JNum 9109),
       (''message'', JStr ''Authorization error: insufficient scope'')]]), (''messages'', JArr []), (''result'',
       JNull)])])),
     (404, (''Record missing, cross-zone, or not write-authorized'', [(''not_found'', ''Record does not exist'',
       JObj [(''success'', JBool False), (''errors'', JArr [JObj [(''code'', JNum 81044), (''message'',
       JStr ''Record does not exist.'')]]), (''messages'', JArr []), (''result'', JNull)])])),
     (503, (''The mutation lock could not be acquired'', [(''locked'', ''Fail-closed on lock timeout'',
       JObj [(''success'', JBool False), (''errors'', JArr [JObj [(''code'', JNum 1000), (''message'',
       JStr ''Could not acquire the record mutation lock, please retry.'')]]), (''messages'', JArr []), (''result'',
       JNull)])]))]\<rparr>"

definition delete_dns_record_doc :: documented where
  "delete_dns_record_doc = \<lparr>d_methods = [''DELETE''], d_path = ''/client/v4/zones/{zone_id}/dns_records/{record_id}'', d_responses = [
     (200, (''Record deleted and forwarded verbatim from Cloudflare'', [(''success'', ''Record deleted'',
       JObj [(''success'', JBool True), (''errors'', JArr []), (''messages'', JArr []), (''result'', JObj [(''id'',
       JStr ''rec1'')])])])),
     (404, (''Record missing, cross-zone, or not delete-authorized'', [(''not_found'', ''Record does not exist'',
       JObj [(''success'', JBool False), (''errors'', JArr [JObj [(''code'', JNum 81044), (''message'',
       JStr ''Record does not exist.'')]]), (''messages'', JArr []), (''result'', JNull)])])),
     (503, (''The mutation lock could not be acquired'', [(''locked'', ''Fail-closed on lock timeout'',
       JObj [(''success'', JBool False), (''errors'', JArr [JObj [(''code'', JNum 1000), (''message'',
       JStr ''Could not acquire the record mutation lock, please retry.'')]]), (''messages'', JArr []), (''result'',
       JNull)])]))]\<rparr>"

definition blocked_dns_records_batch_doc :: documented where
  "blocked_dns_records_batch_doc = \<lparr>d_methods = BULK_METHODS, d_path = ''/client/v4/zones/{zone_id}/dns_records/batch'', d_responses = [
     (403, (''Batch operations are not supported by the scoped proxy'', [(''forbidden'', ''Batch mutation blocked'',
       JObj [(''success'', JBool False), (''errors'', JArr [JObj [(''code'', JNum 9109), (''message'',
       JStr ''Authorization error: insufficient scope'')]]), (''messages'', JArr []), (''result'', JNull)])]))]\<rparr>"

definition blocked_dns_records_import_doc :: documented where
  "blocked_dns_records_import_doc = \<lparr>d_methods = BULK_METHODS, d_path = ''/client/v4/zones/{zone_id}/dns_records/import'', d_responses = [
     (403, (''Import operations are not supported by the scoped proxy'', [(''forbidden'', ''Import mutation blocked'',
       JObj [(''success'', JBool False), (''errors'', JArr [JObj [(''code'', JNum 9109), (''message'',
       JStr ''Authorization error: insufficient scope'')]]), (''messages'', JArr []), (''result'', JNull)])]))]\<rparr>"

definition blocked_dns_records_export_doc :: documented where
  "blocked_dns_records_export_doc = \<lparr>d_methods = BULK_METHODS, d_path = ''/client/v4/zones/{zone_id}/dns_records/export'', d_responses = [
     (403, (''Export operations are not supported by the scoped proxy'', [(''forbidden'', ''Export blocked'',
       JObj [(''success'', JBool False), (''errors'', JArr [JObj [(''code'', JNum 9109), (''message'',
       JStr ''Authorization error: insufficient scope'')]]), (''messages'', JArr []), (''result'', JNull)])]))]\<rparr>"

definition catch_all_doc :: documented where
  "catch_all_doc = \<lparr>d_methods = BULK_METHODS, d_path = ''/client/v4/{path:path}'', d_responses = [
     (404, (''No proxy endpoint matches this path'', [(''not_found'', ''Unknown route'', JObj [(''success'',
       JBool False), (''errors'', JArr [JObj [(''code'', JNum 7003), (''message'', JStr ''Not found.'')]]),
       (''messages'', JArr []), (''result'', JNull)])]))]\<rparr>"

section \<open>The routes they declare\<close>

text \<open>The routers in the order of \<^verbatim>\<open>create_app\<close>, each decorator with the prefix of its router\<close>

definition management_docs :: "(segment list \<times> documented) list" where
  "management_docs =
     map (Pair auth_prefix) [register_doc, login_doc, read_me_doc, cf_login_doc, cf_callback_doc]
     @ map (Pair credentials_prefix) [create_credential_doc, list_credentials_doc, delete_credential_doc, verify_credential_doc,
         list_credential_zones_doc, list_zone_records_doc]
     @ map (Pair tokens_prefix) [mint_scoped_token_doc, list_scoped_tokens_doc, get_scoped_token_doc, rotate_scoped_token_doc,
         revoke_scoped_token_doc]
     @ map (Pair audit_prefix) [get_audit_logs_doc]"

definition proxy_docs :: "documented list" where
  "proxy_docs = [verify_token_doc, list_zones_doc, list_dns_records_doc, create_dns_record_doc, get_dns_record_doc,
     patch_dns_record_doc, put_dns_record_doc, delete_dns_record_doc, blocked_dns_records_batch_doc,
     blocked_dns_records_import_doc, blocked_dns_records_export_doc, catch_all_doc]"

text \<open>Starlette's path templates: \<^verbatim>\<open>{x}\<close> is one segment, \<^verbatim>\<open>{x:path}\<close> the rest of the path.\<close>

definition segment_of :: "string \<Rightarrow> segment" where
  "segment_of s = (if py_startswith s ''{'' then (if py_endswith s '':path}'' then Rest else Param) else Lit s)"

definition template_of :: "string \<Rightarrow> segment list" where
  "template_of path = map segment_of (tl (py_split CHR ''/'' path))"

lemma routes_declared:
  "map (\<lambda>(p, d). (d_methods d, p @ template_of (d_path d))) (filter (\<lambda>(p, d). d_path d \<noteq> ''/cf/login'') management_docs)
     = map (\<lambda>r. ([mr_method r], mr_path r)) management_routes"
  "map (\<lambda>d. (d_methods d, template_of (d_path d))) proxy_docs = map (\<lambda>r. (rt_methods r, rt_path r)) proxy_routes"
  by code_simp+

definition statuses :: "documented \<Rightarrow> int list" where
  "statuses d = map fst (d_responses d)"

definition examples :: "documented \<Rightarrow> response list" where
  "examples d = concat (map (\<lambda>(st, _, exs). map (\<lambda>(_, _, v). \<lparr>status_code = st, content = v\<rparr>) exs) (d_responses d))"

section \<open>What the management handlers answer\<close>

text \<open>The decorator of the endpoint that a call runs\<close>

fun doc_of :: "call \<Rightarrow> documented" where
  "doc_of (Verify_token _) = verify_token_doc"
| "doc_of (Proxy_zones _) = list_zones_doc"
| "doc_of (Proxy_records _ _) = list_dns_records_doc"
| "doc_of (Proxy_create _ _) = create_dns_record_doc"
| "doc_of (Proxy_by_id m _ _ _) = (if m = ''PATCH'' then patch_dns_record_doc else if m = ''PUT'' then put_dns_record_doc
     else if m = ''DELETE'' then delete_dns_record_doc else get_dns_record_doc)"
| "doc_of Proxy_blocked = blocked_dns_records_batch_doc"
| "doc_of Proxy_other = catch_all_doc"
| "doc_of (Register _ _) = register_doc"
| "doc_of (Login _ _) = login_doc"
| "doc_of (Me _) = read_me_doc"
| "doc_of (Cf_callback _ _) = cf_callback_doc"
| "doc_of (Add_credential _ _ _ _ _ _) = create_credential_doc"
| "doc_of (Credentials _) = list_credentials_doc"
| "doc_of (Remove_credential _ _) = delete_credential_doc"
| "doc_of (Check_credential _ _) = verify_credential_doc"
| "doc_of (Zones _ _) = list_credential_zones_doc"
| "doc_of (Zone_records _ _ _ _ _) = list_zone_records_doc"
| "doc_of (Mint _ _ _ _ _) = mint_scoped_token_doc"
| "doc_of (Tokens _) = list_scoped_tokens_doc"
| "doc_of (Token_detail _ _) = get_scoped_token_doc"
| "doc_of (Rotate _ _) = rotate_scoped_token_doc"
| "doc_of (Revoke _ _) = revoke_scoped_token_doc"
| "doc_of (Audit _ _ _ _ _ _) = get_audit_logs_doc"

definition in_docs :: "documented \<Rightarrow> response \<Rightarrow> bool" where
  "in_docs d r \<longleftrightarrow> status_code r \<in> set (statuses d)"

lemma in_docs_response [simp]: "in_docs d (make_response st m x) \<longleftrightarrow> st \<in> set (statuses d)"
  by (simp add: in_docs_def)

lemma documented_statuses [simp]:
  "statuses register_doc = [201, 409]" "statuses login_doc = [200, 401]" "statuses read_me_doc = [200, 401]"
  "statuses cf_callback_doc = [200, 400]" "statuses create_credential_doc = [201, 400]" "statuses list_credentials_doc = [200]"
  "statuses delete_credential_doc = [200, 404]" "statuses verify_credential_doc = [200, 404]"
  "statuses list_credential_zones_doc = [200, 404]" "statuses list_zone_records_doc = [200, 404]"
  "statuses mint_scoped_token_doc = [201, 400, 404]" "statuses list_scoped_tokens_doc = [200]"
  "statuses get_scoped_token_doc = [200, 404]" "statuses rotate_scoped_token_doc = [200, 404]"
  "statuses revoke_scoped_token_doc = [200, 404]" "statuses get_audit_logs_doc = [200]"
  by code_simp+

lemma errors_in_docs:
  assumes "yields (in_docs d) m" and "404 \<in> set (statuses d)" and "b \<Longrightarrow> 400 \<in> set (statuses d)"
  shows "yields (in_docs d) (answer_errors b m)"
proof (cases b)
  case True
  then show ?thesis unfolding answer_errors_def using assms by (intro yields_intros) simp_all
next
  case False
  then have "answer_errors b m = catch m (\<lambda>e. if is_NotFound e then return (make_response 404 (exn_text e) JNull) else raise e)"
    by (simp add: answer_errors_def cong: if_cong)
  then show ?thesis using assms by (simp only:) (intro yields_intros, simp_all)
qed

lemma accounts_in_docs:
  "yields (in_docs register_doc) (register fmt E L email pw)" "yields (in_docs login_doc) (login E L email pw)"
  "yields (in_docs read_me_doc) (read_me fmt u)" "yields (in_docs cf_callback_doc) (cf_callback E L code state)"
proof -
  show "yields (in_docs register_doc) (register fmt E L email pw)"
    unfolding register_def Let_def by (intro yields_intros) simp_all
  show "yields (in_docs login_doc) (login E L email pw)"
    unfolding login_def invalid_login_def by (intro yields_intros) simp_all
  show "yields (in_docs read_me_doc) (read_me fmt u)"
    unfolding read_me_def by (intro yields_intros) simp
  show "yields (in_docs cf_callback_doc) (cf_callback E L code state)"
    unfolding cf_callback_def
  proof (rule yields_post)
    show "yields (\<lambda>r. case r of Inl answer \<Rightarrow> in_docs cf_callback_doc answer | Inr jwt \<Rightarrow> True)
      (catch (bind (handle_cf_oauth_callback E L code state) (\<lambda>p. return (Inr (snd p))))
         (\<lambda>e. if is_ValueError e then return (Inl (make_response 400 (exn_text e) JNull)) else raise e))"
      by (intro yields_intros) simp_all
  qed (auto intro: yields_intros split: sum.splits)
qed

lemma credentials_in_docs:
  "yields (in_docs create_credential_doc) (create_credential_endpoint fmt E label ty tok key email u)"
  "yields (in_docs list_credentials_doc) (list_credentials_endpoint fmt u)"
  "yields (in_docs delete_credential_doc) (delete_credential_endpoint E i u)"
  "yields (in_docs verify_credential_doc) (verify_credential_endpoint fmt E i u)"
  "yields (in_docs list_credential_zones_doc) (list_zones_endpoint fuel E i u)"
  "yields (in_docs list_zone_records_doc) (list_zone_records_endpoint fuel E i z rt n u)"
  unfolding create_credential_endpoint_def list_credentials_endpoint_def delete_credential_endpoint_def
    verify_credential_endpoint_def list_zones_endpoint_def list_zone_records_endpoint_def
  by ((intro errors_in_docs yields_intros; simp)+)

lemma tokens_in_docs:
  "yields (in_docs mint_scoped_token_doc) (mint_scoped_token_endpoint fmt E name up rs ex u)"
  "yields (in_docs list_scoped_tokens_doc) (list_scoped_tokens_endpoint fmt u)"
  "yields (in_docs get_scoped_token_doc) (get_scoped_token_endpoint fmt i u)"
  "yields (in_docs rotate_scoped_token_doc) (rotate_scoped_token_endpoint E i u)"
  "yields (in_docs revoke_scoped_token_doc) (revoke_scoped_token_endpoint E i u)"
  "yields (in_docs get_audit_logs_doc) (get_audit_logs_endpoint fmt k z s p n u)"
  unfolding mint_scoped_token_endpoint_def list_scoped_tokens_endpoint_def get_scoped_token_endpoint_def
    rotate_scoped_token_endpoint_def revoke_scoped_token_endpoint_def get_audit_logs_endpoint_def
  by ((intro errors_in_docs yields_intros; simp)+)

lemma management_in_docs:
  assumes "\<not> machine_plane c" shows "yields (in_docs (doc_of c)) (handler E L fmt fuel c)"
  using assms
  by (cases c) (simp_all only: handler.simps doc_of.simps machine_plane.simps simp_thms,
      (intro yields_managed accounts_in_docs credentials_in_docs tokens_in_docs)+)

section \<open>What the machine plane answers\<close>

text \<open>
  A documented error, a success, or what Cloudflare answered. A success is the 200 of
  \<^verbatim>\<open>make_cf_response\<close> with messages that have a code and a text, and the page's \<^verbatim>\<open>result_info\<close>, if any.
\<close>

definition succeeds :: "response \<Rightarrow> bool" where
  "succeeds r \<longleftrightarrow> (\<exists>result messages info. r = make_cf_response result 200 messages (map_option result_info_json info)
     \<and> list_all (\<lambda>m. \<exists>code t. m = JObj [(''code'', JNum code), (''message'', JStr t)]) messages)"

definition documented_errors :: "documented \<Rightarrow> response list" where
  "documented_errors d = filter (\<lambda>r. 400 \<le> status_code r) (examples d)"

definition as_documented :: "env \<Rightarrow> documented \<Rightarrow> response \<Rightarrow> bool" where
  "as_documented E d r \<longleftrightarrow> r \<in> set (documented_errors d) \<or> succeeds r \<or> relayed E r"

definition error_triple :: "int \<times> int \<times> string \<Rightarrow> response" where
  "error_triple = (\<lambda>(status, code, message). make_cf_error status code message)"

lemma machine_errors:
  "documented_errors create_dns_record_doc = [error_triple insufficient_scope]"
  "documented_errors get_dns_record_doc = [error_triple record_missing]"
  "documented_errors patch_dns_record_doc = [error_triple insufficient_scope, error_triple record_missing,
     make_cf_error 503 INTERNAL LOCK_UNAVAILABLE_MESSAGE]"
  "documented_errors put_dns_record_doc = [error_triple insufficient_scope, error_triple record_missing,
     make_cf_error 503 INTERNAL LOCK_UNAVAILABLE_MESSAGE]"
  "documented_errors delete_dns_record_doc = [error_triple record_missing, make_cf_error 503 INTERNAL LOCK_UNAVAILABLE_MESSAGE]"
  "documented_errors blocked_dns_records_batch_doc = [blocked_dns_records]"
  "documented_errors blocked_dns_records_import_doc = [blocked_dns_records]"
  "documented_errors blocked_dns_records_export_doc = [blocked_dns_records]"
  "documented_errors catch_all_doc = [catch_all]"
  by code_simp+

text \<open>The decisions that a method can get\<close>

definition decided :: "string \<Rightarrow> auth_decision \<Rightarrow> bool" where
  "decided m d \<longleftrightarrow> allowed d \<or> deny_error d = Some record_missing \<or> rename_method m \<and> deny_error d = Some insufficient_scope"

lemma decide_decided: "decide_on_image uni rules m op lock z i body pre = Inr d \<Longrightarrow> decided m d"
  by (erule decide_cases) (auto simp: decided_def elim!: decide_rename_cases split: if_splits)

lemma yields_decided:
  assumes "m \<in> {''GET'', ''PATCH'', ''PUT'', ''DELETE''}"
  shows "yields (decided m) (authorize_by_record_id E ctx m z i body auth)"
proof -
  have up: "py_upper m = m" using assms by (auto simp: py_upper_def) code_simp+
  then obtain op where "op_of (py_upper m) = Some op" using assms by (auto simp: op_of_def mutation_op_def)
  note run = authorize_by_id [OF this, unfolded up]
  show ?thesis
    unfolding authorize_by_record_id_def yields_def by (auto simp: run bind_Inr_iff dest: decide_decided)
qed

lemma succeeds_response [simp]:
  "succeeds (make_cf_response r 200 [] None)" "succeeds (make_cf_response r 200 [] (Some (result_info_json i)))"
  "succeeds (make_cf_response r 200 [JObj [(''code'', JNum code), (''message'', JStr t)]] None)"
proof -
  have *: "succeeds (make_cf_response r 200 ms (map_option result_info_json info))"
    if "list_all (\<lambda>m. \<exists>code t. m = JObj [(''code'', JNum code), (''message'', JStr t)]) ms" for ms info
    using that unfolding succeeds_def by blast
  show "succeeds (make_cf_response r 200 [] None)" "succeeds (make_cf_response r 200 [] (Some (result_info_json i)))"
    "succeeds (make_cf_response r 200 [JObj [(''code'', JNum code), (''message'', JStr t)]] None)"
    using * [of "[]" None] * [of "[]" "Some i"] * [of "[JObj [(''code'', JNum code), (''message'', JStr t)]]" None] by simp_all
qed

lemma yields_denied:
  assumes "deny_error d = Some err" and "error_triple err \<in> set (documented_errors doc)"
  shows "yields (as_documented E' doc) (deny_and_answer E ctx d entry)"
  unfolding deny_and_answer_def using assms
  by (auto simp: as_documented_def error_triple_def intro!: yields_intros split: prod.splits)

text \<open>What a documentation of a by-id mutation has to hold\<close>

definition documents :: "documented \<Rightarrow> string \<Rightarrow> bool" where
  "documents doc m \<longleftrightarrow> error_triple record_missing \<in> set (documented_errors doc)
     \<and> (rename_method m \<longrightarrow> error_triple insufficient_scope \<in> set (documented_errors doc))"

lemma denied_documented:
  "decided m d \<Longrightarrow> \<not> allowed d \<Longrightarrow> documents doc m \<Longrightarrow> yields (as_documented E' doc) (deny_and_answer E ctx d entry)"
  unfolding decided_def documents_def using yields_denied by blast

lemma yields_decided_and_forwarded:
  assumes "m \<in> {''PATCH'', ''PUT'', ''DELETE''}"
  shows "yields (\<lambda>p. decided m (fst p) \<and> forwarded_answer E p) (authorize_and_forward E m z i body c ctx auth)"
  unfolding authorize_and_forward_def
  by (rule yields_post [OF yields_decided], use assms in blast, rule yields_if, rule yields_return, simp add: forwarded_answer_def,
      rule yields_post [OF yields_forward], rule yields_return, simp add: forwarded_answer_def)

lemma relayed_json: "upstream_answer E up \<Longrightarrow> response_json up = Inr j \<Longrightarrow> as_documented E d (json_response (p_status up) j)"
  by (auto simp: upstream_answer_def as_documented_def relayed_def json_response_def response_json_def split: option.splits)

lemma yields_outcome:
  assumes "case r of None \<Rightarrow> True | Some p \<Rightarrow> decided m (fst p) \<and> forwarded_answer E p" and "documents doc m"
    and "make_cf_error 503 INTERNAL LOCK_UNAVAILABLE_MESSAGE \<in> set (documented_errors doc)"
  shows "yields (as_documented E doc) (answer_mutation E m z i rq ctx r)"
proof (cases r)
  case None
  then show ?thesis using assms(3) by (simp add: answer_mutation_def yields_return as_documented_def)
next
  case (Some p)
  obtain d up where p: "p = (d, up)" by (cases p)
  have d: "decided m d" "forwarded_answer E (d, up)" using assms(1) Some p by simp_all
  show ?thesis
  proof (cases up)
    case None
    show ?thesis unfolding answer_mutation_def \<open>r = Some p\<close> p None option.case prod.case
      using d(1) assms(2) by (cases "allowed d") (auto intro!: yields_bind yields_raise denied_documented)
  next
    case (Some u)
    have u: "upstream_answer E u" using d(2) Some by (simp add: forwarded_answer_def)
    show ?thesis
    proof (cases "allowed d")
      case True
      show ?thesis unfolding answer_mutation_def \<open>r = Some p\<close> p Some option.case prod.case using True
        by (simp, rule_tac yields_post [OF yields_json], rule_tac yields_bind, rule_tac yields_bind, rule_tac yields_return,
            rule_tac relayed_json [OF u])
    next
      case False
      then show ?thesis unfolding answer_mutation_def \<open>r = Some p\<close> p Some option.case prod.case
        using d(1) assms(2) by (auto intro!: yields_bind denied_documented)
    qed
  qed
qed

lemma yields_mutation_doc:
  assumes "m \<in> {''PATCH'', ''PUT'', ''DELETE''}" and "documents doc m"
    and "make_cf_error 503 INTERNAL LOCK_UNAVAILABLE_MESSAGE \<in> set (documented_errors doc)"
  shows "yields (as_documented E doc) (mutate_dns_record_by_id E m z i body c rq ctx)"
  unfolding mutate_dns_record_by_id_def Let_def
  by (rule yields_bind, rule yields_post, rule yields_guarded, rule yields_decided_and_forwarded [OF assms(1)],
      rule yields_outcome [OF _ assms(2,3)])

lemma by_id_documented: "yields (as_documented E (doc_of (Proxy_by_id m z i rq))) (by_id_handler E m z' i' rq' ctx)"
proof -
  have patch: "yields (as_documented E patch_dns_record_doc) (patch_dns_record E z i rq ctx)" for z i rq
    unfolding patch_dns_record_def by (intro yields_bind yields_mutation_doc) (simp_all add: documents_def machine_errors)
  have put: "yields (as_documented E put_dns_record_doc) (put_dns_record E z i rq ctx)" for z i rq
    unfolding put_dns_record_def by (intro yields_bind yields_mutation_doc) (simp_all add: documents_def machine_errors)
  have delete: "yields (as_documented E delete_dns_record_doc) (delete_dns_record E z i rq ctx)" for z i rq
    unfolding delete_dns_record_def
    by (rule yields_mutation_doc) (simp_all add: documents_def machine_errors rename_method_def)
  have "documents get_dns_record_doc ''GET''" by (simp add: documents_def machine_errors rename_method_def)
  then have deny: "decided ''GET'' d \<Longrightarrow> \<not> allowed d \<Longrightarrow> yields (as_documented E get_dns_record_doc) (deny_and_answer E ctx d entry)"
    for d entry using denied_documented by blast
  have get: "yields (as_documented E get_dns_record_doc) (get_dns_record E z i rq ctx)" for z i rq
    unfolding get_dns_record_def
  proof (rule yields_bind, rule yields_post [OF yields_decided])
    fix a d assume "decided ''GET'' d"
    with deny show "yields (as_documented E get_dns_record_doc)
        (if \<not> allowed d then bind (lift (image_entry ''GET'' z i ''deny'' (pre_image d) rq)) (\<lambda>entry. deny_and_answer E ctx d entry)
         else return (make_cf_response (pre_image d) 200 [] None))"
      by (cases "allowed d") (auto intro!: yields_bind yields_return simp: as_documented_def)
  qed simp
  from patch put delete get show ?thesis by (simp add: by_id_handler_def)
qed

lemma machine_documented:
  assumes "machine_plane c" shows "yields (as_documented E (doc_of c)) (handler E L fmt fuel c)"
proof -
  have s: "yields Q (scoped E rq h)" if "\<And>ctx. yields Q (h ctx)" for Q rq and h :: "proxy_auth_context \<Rightarrow> (world, response) prog"
    unfolding scoped_def using that by (intro yields_bind)
  have ok: "succeeds r \<Longrightarrow> as_documented E d r" for r d by (simp add: as_documented_def)
  have create: "yields (as_documented E create_dns_record_doc) (create_dns_record E z rq ctx)" for z rq ctx
  proof -
    have dec: "yields (\<lambda>d. allowed d \<or> deny_error d = Some insufficient_scope)
        (authorize_dns_request (e_idna E) (x_rules ctx) ''POST'' z None body f)" for body and f :: "string \<Rightarrow> string option \<Rightarrow> (world, json) prog"
    proof -
      have "py_upper ''POST'' = ''POST''" by code_simp
      then show ?thesis unfolding authorize_dns_request_def Let_def by (simp, intro yields_intros) simp_all
    qed
    show ?thesis
      unfolding create_dns_record_def Let_def
    proof (rule yields_bind, rule yields_post [OF dec])
      fix body and d :: auth_decision assume d: "allowed d \<or> deny_error d = Some insufficient_scope"
      show "yields (as_documented E create_dns_record_doc) (if \<not> allowed d then deny_and_answer E ctx d (e1 body) else
          bind (resolve_upstream_auth E (x_credential ctx)) (\<lambda>auth.
          bind (forward_request E ''POST'' (records_path z) [] [] (Some (cq_body rq)) auth) (\<lambda>response.
          bind (lift (response_json response)) (\<lambda>response_body.
          bind (record_audit E ctx (e2 body response response_body)) (\<lambda>_.
            return (json_response (p_status response) response_body))))))" for e1 e2
      proof (cases "allowed d")
        case True
        show ?thesis
          by (simp add: True, rule yields_bind, rule yields_post [OF yields_forward], rule yields_post [OF yields_json],
              rule yields_bind, rule yields_return, rule relayed_json)
      next
        case False
        then show ?thesis using d by (auto intro!: yields_denied simp: machine_errors)
      qed
    qed
  qed
  have lists: "yields (as_documented E d) (list_zones fuel E rq ctx)" "yields (as_documented E d) (list_dns_records fuel E z rq ctx)"
    "yields (as_documented E d) (verify_token_endpoint ctx)" for d rq ctx z
  proof -
    show "yields (as_documented E d) (list_zones fuel E rq ctx)"
      unfolding list_zones_def paged_response_def Let_def by (intro yields_intros ok) (simp split: prod.split)
    show "yields (as_documented E d) (list_dns_records fuel E z rq ctx)"
      unfolding list_dns_records_def paged_response_def Let_def by (intro yields_intros ok) (simp_all split: prod.split)
    show "yields (as_documented E d) (verify_token_endpoint ctx)"
      unfolding verify_token_endpoint_def by (intro yields_intros ok) simp
  qed
  have fixed: "as_documented E blocked_dns_records_batch_doc blocked_dns_records" "as_documented E catch_all_doc catch_all"
    by (simp_all add: as_documented_def machine_errors)
  show ?thesis using assms
    by (cases c) (simp_all only: handler.simps machine_plane.simps doc_of.simps(1-4,6,7),
        (intro s create lists by_id_documented yields_return fixed)+)
qed

section \<open>Properties\<close>

text \<open>
  The documented examples are answers of the surface they are documented for: on the management
  plane each is the envelope with its status, but for the 401 of \<^verbatim>\<open>/me\<close>, which is documented with
  FastAPI's default body; on the machine plane each is a Cloudflare envelope.
\<close>

theorem documented_examples_are_answers:
  "list_all (\<lambda>(_, d). list_all (\<lambda>r. is_mgmt_envelope r \<or> d_path d = ''/me'' \<and> status_code r = 401) (examples d)) management_docs
   \<and> list_all (\<lambda>d. list_all is_cf_envelope (examples d)) proxy_docs
   \<and> list_ex (\<lambda>r. \<not> is_mgmt_envelope r) (examples read_me_doc)"
  by code_simp

text \<open>
  C19: the handlers answer as documented: whatever the call and the world, when the handler of a
  management endpoint gives an answer its status is one that the endpoint documents; what a
  handler of the machine plane answers is one of the endpoint's documented errors, status and
  body, or a success, or what Cloudflare answered. (What exceptions turn into is not documented.)
\<close>

theorem handlers_answer_as_documented:
  assumes "handler E L fmt fuel c w = (Inr resp, t)"
  shows "if machine_plane c
    then resp \<in> set (documented_errors (doc_of c)) \<or> succeeds resp \<or> relayed E resp
    else status_code resp \<in> set (statuses (doc_of c))"
  using yieldsD [OF machine_documented assms] yieldsD [OF management_in_docs assms]
  by (simp add: as_documented_def in_docs_def)

lemma handlers_answer_as_documented_witness:
  "\<exists>resp. handler demo_env demo_libs (\<lambda>_. []) 1 (Login ''nobody'' ''x'') demo_world = (Inr resp, demo_world) \<and> status_code resp \<in> {200, 401}"
proof -
  have run: "handler demo_env demo_libs (\<lambda>_. []) 1 (Login ''nobody'' ''x'') demo_world = (Inr invalid_login, demo_world)"
    by (simp add: login_def bind_app user_by_email_def demo_world_def demo_user_def)
  have "status_code invalid_login \<in> {200, 401}" using handlers_answer_as_documented [OF run] by auto
  with run show ?thesis by blast
qed

end
