(* ===== verification/Examples.thy ===== *)
theory Examples
  imports Documented
begin

text \<open>
  The examples of the request and response models (\<^verbatim>\<open>model_config\<close> in \<^verbatim>\<open>schemas/management.py\<close>): the
  requests validate, the responses have the fields that the handlers produce, and the documented
  rule is one that minting refuses.
\<close>

section \<open>The examples\<close>

definition register_request_example :: json where
  "register_request_example =
     JObj [(''email'', JStr ''operator@example.com''), (''password'', JStr ''correct-horse-battery-staple'')]"

definition login_request_example :: json where
  "login_request_example =
     JObj [(''email'', JStr ''operator@example.com''), (''password'', JStr ''correct-horse-battery-staple'')]"

definition token_response_example :: json where
  "token_response_example =
     JObj [(''access_token'', JStr ''eyJhbGciOiJIUzI1NiIsInR5cCI6IkpXVCJ9...''), (''token_type'', JStr ''bearer'')]"

definition user_response_example :: json where
  "user_response_example =
     JObj [(''id'', JStr ''5b1e2f0a-9a3b-4a0e-9c1a-8f6d3c2b7a10''), (''email'', JStr ''operator@example.com''),
     (''auth_provider'', JStr ''local''), (''is_active'', JBool True),
     (''created_at'', JStr ''2026-07-15T09:30:00+00:00'')]"

definition credential_request_example :: json where
  "credential_request_example =
     JObj [(''label'', JStr ''prod-dns-token''), (''cred_type'', JStr ''token''),
     (''api_token'', JStr ''AbCdEf1234567890ghijklmnopqrstuvwxyz'')]"

definition upstream_credential_response_example :: json where
  "upstream_credential_response_example =
     JObj [(''id'', JStr ''9d2c1b0a-3e4f-4a5b-8c6d-7e8f9a0b1c2d''), (''label'', JStr ''prod-dns-token''),
     (''cred_type'', JStr ''token''), (''cf_account_email'', JStr ''operator@example.com''),
     (''verify_status'', JStr ''active''), (''verified_at'', JStr ''2026-07-15T09:31:00+00:00''),
     (''created_at'', JStr ''2026-07-15T09:30:00+00:00'')]"

definition scope_rule_request_example :: json where
  "scope_rule_request_example =
     JObj [(''zone_id'', JStr ''023e105f4ecef8ad9ca31a8372d0c353''), (''name_pattern'', JStr ''*.staging''),
     (''name_match'', JStr ''wildcard''), (''record_types'', JArr [JStr ''A'', JStr ''CNAME'']),
     (''record_ids'', JNull), (''allow_read'', JBool True), (''allow_create'', JBool True),
     (''allow_write'', JBool True), (''allow_delete'', JBool False), (''content_lock'', JNull)]"

definition mint_request_example :: json where
  "mint_request_example =
     JObj [(''name'', JStr ''staging-acme-dns''),
     (''upstream_credential_id'', JStr ''9d2c1b0a-3e4f-4a5b-8c6d-7e8f9a0b1c2d''), (''expires_at'', JNull),
     (''scope_rules'', JArr [JObj [(''zone_id'', JStr ''023e105f4ecef8ad9ca31a8372d0c353''),
     (''name_pattern'', JStr ''*.staging''), (''name_match'', JStr ''wildcard''),
     (''record_types'', JArr [JStr ''A'', JStr ''CNAME'']), (''record_ids'', JNull),
     (''allow_read'', JBool True), (''allow_create'', JBool True), (''allow_write'', JBool True),
     (''allow_delete'', JBool False), (''content_lock'', JNull)]])]"

definition scoped_token_create_response_example :: json where
  "scoped_token_create_response_example =
     JObj [(''id'', JStr ''1a2b3c4d-5e6f-4a5b-8c6d-7e8f9a0b1c2d''), (''name'', JStr ''staging-acme-dns''),
     (''token'', JStr ''cfsx_AbCdEf0123456789AbCd_1234567890abcdefghijklmnopqrstuvwxyzABCD''),
     (''token_prefix'', JStr ''cfsx_AbCdEf''), (''expires_at'', JNull),
     (''created_at'', JStr ''2026-07-15T09:32:00+00:00'')]"

definition scoped_token_response_example :: json where
  "scoped_token_response_example =
     JObj [(''id'', JStr ''1a2b3c4d-5e6f-4a5b-8c6d-7e8f9a0b1c2d''), (''name'', JStr ''staging-acme-dns''),
     (''token_prefix'', JStr ''cfsx_AbCdEf''), (''status'', JStr ''active''), (''version'', JNum 1),
     (''expires_at'', JNull), (''last_used_at'', JStr ''2026-07-15T10:00:00+00:00''),
     (''created_at'', JStr ''2026-07-15T09:32:00+00:00''), (''revoked_at'', JNull)]"

definition scope_rule_response_example :: json where
  "scope_rule_response_example =
     JObj [(''id'', JStr ''2b3c4d5e-6f70-4a5b-8c6d-7e8f9a0b1c2d''),
     (''zone_id'', JStr ''023e105f4ecef8ad9ca31a8372d0c353''), (''name_pattern'', JStr ''*.staging''),
     (''name_match'', JStr ''wildcard''), (''record_types'', JArr [JStr ''A'', JStr ''CNAME'']),
     (''record_ids'', JNull), (''allow_read'', JBool True), (''allow_create'', JBool True),
     (''allow_write'', JBool True), (''allow_delete'', JBool False), (''content_lock'', JNull),
     (''created_at'', JStr ''2026-07-15T09:32:00+00:00'')]"

definition scoped_token_detail_response_example :: json where
  "scoped_token_detail_response_example =
     JObj [(''id'', JStr ''1a2b3c4d-5e6f-4a5b-8c6d-7e8f9a0b1c2d''), (''name'', JStr ''staging-acme-dns''),
     (''token_prefix'', JStr ''cfsx_AbCdEf''), (''status'', JStr ''active''), (''version'', JNum 1),
     (''expires_at'', JNull), (''last_used_at'', JStr ''2026-07-15T10:00:00+00:00''),
     (''created_at'', JStr ''2026-07-15T09:32:00+00:00''), (''revoked_at'', JNull),
     (''rules'', JArr [JObj [(''id'', JStr ''2b3c4d5e-6f70-4a5b-8c6d-7e8f9a0b1c2d''),
     (''zone_id'', JStr ''023e105f4ecef8ad9ca31a8372d0c353''), (''name_pattern'', JStr ''*.staging''),
     (''name_match'', JStr ''wildcard''), (''record_types'', JArr [JStr ''A'', JStr ''CNAME'']),
     (''record_ids'', JNull), (''allow_read'', JBool True), (''allow_create'', JBool True),
     (''allow_write'', JBool True), (''allow_delete'', JBool False), (''content_lock'', JNull),
     (''created_at'', JStr ''2026-07-15T09:32:00+00:00'')]])]"

definition scoped_token_rotate_response_example :: json where
  "scoped_token_rotate_response_example =
     JObj [(''id'', JStr ''1a2b3c4d-5e6f-4a5b-8c6d-7e8f9a0b1c2d''),
     (''token'', JStr ''cfsx_ZzYyXxWwVvUuTtSsRrQq_abcdefghijklmnopqrstuvwxyzABCDEFGHIJKLMN''),
     (''token_prefix'', JStr ''cfsx_ZzYyXx''), (''version'', JNum 2)]"

definition audit_log_response_example :: json where
  "audit_log_response_example =
     JObj [(''id'', JStr ''3c4d5e6f-7081-4a5b-8c6d-7e8f9a0b1c2d''), (''ts'', JStr ''2026-07-15T10:05:00+00:00''),
     (''scoped_token_id'', JStr ''1a2b3c4d-5e6f-4a5b-8c6d-7e8f9a0b1c2d''),
     (''token_prefix'', JStr ''cfsx_AbCdEf''), (''method'', JStr ''PATCH''),
     (''path'', JStr ''/client/v4/zones/023e105f4ecef8ad9ca31a8372d0c353/dns_records/rec1''),
     (''zone_id'', JStr ''023e105f4ecef8ad9ca31a8372d0c353''), (''record_id'', JStr ''rec1''),
     (''record_name'', JStr ''app.staging.example.com''), (''record_type'', JStr ''A''),
     (''decision'', JStr ''allow''), (''deny_reason'', JNull), (''upstream_status'', JNum 200),
     (''client_ip'', JStr ''203.0.113.7''), (''latency_ms'', JNum 42)]"

section \<open>Requests\<close>

text \<open>What pydantic documents of values that already have the type of the field\<close>

definition pydantic_ok :: "validators \<Rightarrow> bool" where
  "pydantic_ok V \<longleftrightarrow> (\<forall>s. v_str V (JStr s) = Some s) \<and> (\<forall>b. v_bool V (JBool b) = Some b) \<and> (\<forall>n. v_int V (JNum n) = Some n)"

definition example_rule :: rule_request where
  "example_rule = \<lparr>rule_zone_id = ''023e105f4ecef8ad9ca31a8372d0c353'', rule_name_pattern = Some ''*.staging'',
     rule_name_match = ''wildcard'', rule_record_types = [''A'', ''CNAME''], rule_record_ids = None, rule_allow_read = True,
     rule_allow_create = True, rule_allow_write = True, rule_allow_delete = False, content_lock = None\<rparr>"

lemma example_rule_validates:
  "pydantic_ok V \<Longrightarrow> scope_rule_request V scope_rule_request_example = Some example_rule"
  by (simp add: pydantic_ok_def scope_rule_request_def scope_rule_request_example_def required_def defaulted_def nullable_def
      example_rule_def)

lemma mint_example_rules: "lookup mint_request_example ''scope_rules'' = Some (JArr [scope_rule_request_example])"
  by (simp add: mint_request_example_def scope_rule_request_example_def)

lemma requests_validate:
  assumes "pydantic_ok V"
  shows "register_request V register_request_example = Some (''operator@example.com'', ''correct-horse-battery-staple'')"
    "login_request V login_request_example = Some (''operator@example.com'', ''correct-horse-battery-staple'')"
    "credential_request V credential_request_example
       = Some (''prod-dns-token'', ''token'', Some ''AbCdEf1234567890ghijklmnopqrstuvwxyz'', None, None)"
    "mint_request V mint_request_example
       = Some (''staging-acme-dns'', ''9d2c1b0a-3e4f-4a5b-8c6d-7e8f9a0b1c2d'', None, [example_rule])"
proof -
  show "register_request V register_request_example = Some (''operator@example.com'', ''correct-horse-battery-staple'')"
    "login_request V login_request_example = Some (''operator@example.com'', ''correct-horse-battery-staple'')"
    "credential_request V credential_request_example
       = Some (''prod-dns-token'', ''token'', Some ''AbCdEf1234567890ghijklmnopqrstuvwxyz'', None, None)"
    using assms
    by (simp_all add: pydantic_ok_def register_request_def register_request_example_def login_request_def login_request_example_def
        credential_request_def credential_request_example_def required_def defaulted_def nullable_def)
  have "required (listed (scope_rule_request V)) mint_request_example ''scope_rules'' = Some [example_rule]"
    by (simp add: required_def mint_example_rules example_rule_validates [OF assms])
  moreover have "required (v_str V) mint_request_example ''name'' = Some ''staging-acme-dns''"
    "required (v_str V) mint_request_example ''upstream_credential_id'' = Some ''9d2c1b0a-3e4f-4a5b-8c6d-7e8f9a0b1c2d''"
    "defaulted None (nullable (v_datetime V)) mint_request_example ''expires_at'' = Some None"
    using assms by (simp_all add: pydantic_ok_def mint_request_example_def required_def defaulted_def nullable_def)
  ultimately show "mint_request V mint_request_example
       = Some (''staging-acme-dns'', ''9d2c1b0a-3e4f-4a5b-8c6d-7e8f9a0b1c2d'', None, [example_rule])"
    by (simp add: mint_request_def)
qed

section \<open>Responses\<close>

fun keys :: "json \<Rightarrow> string list" where
  "keys (JObj kvs) = map fst kvs"
| "keys _ = []"

text \<open>The bodies that the handlers produce have the documented fields in the documented order.\<close>

lemma responses_fit:
  "keys token_response_example = keys (token_response jwt)"
  "keys user_response_example = keys (user_response_data fmt u)"
  "keys upstream_credential_response_example = keys (credential_response_data fmt c)"
  "keys scoped_token_create_response_example = keys (minted_response_data fmt m)"
  "keys scoped_token_response_example = keys (token_response_data fmt k)"
  "keys scope_rule_response_example = keys (rule_response_data fmt r)"
  "keys scoped_token_detail_response_example = keys (detail_response_data fmt d)"
  "keys scoped_token_rotate_response_example = keys (rotated_response_data m)"
  "keys audit_log_response_example = keys (audit_response_data fmt a)"
  by (simp_all add: token_response_example_def token_response_def user_response_example_def user_response_data_def
      upstream_credential_response_example_def credential_response_data_def scoped_token_create_response_example_def
      minted_response_data_def scoped_token_response_example_def token_response_data_def token_fields_def
      scope_rule_response_example_def rule_response_data_def scoped_token_detail_response_example_def detail_response_data_def
      scoped_token_rotate_response_example_def rotated_response_data_def audit_log_response_example_def audit_response_data_def)

section \<open>Properties\<close>

lemma staging_pattern:
  assumes "normalize_fqdn uni zone_name = Inr zone" and "zone \<noteq> ''staging''"
  shows "validate_name_pattern uni ''*.staging'' ''wildcard'' zone_name
     = Inl (ValueError (''wildcard name_pattern '' @ py_repr ''*.staging'' @ '' does not end in zone '' @ py_repr zone_name))"
proof -
  have c: "py_count CHR ''*'' ''*.staging'' = 1" "py_split CHR ''.'' ''*.staging'' = [''*'', ''staging'']"
    "first_index (\<lambda>l. CHR ''*'' \<in> set l) [''*'', ''staging''] = Some 0" "py_join CHR ''.'' [''staging''] = ''staging''"
    by code_simp+
  have n: "normalize_fqdn uni ''staging'' = Inr ''staging''" by code_simp
  have "\<not> py_endswith ''staging'' (CHR ''.'' # zone)"
  proof
    assume "py_endswith ''staging'' (CHR ''.'' # zone)"
    then have "CHR ''.'' \<in> set ''staging''" unfolding py_endswith_iff by (metis in_set_conv_decomp)
    then show False by simp
  qed
  with assms c n show ?thesis by (simp add: validate_name_pattern_def Let_def)
qed

text \<open>
  C38: the documented requests validate, and yet the documented mint request is refused: each example
  of a request model is accepted by it with the values it shows; but for a caller that owns the
  credential of the example, and whatever zone Cloudflare names for its zone id, as long as that
  is not the single label \<^verbatim>\<open>staging\<close>, minting answers 400 and stores no token and no rule.
\<close>

theorem documented_mint_refused:
  assumes "pydantic_ok V"
    and "get_owned_credential (u_id u) ''9d2c1b0a-3e4f-4a5b-8c6d-7e8f9a0b1c2d'' w = (Inr cred, w)"
    and "resolve_upstream_auth E cred w = (Inr auth, w1)"
    and "resolve_zone_name E ''023e105f4ecef8ad9ca31a8372d0c353'' auth [] w1 = (Inr (JStr zone_name, memo), w2)"
    and "normalize_fqdn (e_idna E) zone_name = Inr zone" and "zone \<noteq> ''staging''"
  shows "\<exists>name up ex rules msg. mint_request V mint_request_example = Some (name, up, ex, rules)
     \<and> mint_scoped_token_endpoint fmt E name up rules ex u w = (Inr (make_response 400 msg JNull), w2)
     \<and> w_tokens w2 = w_tokens w \<and> w_rules w2 = w_rules w"
proof -
  let ?msg = "''wildcard name_pattern '' @ py_repr ''*.staging'' @ '' does not end in zone '' @ py_repr zone_name"
  have pattern: "has_pattern example_rule" by (simp add: has_pattern_def example_rule_def falsy_str_def)
  have sel: "the (rule_name_pattern example_rule) = ''*.staging''" "rule_name_match example_rule = ''wildcard''"
    "rule_zone_id example_rule = ''023e105f4ecef8ad9ca31a8372d0c353''" by (simp_all add: example_rule_def)
  have val: "validate_scope_rules E cred [example_rule] w = (Inl (ValueError ?msg), w2)"
    using assms(3,4) staging_pattern [OF assms(5,6)]
    by (simp add: validate_scope_rules_def pattern sel bind_app)
  have "mint_scoped_token_endpoint fmt E name ''9d2c1b0a-3e4f-4a5b-8c6d-7e8f9a0b1c2d'' [example_rule] ex u w
      = (Inr (make_response 400 ?msg JNull), w2)" for name ex
    using assms(2) val
    by (simp add: mint_scoped_token_endpoint_def answer_errors_def catch_app mint_scoped_token_def bind_app)
  moreover have "w_tokens w2 = w_tokens w" "w_rules w2 = w_rules w"
    using keepsD [OF keeps_frame_validate [OF upstream_frame_fields(3) [of "w_tokens w"]] _ val]
      keepsD [OF keeps_frame_validate [OF upstream_frame_fields(4) [of "w_rules w"]] _ val] by simp_all
  ultimately show ?thesis using requests_validate(4) [OF assms(1)] by blast
qed

section \<open>Witnesses\<close>

lemma demo_validators_ok: "pydantic_ok demo_validators"
  by (simp add: pydantic_ok_def demo_validators_def)

definition example_credential :: credential where
  "example_credential = demo_credential\<lparr>c_id := ''9d2c1b0a-3e4f-4a5b-8c6d-7e8f9a0b1c2d''\<rparr>"

definition example_world :: world where
  "example_world = demo_world\<lparr>w_credentials := [example_credential]\<rparr>"

lemma documented_mint_refused_witness:
  "\<exists>name up ex rules msg t. mint_request demo_validators mint_request_example = Some (name, up, ex, rules)
     \<and> mint_scoped_token_endpoint (\<lambda>_. []) zone_env name up rules ex demo_user example_world = (Inr (make_response 400 msg JNull), t)
     \<and> w_tokens t = [demo_token]"
proof -
  have o: "get_owned_credential (u_id demo_user) ''9d2c1b0a-3e4f-4a5b-8c6d-7e8f9a0b1c2d'' example_world = (Inr example_credential, example_world)"
    by (simp add: get_owned_credential_def example_world_def example_credential_def demo_credential_def demo_user_def bind_app)
  have a: "resolve_upstream_auth zone_env example_credential example_world = (Inr [(''Authorization'', ''Bearer cf-token'')], example_world)"
    by (simp add: resolve_upstream_auth_def get_valid_access_token_def example_credential_def demo_credential_def bind_app decrypt_opt_def
        decrypt_secret_def zone_env_def demo_env_def)
  let ?z = "''023e105f4ecef8ad9ca31a8372d0c353''"
  have "fst (resolve_zone_name zone_env ?z [(''Authorization'', ''Bearer cf-token'')] [] example_world) = Inr (JStr ''example.com'', [(?z, JStr ''example.com'')])"
    by code_simp
  then obtain t where z: "resolve_zone_name zone_env ?z [(''Authorization'', ''Bearer cf-token'')] [] example_world
      = (Inr (JStr ''example.com'', [(?z, JStr ''example.com'')]), t)" by (metis prod.collapse)
  have n: "normalize_fqdn (e_idna zone_env) ''example.com'' = Inr ''example.com''" by code_simp
  have k: "w_tokens example_world = [demo_token]" by (simp add: example_world_def demo_world_def)
  have s: "''example.com'' \<noteq> ''staging''" by simp
  from documented_mint_refused [OF demo_validators_ok o a z n s, where fmt = "\<lambda>_. []"] show ?thesis unfolding k by metis
qed

end
