(* ===== verification/Shapes.thy ===== *)
theory Shapes
  imports Examples
begin

text \<open>
  The shapes of Cloudflare's payloads (\<^verbatim>\<open>schemas/cloudflare.py\<close>) as what they validate: a record, an
  entry of \<^verbatim>\<open>errors\<close> or \<^verbatim>\<open>messages\<close>, the page data, and the envelope; and that every answer of the
  machine plane that is not Cloudflare's own has the shape of Cloudflare's. The program itself
  never validates with them. Fields beyond the declared ones are allowed and left out.
\<close>

section \<open>The models\<close>

record cloudflare_dns_record =
  cr_id :: string
  cr_zone_id :: string
  cr_zone_name :: "string option"
  cr_type :: string
  cr_name :: string
  cr_content :: string
  cr_ttl :: "int option"
  cr_proxied :: "bool option"
  cr_created_on :: "string option"
  cr_modified_on :: "string option"

definition cloudflare_dns_record :: "validators \<Rightarrow> json \<Rightarrow> cloudflare_dns_record option" where
  "cloudflare_dns_record V j =
     Option.bind (required (v_str V) j ''id'') (\<lambda>i.
     Option.bind (required (v_str V) j ''zone_id'') (\<lambda>zone_id.
     Option.bind (defaulted None (nullable (v_str V)) j ''zone_name'') (\<lambda>zone_name.
     Option.bind (required (v_str V) j ''type'') (\<lambda>ty.
     Option.bind (required (v_str V) j ''name'') (\<lambda>n.
     Option.bind (required (v_str V) j ''content'') (\<lambda>c.
     Option.bind (defaulted None (nullable (v_int V)) j ''ttl'') (\<lambda>ttl.
     Option.bind (defaulted None (nullable (v_bool V)) j ''proxied'') (\<lambda>proxied.
     Option.bind (defaulted None (nullable (v_str V)) j ''created_on'') (\<lambda>created_on.
     Option.bind (defaulted None (nullable (v_str V)) j ''modified_on'') (\<lambda>modified_on.
       Some \<lparr>cr_id = i, cr_zone_id = zone_id, cr_zone_name = zone_name, cr_type = ty, cr_name = n, cr_content = c,
         cr_ttl = ttl, cr_proxied = proxied, cr_created_on = created_on, cr_modified_on = modified_on\<rparr>))))))))))"

text \<open>The fields of \<^verbatim>\<open>CloudflareResultInfo\<close> are those of the record that the pagination builds.\<close>

definition cloudflare_result_info :: "validators \<Rightarrow> json \<Rightarrow> result_info option" where
  "cloudflare_result_info V j =
     Option.bind (required (v_int V) j ''page'') (\<lambda>page.
     Option.bind (required (v_int V) j ''per_page'') (\<lambda>per_page.
     Option.bind (required (v_int V) j ''count'') (\<lambda>count.
     Option.bind (required (v_int V) j ''total_count'') (\<lambda>total_count.
     Option.bind (required (v_int V) j ''total_pages'') (\<lambda>total_pages.
       Some \<lparr>ri_page = page, ri_per_page = per_page, ri_count = count, ri_total_count = total_count,
         ri_total_pages = total_pages\<rparr>)))))"

definition cloudflare_message :: "validators \<Rightarrow> json \<Rightarrow> (int \<times> string) option" where
  "cloudflare_message V j =
     Option.bind (required (v_int V) j ''code'') (\<lambda>code.
     Option.bind (required (v_str V) j ''message'') (\<lambda>message. Some (code, message)))"

definition cloudflare_error :: "validators \<Rightarrow> json \<Rightarrow> (int \<times> string) option" where
  "cloudflare_error V j =
     Option.bind (required (v_int V) j ''code'') (\<lambda>code.
     Option.bind (required (v_str V) j ''message'') (\<lambda>message. Some (code, message)))"

record cloudflare_envelope =
  ce_success :: bool
  ce_errors :: "(int \<times> string) list"
  ce_messages :: "(int \<times> string) list"
  ce_result :: json
  ce_result_info :: "result_info option"

definition cloudflare_envelope :: "validators \<Rightarrow> json \<Rightarrow> cloudflare_envelope option" where
  "cloudflare_envelope V j =
     Option.bind (required (v_bool V) j ''success'') (\<lambda>success.
     Option.bind (defaulted [] (listed (cloudflare_error V)) j ''errors'') (\<lambda>errors.
     Option.bind (defaulted [] (listed (cloudflare_message V)) j ''messages'') (\<lambda>messages.
     Option.bind (defaulted JNull Some j ''result'') (\<lambda>result.
     Option.bind (defaulted None (nullable (cloudflare_result_info V)) j ''result_info'') (\<lambda>result_info.
       Some \<lparr>ce_success = success, ce_errors = errors, ce_messages = messages, ce_result = result,
         ce_result_info = result_info\<rparr>)))))"

section \<open>What the program builds\<close>

lemma result_info_conforms:
  "pydantic_ok V \<Longrightarrow> cloudflare_result_info V (result_info_json i) = Some i"
  by (simp add: pydantic_ok_def cloudflare_result_info_def result_info_json_def required_def)

lemma error_conforms:
  assumes "pydantic_ok V"
  shows "cloudflare_envelope V (content (make_cf_error st code message))
     = Some \<lparr>ce_success = False, ce_errors = [(code, message)], ce_messages = [], ce_result = JNull, ce_result_info = None\<rparr>"
  using assms
  by (simp add: pydantic_ok_def cloudflare_envelope_def make_cf_error_def required_def defaulted_def cloudflare_error_def)

lemma those_messages:
  assumes "pydantic_ok V" and "list_all (\<lambda>m. \<exists>code t. m = JObj [(''code'', JNum code), (''message'', JStr t)]) ms"
  shows "\<exists>xs. those (map (cloudflare_message V) ms) = Some xs"
  using assms(2)
proof (induction ms)
  case (Cons m ms)
  then obtain code t xs where "m = JObj [(''code'', JNum code), (''message'', JStr t)]"
    "those (map (cloudflare_message V) ms) = Some xs" by auto
  moreover from this(1) have "cloudflare_message V m = Some (code, t)"
    using assms(1) by (simp add: cloudflare_message_def pydantic_ok_def required_def)
  ultimately show ?case by simp
qed simp

lemma success_conforms:
  assumes "pydantic_ok V" and "succeeds r"
  shows "\<exists>e. cloudflare_envelope V (content r) = Some e \<and> ce_success e"
proof -
  obtain result ms info where r: "r = make_cf_response result 200 ms (map_option result_info_json info)"
    and ms: "list_all (\<lambda>m. \<exists>code t. m = JObj [(''code'', JNum code), (''message'', JStr t)]) ms"
    using assms(2) unfolding succeeds_def by blast
  obtain xs where "those (map (cloudflare_message V) ms) = Some xs" using those_messages [OF assms(1) ms] by blast
  moreover have "result_info_json i \<noteq> JNull" for i by (simp add: result_info_json_def)
  ultimately show ?thesis
    using assms(1) result_info_conforms [OF assms(1)] unfolding r
    by (cases info) (simp_all add: cloudflare_envelope_def make_cf_response_def required_def defaulted_def nullable_def pydantic_ok_def)
qed

lemma documented_error_shape:
  assumes "machine_plane c" and "r \<in> set (documented_errors (doc_of c))"
  shows "\<exists>st code m. r = make_cf_error st code m"
proof -
  have none: "documented_errors list_zones_doc = []" "documented_errors list_dns_records_doc = []"
    "documented_errors verify_token_doc = [make_cf_error 401 INTERNAL ''Invalid API Token'']" by code_simp+
  show ?thesis
    using assms
    by (cases c) (auto simp: machine_errors none error_triple_def blocked_dns_records_def catch_all_def split: prod.splits if_splits)
qed

lemma exception_shape: "is_proxy_path p \<Longrightarrow> \<exists>st code m. error_response p e = make_cf_error st code m"
  by (auto simp: error_response_def handle_http_exception_def handle_generic_error_def http_exception_to_cf_response_def split: exn.splits)

section \<open>Properties\<close>

text \<open>
  C39: clients of Cloudflare's API can parse every answer: whatever call of the machine plane is served in
  whatever world, the answer is Cloudflare's own, or its body validates as \<^verbatim>\<open>CloudflareEnvelope\<close>, and
  then it is a success with status 200, or a failure with exactly one error and no result.
\<close>

theorem answers_have_cloudflare_shape:
  assumes "pydantic_ok V" and "machine_plane c" and "serve E L fmt fuel c w = (resp, t)"
  shows "relayed E resp \<or> (\<exists>e. cloudflare_envelope V (content resp) = Some e
     \<and> (if ce_success e then status_code resp = 200 else length (ce_errors e) = 1 \<and> ce_result e = JNull))"
proof -
  consider (raised) e where "resp = error_response (surface c) e" | (answered) v where "handler E L fmt fuel c w = (Inr resp, v)"
    using assms(3) by (auto simp: serve_def run_endpoint_def split: prod.splits sum.splits)
  then consider (error) st code m where "resp = make_cf_error st code m" | (success) "succeeds resp" | (relay) "relayed E resp"
  proof cases
    case raised
    then show thesis using exception_shape surface_plane assms(2) that(1) by blast
  next
    case answered
    from yieldsD [OF machine_documented [OF assms(2)] this] show thesis
      using documented_error_shape [OF assms(2)] that unfolding as_documented_def by blast
  qed
  then show ?thesis
  proof cases
    case error
    then show ?thesis using error_conforms [OF assms(1), of st code m] by auto
  next
    case success
    have "status_code resp = 200" using success by (auto simp: succeeds_def)
    then show ?thesis using success_conforms [OF assms(1) success] by auto
  qed simp
qed

lemma answers_have_cloudflare_shape_witness:
  "\<exists>e. cloudflare_envelope demo_validators (content (fst (serve demo_env demo_libs (\<lambda>_. []) 1 Proxy_other demo_world))) = Some e"
proof -
  have run: "serve demo_env demo_libs (\<lambda>_. []) 1 Proxy_other demo_world = (catch_all, demo_world)"
    by (simp add: serve_def run_endpoint_def)
  have "\<not> relayed demo_env catch_all"
    by (auto simp: relayed_def demo_env_def demo_http_def catch_all_def make_cf_error_def split: if_splits)
  with answers_have_cloudflare_shape [OF demo_validators_ok _ run] run show ?thesis by auto
qed

end
