(* ===== verification/RateLimit.thy ===== *)
theory RateLimit
  imports Cache
begin

text \<open>
  The counter of \<^verbatim>\<open>rate_limit_incr\<close> (\<^verbatim>\<open>cache/redis.py\<close>) over a sequence of hits: what it counts while
  Redis answers, what bounds it when Redis fails, and when it starts again. No endpoint calls it.
\<close>

section \<open>Hits\<close>

text \<open>Calls for one key, each after a delay\<close>

fun hits :: "env \<Rightarrow> string \<Rightarrow> int \<Rightarrow> int list \<Rightarrow> world \<Rightarrow> int res list \<times> world" where
  "hits E key window [] w = ([], w)"
| "hits E key window (d # ds) w =
     (let (r, t) = rate_limit_incr E key window (w\<lparr>w_now := w_now w + d\<rparr>); (rs, u) = hits E key window ds t in (r # rs, u))"

text \<open>The state of the counter: none, or a number with or without an expiry\<close>

definition counter :: "world \<Rightarrow> string \<Rightarrow> int \<Rightarrow> int option \<Rightarrow> bool" where
  "counter w key n expiry \<longleftrightarrow> w_redis w key = Some (Raw_json (JNum n), expiry)"

lemma rate_limit_incr_absent:
  assumes "live_entry w key = None" and "e_redis_up E (w_redis_calls w)"
  shows "e_redis_up E (Suc (w_redis_calls w)) \<Longrightarrow> \<exists>t. rate_limit_incr E key window w = (Inr 1, t)
      \<and> counter t key 1 (Some (w_now w + window)) \<and> w_now t = w_now w"
    and "\<not> e_redis_up E (Suc (w_redis_calls w)) \<Longrightarrow> \<exists>t. rate_limit_incr E key window w = (Inr 0, t)
      \<and> counter t key 1 None \<and> w_now t = w_now w"
  using assms
  by (simp_all add: rate_limit_incr_def redis_incr_def redis_expire_def redis_call_def catch_app bind_app Let_def counter_def live_entry_def)

lemma rate_limit_incr_live:
  assumes "counter w key n x" and "live_entry w key \<noteq> None" and "1 \<le> n" and "e_redis_up E (w_redis_calls w)"
  shows "\<exists>t. rate_limit_incr E key window w = (Inr (n + 1), t) \<and> counter t key (n + 1) x \<and> w_now t = w_now w"
proof -
  have "live_entry w key = Some (Raw_json (JNum n))"
    using assms(1,2) by (cases x) (auto simp: counter_def live_entry_def split: if_splits)
  with assms show ?thesis
    by (simp add: rate_limit_incr_def redis_incr_def redis_call_def catch_app bind_app Let_def counter_def)
qed

lemma rate_limit_incr_down:
  "\<not> e_redis_up E (w_redis_calls w) \<Longrightarrow> rate_limit_incr E key window w = (Inr 0, w\<lparr>w_redis_calls := Suc (w_redis_calls w)\<rparr>)"
  by (simp add: rate_limit_incr_def redis_incr_def redis_call_def catch_app bind_app Let_def)

text \<open>The key holds nothing live, or a count of at most \<open>m\<close> hits.\<close>

definition counted :: "world \<Rightarrow> string \<Rightarrow> int \<Rightarrow> bool" where
  "counted w key m \<longleftrightarrow> live_entry w key = None \<or> (\<exists>n x. counter w key n x \<and> 1 \<le> n \<and> n \<le> m)"

lemma counted_later: "counted w key m \<Longrightarrow> 0 \<le> d \<Longrightarrow> counted (w\<lparr>w_now := w_now w + d\<rparr>) key m"
proof -
  assume c: "counted w key m" and d: "0 \<le> d"
  have "live_entry (w\<lparr>w_now := w_now w + d\<rparr>) key = None" if "live_entry w key = None"
    using that d by (cases "(w_now w, w_redis w key)" rule: unexpired.cases) (auto simp: live_entry_def split: if_splits)
  with c show ?thesis by (auto simp: counted_def counter_def)
qed

lemma hit_bounded:
  assumes "counted w key m" and "0 \<le> m"
  shows "\<exists>c t. rate_limit_incr E key window w = (Inr c, t) \<and> 0 \<le> c \<and> c \<le> m + 1 \<and> counted t key (m + 1)"
proof (cases "e_redis_up E (w_redis_calls w)")
  case False
  then show ?thesis using assms
    by (auto simp: rate_limit_incr_down counted_def live_entry_def counter_def)
next
  case True
  show ?thesis
  proof (cases "live_entry w key = None")
    case none: True
    show ?thesis
      using rate_limit_incr_absent [OF none True, of window] assms(2)
      by (cases "e_redis_up E (Suc (w_redis_calls w))") (fastforce simp: counted_def)+
  next
    case False
    then obtain n x where n: "counter w key n x" "1 \<le> n" "n \<le> m" using assms(1) by (auto simp: counted_def)
    from rate_limit_incr_live [OF n(1) False n(2) True, of window] n show ?thesis by (fastforce simp: counted_def)
  qed
qed

lemma hits_bounded:
  assumes "counted w key m" and "0 \<le> m" and "\<forall>d \<in> set ds. 0 \<le> d"
  shows "list_all (\<lambda>r. \<exists>c. r = Inr c \<and> 0 \<le> c \<and> c \<le> m + int (length ds)) (fst (hits E key window ds w))"
  using assms
proof (induction ds arbitrary: w m)
  case (Cons d ds)
  then have "counted (w\<lparr>w_now := w_now w + d\<rparr>) key m" by (intro counted_later) simp_all
  from hit_bounded [OF this Cons.prems(2), of E window] obtain c t where
    c: "rate_limit_incr E key window (w\<lparr>w_now := w_now w + d\<rparr>) = (Inr c, t)" "0 \<le> c" "c \<le> m + 1" "counted t key (m + 1)" by blast
  have "list_all (\<lambda>r. \<exists>c. r = Inr c \<and> 0 \<le> c \<and> c \<le> m + int (length (d # ds))) (fst (hits E key window ds t))"
    using Cons.IH [OF c(4)] Cons.prems by (simp add: add.assoc)
  with c show ?case by (auto simp: Let_def split: prod.splits)
qed simp

text \<open>With a Redis that answers, hits within the window of a counter count on.\<close>

lemma hits_count:
  assumes "\<forall>n. e_redis_up E n" and "counter w key n (Some x)" and "1 \<le> n" and "\<forall>d \<in> set ds. 0 \<le> d" and "w_now w + sum_list ds < x"
  shows "fst (hits E key window ds w) = map Inr [n + 1..n + int (length ds)]"
  using assms(2-)
proof (induction ds arbitrary: w n)
  case (Cons d ds)
  let ?w = "w\<lparr>w_now := w_now w + d\<rparr>"
  have "0 \<le> sum_list ds" using Cons.prems(3) by (simp add: sum_list_nonneg)
  then have live: "live_entry ?w key \<noteq> None" using Cons.prems by (auto simp: live_entry_def counter_def)
  have c: "counter ?w key n (Some x)" using Cons.prems(1) by (simp add: counter_def)
  obtain t where t: "rate_limit_incr E key window ?w = (Inr (n + 1), t)" "counter t key (n + 1) (Some x)" "w_now t = w_now w + d"
    using rate_limit_incr_live [OF c live Cons.prems(2)] assms(1) by fastforce
  have "fst (hits E key window ds t) = map Inr [n + 1 + 1..n + 1 + int (length ds)]"
    using Cons.IH [OF t(2)] Cons.prems t(3) by simp
  moreover have "[n + 1..n + int (length (d # ds))] = (n + 1) # [n + 1 + 1..n + 1 + int (length ds)]"
    by (subst upto_rec1) (simp_all add: algebra_simps)
  ultimately show ?case using t(1) by (auto simp: Let_def split: prod.splits)
qed simp

section \<open>Properties\<close>

text \<open>
  C35: the counts are bounded: for a key that holds nothing, no count that a sequence of calls returns
  is negative or exceeds the number of calls, whatever calls of Redis fail (a failed one gives 0); and with a Redis that answers, the calls within one window count 1, 2, 3 and so on,
  and the first call after the window counts 1 again.
\<close>

theorem rate_limit_bounded:
  assumes "live_entry w key = None" and "0 < window" and "\<forall>d \<in> set ds. 0 \<le> d"
  shows "list_all (\<lambda>r. \<exists>c. r = Inr c \<and> 0 \<le> c \<and> c \<le> int (length ds)) (fst (hits E key window ds w))
    \<and> ((\<forall>n. e_redis_up E n) \<and> ds \<noteq> [] \<and> sum_list (tl ds) < window \<longrightarrow>
         fst (hits E key window ds w) = map Inr [1..int (length ds)])
    \<and> ((\<forall>n. e_redis_up E n) \<longrightarrow> (\<forall>d d'. 0 \<le> d \<and> window \<le> d' \<longrightarrow>
         fst (hits E key window [d, d'] w) = [Inr 1, Inr 1]))"
proof (intro conjI impI allI; (elim conjE)?)
  show "list_all (\<lambda>r. \<exists>c. r = Inr c \<and> 0 \<le> c \<and> c \<le> int (length ds)) (fst (hits E key window ds w))"
    using hits_bounded [of w key 0 ds E window] assms by (simp add: counted_def)
next
  assume up: "\<forall>n. e_redis_up E n" and "ds \<noteq> []" and sum: "sum_list (tl ds) < window"
  then obtain d es where ds: "ds = d # es" by (cases ds) auto
  let ?w = "w\<lparr>w_now := w_now w + d\<rparr>"
  have "live_entry ?w key = None" using assms(1) assms(3) ds
    by (cases "(w_now w, w_redis w key)" rule: unexpired.cases) (auto simp: live_entry_def split: if_splits)
  from rate_limit_incr_absent(1) [OF this, of E window] up obtain t where
    t: "rate_limit_incr E key window ?w = (Inr 1, t)" "counter t key 1 (Some (w_now w + d + window))" "w_now t = w_now w + d" by auto
  have "fst (hits E key window es t) = map Inr [1 + 1..1 + int (length es)]"
    by (rule hits_count [OF up t(2)]) (use assms(3) sum ds t(3) in auto)
  moreover have "[1..int (length ds)] = 1 # [1 + 1..1 + int (length es)]" unfolding ds by (subst upto_rec1) (simp_all add: algebra_simps)
  ultimately show "fst (hits E key window ds w) = map Inr [1..int (length ds)]"
    using t(1) unfolding ds by (auto simp: Let_def split: prod.splits)
next
  fix d d' :: int assume up: "\<forall>n. e_redis_up E n" and d: "0 \<le> d" "window \<le> d'"
  let ?w = "w\<lparr>w_now := w_now w + d\<rparr>"
  have "live_entry ?w key = None" using assms(1) d(1)
    by (cases "(w_now w, w_redis w key)" rule: unexpired.cases) (auto simp: live_entry_def split: if_splits)
  from rate_limit_incr_absent(1) [OF this, of E window] up obtain t where
    t: "rate_limit_incr E key window ?w = (Inr 1, t)" "counter t key 1 (Some (w_now w + d + window))" "w_now t = w_now w + d" by auto
  have "live_entry (t\<lparr>w_now := w_now t + d'\<rparr>) key = None" using t(2,3) d by (simp add: live_entry_def counter_def)
  from rate_limit_incr_absent(1) [OF this, of E window] up obtain u where "rate_limit_incr E key window (t\<lparr>w_now := w_now t + d'\<rparr>) = (Inr 1, u)"
    by auto
  with t(1) show "fst (hits E key window [d, d'] w) = [Inr 1, Inr 1]" by simp
qed

text \<open>
  A window that never ends: when Redis takes the increment that creates the counter and fails at
  the expiry that follows, the call gives 0 and the counter stays without an expiry, so that
  however long nothing happens, the next hit counts on.
\<close>

theorem lost_expiry_keeps_counting:
  assumes "live_entry w key = None" and "e_redis_up E (w_redis_calls w)" and "\<not> e_redis_up E (Suc (w_redis_calls w))"
    and "\<forall>n > Suc (w_redis_calls w). e_redis_up E n" and "0 \<le> d"
  shows "fst (hits E key window [0, d] w) = [Inr 0, Inr 2]"
proof -
  have z: "w\<lparr>w_now := w_now w + 0\<rparr> = w" by simp
  have run: "rate_limit_incr E key window w = (Inr 0, w\<lparr>w_redis_calls := Suc (Suc (w_redis_calls w)),
      w_redis := (w_redis w)(key \<mapsto> (Raw_json (JNum 1), None))\<rparr>)"
    using assms(1-3)
    by (simp add: rate_limit_incr_def redis_incr_def redis_expire_def redis_call_def catch_app bind_app Let_def live_entry_def)
  let ?t = "w\<lparr>w_redis_calls := Suc (Suc (w_redis_calls w)), w_redis := (w_redis w)(key \<mapsto> (Raw_json (JNum 1), None)), w_now := w_now w + d\<rparr>"
  have "counter ?t key 1 None" "live_entry ?t key \<noteq> None" by (simp_all add: counter_def live_entry_def)
  from rate_limit_incr_live [OF this, of E window] assms(4) show ?thesis by (auto simp: run z)
qed

section \<open>Witnesses\<close>

lemma rate_limit_bounded_witness:
  "fst (hits demo_env ''rl:1'' 60 [0, 10, 20] demo_world) = [Inr 1, Inr 2, Inr 3]"
proof -
  have l: "live_entry demo_world ''rl:1'' = None" by (simp add: live_entry_def demo_world_def)
  have u: "[1..3] = [1, 2, 3 :: int]" by code_simp
  show ?thesis using rate_limit_bounded [OF l, of 60 "[0, 10, 20]" demo_env] by (simp add: demo_env_def u)
qed

end
