(* ===== verification/Refresh.thy ===== *)
theory Refresh
  imports Upstream
begin

text \<open>
  Concurrent \<^verbatim>\<open>get_valid_access_token\<close> (\<^verbatim>\<open>upstream/client.py\<close>): any number of requests resolve the same
  OAuth credential, interleaved at their awaits with each other and with every other writer of
  the row. MySQL's \<^verbatim>\<open>SELECT ... FOR UPDATE\<close> is taken to be exclusive until the transaction ends;
  SQLite has no row lock. What the locked select hands back when the session already holds the
  row is SQLAlchemy's, and is the parameter \<open>reread\<close>: the object of the session's identity map
  (its documented default), or the row as it is (\<^verbatim>\<open>populate_existing\<close>).
\<close>

section \<open>The stages of one resolution\<close>

text \<open>The refresh grant, and the conditional update with its commit, as the sequential model has them\<close>

definition redeem :: "env \<Rightarrow> credential \<Rightarrow> (world, json) prog" where
  "redeem E locked = bind (lift (decrypt_opt E (c_refresh_token_enc locked))) (refresh_access_token E)"

definition persist :: "env \<Rightarrow> credential \<Rightarrow> json \<Rightarrow> datetime \<Rightarrow> (world, string \<times> json) prog" where
  "persist E locked token_data now =
     bind (lift (rotated_tokens E locked token_data now)) (\<lambda>(access, refresh, expires_in, new_expires).
     bind (encrypt_secret E access) (\<lambda>access_enc.
     bind (encrypt_secret E refresh) (\<lambda>refresh_enc.
     bind (commit_db E (store_rotated (c_id locked) (c_cred_version locked) access_enc refresh_enc new_expires)) (\<lambda>_.
       return (access, expires_in)))))"

lemma refresh_and_store_stages:
  "refresh_and_store E locked =
     bind (gets utcnow) (\<lambda>now. bind (redeem E locked) (\<lambda>data. bind (persist E locked data now) (\<lambda>(access, x).
       bind (cache_access_token E (c_id locked) access x) (\<lambda>_. return access))))"
  by (rule ext) (auto simp: refresh_and_store_def redeem_def persist_def bind_app split: sum.splits prod.splits)

definition row_of :: "string \<Rightarrow> world \<Rightarrow> credential option" where
  "row_of cid w = find (\<lambda>c. c_id c = cid) (w_credentials w)"

text \<open>
  Where a request is: before it loaded the credential, with the object loaded, past the cache
  miss, past the locked select, with the issuer's answer, past the commit, leaving, answered.
\<close>

datatype stage =
    Unresolved
  | Resolved credential
  | Missed credential
  | Locked_row credential
  | Redeemed credential json datetime
  | Kept string json
  | Quitting "string option"
  | Served "string option"

text \<open>
  The world, the holder of the row lock, where each request is, the refresh tokens that were
  redeemed (by whom, in which world), and the commits: by whom, with which object of the row,
  for which access token, in which world and with which outcome.
\<close>

record rotation =
  o_world :: world
  o_lock :: "nat option"
  o_stage :: "nat \<Rightarrow> stage"
  o_redeemed :: "(nat \<times> string \<times> world) list"
  o_kept :: "(nat \<times> credential \<times> string \<times> world \<times> world) list"

fun inside_lock :: "stage \<Rightarrow> bool" where
  "inside_lock (Locked_row _) = True"
| "inside_lock (Redeemed _ _ _) = True"
| "inside_lock (Quitting _) = True"
| "inside_lock _ = False"

definition token_of :: "string res \<Rightarrow> string option" where
  "token_of r = (case r of Inl _ \<Rightarrow> None | Inr s \<Rightarrow> Some s)"

text \<open>
  \<^verbatim>\<open>with_row_lock\<close> of \<^verbatim>\<open>db/locks.py\<close>: who holds the row once the select of \<open>n\<close> returns, if it does; the
  select is unchanged where the database is not MySQL.
\<close>

definition with_row_lock :: "env \<Rightarrow> nat \<Rightarrow> nat option \<Rightarrow> nat option option" where
  "with_row_lock E n holder = (if e_mysql E then (if holder = None then Some (Some n) else None) else Some None)"

text \<open>Other writers may do anything to a row that is not locked but turn its version back.\<close>

definition version_kept :: "string \<Rightarrow> world \<Rightarrow> world \<Rightarrow> bool" where
  "version_kept cid w w' \<longleftrightarrow> (\<forall>r'. row_of cid w' = Some r' \<longrightarrow>
     (\<exists>r. row_of cid w = Some r \<and> c_cred_version r \<le> c_cred_version r'))"

inductive turn ::
  "env \<Rightarrow> (credential \<Rightarrow> credential \<Rightarrow> credential) \<Rightarrow> string \<Rightarrow> rotation \<Rightarrow> rotation \<Rightarrow> bool" for E reread cid where
  resolved: "o_stage s n = Unresolved \<Longrightarrow> row_of cid (o_world s) = Some c \<Longrightarrow>
    turn E reread cid s (s\<lparr>o_stage := (o_stage s)(n := Resolved c)\<rparr>)"
| cache_hit: "o_stage s n = Resolved c \<Longrightarrow> cache_get_json E (oauth_at_key cid) (o_world s) = (Inr v, w) \<Longrightarrow> truthy v \<Longrightarrow>
    turn E reread cid s (s\<lparr>o_world := w,
      o_stage := (o_stage s)(n := Served (token_of (bind_res (as_str v) (decrypt_secret E))))\<rparr>)"
| cache_missed: "o_stage s n = Resolved c \<Longrightarrow> cache_get_json E (oauth_at_key cid) (o_world s) = (Inr v, w) \<Longrightarrow> \<not> truthy v \<Longrightarrow>
    turn E reread cid s (s\<lparr>o_world := w, o_stage := (o_stage s)(n := Missed c)\<rparr>)"
| row_locked: "o_stage s n = Missed c \<Longrightarrow> row_of cid (o_world s) = Some r \<Longrightarrow> with_row_lock E n (o_lock s) = Some h \<Longrightarrow>
    turn E reread cid s (s\<lparr>o_lock := h,
      o_stage := (o_stage s)(n := Locked_row (reread c r))\<rparr>)"
| row_gone: "o_stage s n = Missed c \<Longrightarrow> row_of cid (o_world s) = None \<Longrightarrow>
    turn E reread cid s (s\<lparr>o_stage := (o_stage s)(n := Served None)\<rparr>)"
| still_good: "o_stage s n = Locked_row l \<Longrightarrow> still_valid E (o_world s) l = Inr True \<Longrightarrow>
    turn E reread cid s (s\<lparr>o_stage := (o_stage s)(n := Quitting (token_of (decrypt_opt E (c_access_token_enc l))))\<rparr>)"
| redeemed: "o_stage s n = Locked_row l \<Longrightarrow> still_valid E (o_world s) l = Inr False \<Longrightarrow>
    decrypt_opt E (c_refresh_token_enc l) = Inr tok \<Longrightarrow> redeem E l (o_world s) = (r, w) \<Longrightarrow>
    turn E reread cid s (s\<lparr>o_world := w, o_redeemed := o_redeemed s @ [(n, tok, o_world s)],
      o_stage := (o_stage s)(n := (case r of Inl _ \<Rightarrow> Quitting None | Inr data \<Rightarrow> Redeemed l data (utcnow (o_world s))))\<rparr>)"
| kept: "o_stage s n = Redeemed l data now \<Longrightarrow> persist E l data now (o_world s) = (Inr (access, x), w) \<Longrightarrow>
    turn E reread cid s (s\<lparr>o_world := w, o_lock := None, o_kept := o_kept s @ [(n, l, access, o_world s, w)],
      o_stage := (o_stage s)(n := Kept access x)\<rparr>)"
| not_kept: "o_stage s n = Redeemed l data now \<Longrightarrow> persist E l data now (o_world s) = (Inl e, w) \<Longrightarrow>
    turn E reread cid s (s\<lparr>o_world := w, o_stage := (o_stage s)(n := Quitting None)\<rparr>)"
| recached: "o_stage s n = Kept access x \<Longrightarrow> cache_access_token E cid access x (o_world s) = (r, w) \<Longrightarrow>
    turn E reread cid s (s\<lparr>o_world := w, o_stage := (o_stage s)(n := Served (token_of (map_sum id (\<lambda>_. access) r)))\<rparr>)"
| given_up: "inside_lock (o_stage s n) \<Longrightarrow> turn E reread cid s (s\<lparr>o_stage := (o_stage s)(n := Quitting None)\<rparr>)"
| row_released: "o_stage s n = Quitting v \<Longrightarrow>
    turn E reread cid s (s\<lparr>o_lock := None, o_stage := (o_stage s)(n := Served v)\<rparr>)"
| outside: "version_kept cid (o_world s) w \<Longrightarrow> o_lock s \<noteq> None \<longrightarrow> row_of cid w = row_of cid (o_world s) \<Longrightarrow>
    turn E reread cid s (s\<lparr>o_world := w\<rparr>)"

inductive turns ::
  "env \<Rightarrow> (credential \<Rightarrow> credential \<Rightarrow> credential) \<Rightarrow> string \<Rightarrow> rotation \<Rightarrow> rotation \<Rightarrow> bool" for E reread cid s where
  unmoved: "turns E reread cid s s"
| moved: "turns E reread cid s t \<Longrightarrow> turn E reread cid t u \<Longrightarrow> turns E reread cid s u"

definition unrotated :: "rotation \<Rightarrow> bool" where
  "unrotated s \<longleftrightarrow> o_lock s = None \<and> o_stage s = (\<lambda>_. Unresolved) \<and> o_redeemed s = [] \<and> o_kept s = []"

section \<open>What the steps do to the row\<close>

lemma find_map_id:
  "(\<And>c. c_id (f c) = c_id c) \<Longrightarrow> find (\<lambda>c. c_id c = cid) (map f cs) = map_option f (find (\<lambda>c. c_id c = cid) cs)"
  by (induction cs) auto

lemma row_of_id: "row_of cid w = Some r \<Longrightarrow> c_id r = cid"
  using find_SomeD [of "\<lambda>c. c_id c = cid"] by (auto simp: row_of_def)

lemma row_of_cong: "w_credentials w' = w_credentials w \<Longrightarrow> row_of cid w' = row_of cid w"
  by (simp add: row_of_def)

lemma row_of_cached: "cache_get_json E k w = (r, w') \<Longrightarrow> row_of cid w' = row_of cid w"
  by (rule row_of_cong) (auto simp: cache_get_json_run)

lemma row_of_redeem: "redeem E l w = (r, w') \<Longrightarrow> row_of cid w' = row_of cid w"
  by (rule row_of_cong) (auto simp: redeem_def bind_app dest: refresh_access_token_frame split: sum.splits)

lemma row_of_recached: "cache_access_token E i a x w = (r, w') \<Longrightarrow> row_of cid w' = row_of cid w"
  by (rule row_of_cong) (rule cache_access_token_frame)

text \<open>The conditional update takes effect on the version that was read, and on no other.\<close>

lemma row_of_stored:
  "row_of cid (store_rotated cid v a rt x w) = map_option (\<lambda>c. if c_cred_version c = v
     then c\<lparr>c_access_token_enc := Some a, c_refresh_token_enc := Some rt, c_token_expires_at := x, c_cred_version := v + 1\<rparr>
     else c) (row_of cid w)"
proof -
  let ?f = "\<lambda>c. if c_id c = cid \<and> c_cred_version c = v
     then c\<lparr>c_access_token_enc := Some a, c_refresh_token_enc := Some rt, c_token_expires_at := x, c_cred_version := v + 1\<rparr> else c"
  have "row_of cid (store_rotated cid v a rt x w) = map_option ?f (row_of cid w)"
    unfolding row_of_def store_rotated_def by (simp add: find_map_id)
  then show ?thesis using row_of_id [of cid w] by (cases "row_of cid w") auto
qed

lemma row_of_not_kept:
  assumes "persist E l data now w = (Inl e, w')" shows "row_of cid w' = row_of cid w"
proof (rule row_of_cong)
  show "w_credentials w' = w_credentials w"
    using assms by (auto simp: persist_def bind_app encrypt_secret_def commit_db_def Let_def split: sum.splits prod.splits if_splits)
qed

lemma row_of_kept:
  assumes "persist E l data now w = (Inr (access, x), w')" and "c_id l = cid"
  obtains n m refresh expires where "row_of cid w' = row_of cid (store_rotated cid (c_cred_version l)
      (e_fernet_encrypt E n access) (e_fernet_encrypt E m refresh) expires w)"
proof -
  from assms obtain refresh expires w1 where
    "commit_db E (store_rotated cid (c_cred_version l) (e_fernet_encrypt E (w_rand w) access)
       (e_fernet_encrypt E (Suc (w_rand w)) refresh) expires) w1 = (Inr (), w')" "w_credentials w1 = w_credentials w"
    by (fastforce simp: persist_def encrypt_secret_def elim!: bind_InrE)
  then have "w_credentials w' = w_credentials (store_rotated cid (c_cred_version l)
      (e_fernet_encrypt E (w_rand w) access) (e_fernet_encrypt E (Suc (w_rand w)) refresh) expires w)"
    by (auto simp: store_rotated_def elim!: commit_db_cases)
  then show thesis by (intro that row_of_cong)
qed

text \<open>Whether a commit changed the row, and that it did so with the token it returns\<close>

definition effective :: "string \<Rightarrow> nat \<times> credential \<times> string \<times> world \<times> world \<Rightarrow> bool" where
  "effective cid = (\<lambda>(n, l, access, w, w'). \<exists>r. row_of cid w = Some r \<and> c_cred_version r = c_cred_version l)"

definition fenced_commit :: "env \<Rightarrow> string \<Rightarrow> nat \<times> credential \<times> string \<times> world \<times> world \<Rightarrow> bool" where
  "fenced_commit E cid = (\<lambda>(n, l, access, w, w').
     if effective cid (n, l, access, w, w')
     then \<exists>r'. row_of cid w' = Some r' \<and> c_cred_version r' = c_cred_version l + 1
            \<and> decrypt_opt E (c_access_token_enc r') = Inr access
     else row_of cid w' = row_of cid w)"

definition entry_version :: "nat \<times> credential \<times> string \<times> world \<times> world \<Rightarrow> int" where
  "entry_version = (\<lambda>(n, l, access, w, w'). c_cred_version l)"

lemma persist_fenced:
  assumes "persist E l data now w = (Inr (access, x), w')" and "c_id l = cid" and "fernet_ok E"
  shows "fenced_commit E cid (n, l, access, w, w')"
proof -
  from row_of_kept [OF assms(1,2)] obtain i j refresh expires where
    row: "row_of cid w' = row_of cid (store_rotated cid (c_cred_version l)
      (e_fernet_encrypt E i access) (e_fernet_encrypt E j refresh) expires w)" .
  show ?thesis
    using assms(3) row unfolding fenced_commit_def effective_def
    by (cases "row_of cid w") (auto simp: row_of_stored decrypt_opt_def decrypt_secret_def fernet_ok_def)
qed

section \<open>The invariant of the fence\<close>

fun stage_row :: "stage \<Rightarrow> credential option" where
  "stage_row (Resolved c) = Some c"
| "stage_row (Missed c) = Some c"
| "stage_row (Locked_row c) = Some c"
| "stage_row (Redeemed c _ _) = Some c"
| "stage_row _ = None"

definition fence_inv :: "env \<Rightarrow> string \<Rightarrow> rotation \<Rightarrow> bool" where
  "fence_inv E cid s \<longleftrightarrow>
     (\<forall>n c. stage_row (o_stage s n) = Some c \<longrightarrow> c_id c = cid)
     \<and> list_all (fenced_commit E cid) (o_kept s)
     \<and> sorted_wrt (<) (map entry_version (filter (effective cid) (o_kept s)))
     \<and> (\<forall>e \<in> set (o_kept s). \<forall>r. effective cid e \<and> row_of cid (o_world s) = Some r \<longrightarrow> entry_version e < c_cred_version r)"

lemma fence_inv_keep:
  assumes "fence_inv E cid s" and "version_kept cid (o_world s) (o_world t)" and "o_kept t = o_kept s"
    and "\<And>n c. stage_row (o_stage t n) = Some c \<Longrightarrow> c_id c = cid"
  shows "fence_inv E cid t"
  unfolding fence_inv_def
proof (intro conjI allI ballI impI; (elim conjE)?)
  fix e r assume e: "e \<in> set (o_kept t)" "effective cid e" and "row_of cid (o_world t) = Some r"
  then obtain r0 where "row_of cid (o_world s) = Some r0" "c_cred_version r0 \<le> c_cred_version r"
    using assms(2) unfolding version_kept_def by blast
  moreover have "entry_version e < c_cred_version r0"
    using assms(1) e calculation(1) unfolding assms(3) fence_inv_def by blast
  ultimately show "entry_version e < c_cred_version r" by linarith
qed (use assms in \<open>auto simp: fence_inv_def\<close>)

lemma version_kept_same: "row_of cid w' = row_of cid w \<Longrightarrow> version_kept cid w w'"
  by (simp add: version_kept_def)

lemma fence_inv_step:
  assumes step: "turn E reread cid s t" and inv: "fence_inv E cid s" and fern: "fernet_ok E"
    and rr: "\<And>c r. reread c r \<in> {c, r}"
  shows "fence_inv E cid t"
proof -
  have ids: "stage_row (o_stage s n) = Some c \<Longrightarrow> c_id c = cid" for n c
    using inv unfolding fence_inv_def by blast
  from step show ?thesis
  proof (cases rule: turn.cases)
    case (kept n l data now access x w)
    have l: "c_id l = cid" using ids [of n l] kept(2) by simp
    let ?e = "(n, l, access, o_world s, w)"
    have f: "fenced_commit E cid ?e" by (rule persist_fenced [OF kept(3) l fern])
    have before: "entry_version e < entry_version ?e" if "e \<in> set (o_kept s)" "effective cid e" "effective cid ?e" for e
      using inv that unfolding fence_inv_def effective_def entry_version_def by auto
    have after: "entry_version e < c_cred_version r"
      if "e \<in> set (o_kept s) \<or> e = ?e" "effective cid e" "row_of cid w = Some r" for e r
    proof (cases "effective cid ?e")
      case True
      then have "c_cred_version r = entry_version ?e + 1" using f that(3) by (auto simp: fenced_commit_def entry_version_def)
      then show ?thesis using before [OF _ that(2) True] that(1) by force
    next
      case False
      then have "row_of cid (o_world s) = Some r" using f that(3) by (auto simp: fenced_commit_def)
      then show ?thesis using inv that False unfolding fence_inv_def by blast
    qed
    have row: "o_world t = w" "o_kept t = o_kept s @ [?e]" using kept(1) by simp_all
    have "sorted_wrt (<) (map entry_version (filter (effective cid) (o_kept s @ [?e])))"
      using inv before unfolding fence_inv_def by (auto simp: sorted_wrt_append)
    moreover have "list_all (fenced_commit E cid) (o_kept s @ [?e])" using inv f unfolding fence_inv_def by simp
    moreover have "c_id c = cid" if "stage_row (o_stage t k) = Some c" for k c
      using that ids [of k c] kept(1) by (auto split: if_splits)
    moreover have "entry_version e < c_cred_version r"
      if "e \<in> set (o_kept s @ [?e])" "effective cid e \<and> row_of cid w = Some r" for e r
      using that by (intro after) auto
    ultimately show ?thesis unfolding fence_inv_def row by blast
  next
    case (row_locked n c r h)
    have "c_id c = cid" using ids [of n c] row_locked(2) by simp
    then have "c_id (reread c r) = cid" using rr [of c r] row_of_id [OF row_locked(3)] by force
    then have "stage_row (o_stage t k) = Some c' \<Longrightarrow> c_id c' = cid" for k c'
      using ids [of k c'] row_locked(1) by (auto split: if_splits)
    then show ?thesis by (intro fence_inv_keep [OF inv]) (use row_locked in \<open>auto simp: version_kept_same\<close>)
  next
    case (row_gone n c)
    then show ?thesis by (intro fence_inv_keep [OF inv]) (use ids in \<open>auto intro!: version_kept_same split: if_splits\<close>)
  next
    case (resolved n c)
    have "stage_row (o_stage t k) = Some c' \<Longrightarrow> c_id c' = cid" for k c'
      using ids [of k c'] row_of_id resolved by (auto split: if_splits)
    then show ?thesis by (intro fence_inv_keep [OF inv]) (use resolved in \<open>auto simp: version_kept_same\<close>)
  next
    case (cache_missed n c v w)
    have "stage_row (o_stage t k) = Some c' \<Longrightarrow> c_id c' = cid" for k c'
      using ids [of k c'] ids [of n c] cache_missed by (auto split: if_splits)
    then show ?thesis
      by (intro fence_inv_keep [OF inv]) (use cache_missed row_of_cached in \<open>auto intro!: version_kept_same\<close>)
  next
    case (redeemed n l tok r w)
    have "stage_row (o_stage t k) = Some c' \<Longrightarrow> c_id c' = cid" for k c'
      using ids [of k c'] ids [of n l] redeemed by (auto split: if_splits sum.splits)
    then show ?thesis
      by (intro fence_inv_keep [OF inv]) (use redeemed row_of_redeem in \<open>auto intro!: version_kept_same\<close>)
  next
    case (cache_hit n c v w)
    then show ?thesis
      by (intro fence_inv_keep [OF inv]) (use ids row_of_cached in \<open>auto intro!: version_kept_same split: if_splits\<close>)
  next
    case (still_good n l)
    then show ?thesis by (intro fence_inv_keep [OF inv]) (use ids in \<open>auto intro!: version_kept_same split: if_splits\<close>)
  next
    case (not_kept n l data now e w)
    then show ?thesis
      by (intro fence_inv_keep [OF inv]) (use ids row_of_not_kept in \<open>auto intro!: version_kept_same split: if_splits\<close>)
  next
    case (recached n access x r w)
    then show ?thesis
      by (intro fence_inv_keep [OF inv]) (use ids row_of_recached in \<open>auto intro!: version_kept_same split: if_splits\<close>)
  next
    case (given_up n)
    then show ?thesis by (intro fence_inv_keep [OF inv]) (use ids in \<open>auto intro!: version_kept_same split: if_splits\<close>)
  next
    case (row_released n v)
    then show ?thesis by (intro fence_inv_keep [OF inv]) (use ids in \<open>auto intro!: version_kept_same split: if_splits\<close>)
  next
    case (outside w)
    then show ?thesis by (intro fence_inv_keep [OF inv]) (use ids in auto)
  qed
qed

section \<open>The invariant of the row lock\<close>

definition redeemed_when_due :: "env \<Rightarrow> string \<Rightarrow> nat \<times> string \<times> world \<Rightarrow> bool" where
  "redeemed_when_due E cid = (\<lambda>(n, tok, w). \<exists>r. row_of cid w = Some r \<and> decrypt_opt E (c_refresh_token_enc r) = Inr tok
     \<and> still_valid E w r = Inr False)"

fun locked_copy :: "stage \<Rightarrow> credential option" where
  "locked_copy (Locked_row c) = Some c"
| "locked_copy (Redeemed c _ _) = Some c"
| "locked_copy _ = None"

definition recheck_inv :: "env \<Rightarrow> string \<Rightarrow> rotation \<Rightarrow> bool" where
  "recheck_inv E cid s \<longleftrightarrow>
     (\<forall>n. inside_lock (o_stage s n) \<longleftrightarrow> o_lock s = Some n)
     \<and> (\<forall>n l. locked_copy (o_stage s n) = Some l \<longrightarrow> row_of cid (o_world s) = Some l)
     \<and> list_all (redeemed_when_due E cid) (o_redeemed s) \<and> list_all (effective cid) (o_kept s)"

lemma locked_copy_inside: "locked_copy p = Some l \<Longrightarrow> inside_lock p"
  by (cases p) simp_all

lemma recheck_inv_step:
  assumes step: "turn E reread cid s t" and inv: "recheck_inv E cid s" and my: "e_mysql E" and fresh: "\<And>c r. reread c r = r"
  shows "recheck_inv E cid t"
proof -
  have lock: "inside_lock (o_stage s n) \<longleftrightarrow> o_lock s = Some n" for n using inv unfolding recheck_inv_def by blast
  have copy: "locked_copy (o_stage s n) = Some l \<Longrightarrow> row_of cid (o_world s) = Some l" for n l
    using inv unfolding recheck_inv_def by blast
  have keep: "recheck_inv E cid t"
    if "\<And>k. inside_lock (o_stage t k) \<longleftrightarrow> o_lock t = Some k"
      "\<And>k l. locked_copy (o_stage t k) = Some l \<Longrightarrow> row_of cid (o_world t) = Some l"
      "\<And>e. e \<in> set (o_redeemed t) \<Longrightarrow> e \<in> set (o_redeemed s) \<or> redeemed_when_due E cid e"
      "\<And>e. e \<in> set (o_kept t) \<Longrightarrow> e \<in> set (o_kept s) \<or> effective cid e"
    using that inv unfolding recheck_inv_def list_all_iff by blast
  from step show ?thesis
  proof (cases rule: turn.cases)
    case (resolved n c)
    then show ?thesis by (intro keep) (use lock [of n] lock copy in \<open>auto split: if_splits\<close>)
  next
    case (cache_hit n c v w)
    then show ?thesis by (intro keep) (use lock [of n] lock copy row_of_cached in \<open>auto split: if_splits\<close>)
  next
    case (cache_missed n c v w)
    then show ?thesis by (intro keep) (use lock [of n] lock copy row_of_cached in \<open>auto split: if_splits\<close>)
  next
    case (row_locked n c r h)
    then show ?thesis
      by (intro keep) (use lock my fresh locked_copy_inside in \<open>fastforce simp: with_row_lock_def split: if_splits\<close>)+
  next
    case (row_gone n c)
    then show ?thesis by (intro keep) (use lock [of n] lock copy in \<open>auto split: if_splits\<close>)
  next
    case (still_good n l)
    then show ?thesis by (intro keep) (use lock [of n] lock copy in \<open>auto split: if_splits\<close>)
  next
    case (redeemed n l tok r w)
    have l: "row_of cid (o_world s) = Some l" using copy [of n l] redeemed by simp
    show ?thesis
    proof (rule keep)
      fix e assume "e \<in> set (o_redeemed t)"
      then show "e \<in> set (o_redeemed s) \<or> redeemed_when_due E cid e"
        using redeemed l by (auto simp: redeemed_when_due_def)
    qed (use redeemed lock [of n] lock copy l row_of_redeem in \<open>auto split: if_splits sum.splits\<close>)
  next
    case (kept n l data now access x w)
    have l: "row_of cid (o_world s) = Some l" using copy [of n l] kept by simp
    have only: "k = n" if "inside_lock (o_stage s k)" for k using that lock [of k] lock [of n] kept(2) by simp
    show ?thesis
      by (rule keep) (use kept l only lock [of n] locked_copy_inside in \<open>auto simp: effective_def split: if_splits\<close>)
  next
    case (not_kept n l data now e w)
    then show ?thesis by (intro keep) (use lock [of n] lock copy row_of_not_kept in \<open>auto split: if_splits\<close>)
  next
    case (recached n access x r w)
    then show ?thesis by (intro keep) (use lock [of n] lock copy row_of_recached in \<open>auto split: if_splits\<close>)
  next
    case (given_up n)
    then show ?thesis by (intro keep) (use lock [of n] lock copy in \<open>auto split: if_splits\<close>)
  next
    case (row_released n v)
    have only: "k = n" if "inside_lock (o_stage s k)" for k using that lock [of k] lock [of n] row_released(2) by simp
    show ?thesis
      by (rule keep) (use row_released only copy in \<open>auto split: if_splits\<close>)
  next
    case (outside w)
    have "o_lock s \<noteq> None" if "locked_copy (o_stage s k) = Some l" for k l
      using locked_copy_inside [OF that] lock by simp
    with outside show ?thesis by (intro keep) (use lock copy in auto)
  qed
qed

section \<open>Schedules\<close>

text \<open>The next step of request \<open>n\<close>, when it is not blocked, and the run of a schedule\<close>

definition advance ::
  "env \<Rightarrow> (credential \<Rightarrow> credential \<Rightarrow> credential) \<Rightarrow> string \<Rightarrow> nat \<Rightarrow> rotation \<Rightarrow> rotation option" where
  "advance E reread cid n s = (case o_stage s n of
      Unresolved \<Rightarrow> map_option (\<lambda>c. s\<lparr>o_stage := (o_stage s)(n := Resolved c)\<rparr>) (row_of cid (o_world s))
    | Resolved c \<Rightarrow> (case cache_get_json E (oauth_at_key cid) (o_world s) of
          (Inl e, w) \<Rightarrow> None
        | (Inr v, w) \<Rightarrow> Some (s\<lparr>o_world := w, o_stage := (o_stage s)(n :=
            if truthy v then Served (token_of (bind_res (as_str v) (decrypt_secret E))) else Missed c)\<rparr>))
    | Missed c \<Rightarrow> (case row_of cid (o_world s) of
          None \<Rightarrow> Some (s\<lparr>o_stage := (o_stage s)(n := Served None)\<rparr>)
        | Some r \<Rightarrow> (case with_row_lock E n (o_lock s) of
              None \<Rightarrow> None
            | Some h \<Rightarrow> Some (s\<lparr>o_lock := h, o_stage := (o_stage s)(n := Locked_row (reread c r))\<rparr>)))
    | Locked_row l \<Rightarrow> (case still_valid E (o_world s) l of
          Inl e \<Rightarrow> Some (s\<lparr>o_stage := (o_stage s)(n := Quitting None)\<rparr>)
        | Inr True \<Rightarrow> Some (s\<lparr>o_stage := (o_stage s)(n := Quitting (token_of (decrypt_opt E (c_access_token_enc l))))\<rparr>)
        | Inr False \<Rightarrow> (case decrypt_opt E (c_refresh_token_enc l) of
              Inl e \<Rightarrow> Some (s\<lparr>o_stage := (o_stage s)(n := Quitting None)\<rparr>)
            | Inr tok \<Rightarrow> (case redeem E l (o_world s) of (r, w) \<Rightarrow>
                Some (s\<lparr>o_world := w, o_redeemed := o_redeemed s @ [(n, tok, o_world s)],
                  o_stage := (o_stage s)(n := (case r of Inl _ \<Rightarrow> Quitting None | Inr data \<Rightarrow> Redeemed l data (utcnow (o_world s))))\<rparr>))))
    | Redeemed l data now \<Rightarrow> (case persist E l data now (o_world s) of
          (Inr (access, x), w) \<Rightarrow> Some (s\<lparr>o_world := w, o_lock := None, o_kept := o_kept s @ [(n, l, access, o_world s, w)],
            o_stage := (o_stage s)(n := Kept access x)\<rparr>)
        | (Inl e, w) \<Rightarrow> Some (s\<lparr>o_world := w, o_stage := (o_stage s)(n := Quitting None)\<rparr>))
    | Kept access x \<Rightarrow> (case cache_access_token E cid access x (o_world s) of (r, w) \<Rightarrow>
        Some (s\<lparr>o_world := w, o_stage := (o_stage s)(n := Served (token_of (map_sum id (\<lambda>_. access) r)))\<rparr>))
    | Quitting v \<Rightarrow> Some (s\<lparr>o_lock := None, o_stage := (o_stage s)(n := Served v)\<rparr>)
    | Served v \<Rightarrow> None)"

fun schedule ::
  "env \<Rightarrow> (credential \<Rightarrow> credential \<Rightarrow> credential) \<Rightarrow> string \<Rightarrow> nat list \<Rightarrow> rotation \<Rightarrow> rotation option" where
  "schedule E reread cid [] s = Some s"
| "schedule E reread cid (n # ns) s = (case advance E reread cid n s of None \<Rightarrow> None | Some t \<Rightarrow> schedule E reread cid ns t)"

lemma advance_turn:
  assumes "advance E reread cid n s = Some t" shows "turn E reread cid s t"
proof (cases "o_stage s n")
  case Unresolved
  with assms show ?thesis by (auto simp: advance_def intro: turn.resolved)
next
  case (Resolved c)
  with assms show ?thesis
    by (auto simp: advance_def split: prod.splits sum.splits intro: turn.cache_hit turn.cache_missed)
next
  case (Missed c)
  show ?thesis
  proof (cases "row_of cid (o_world s)")
    case None
    with Missed assms show ?thesis by (auto simp: advance_def intro: turn.row_gone)
  next
    case (Some r)
    then obtain h where h: "with_row_lock E n (o_lock s) = Some h"
      "t = s\<lparr>o_lock := h, o_stage := (o_stage s)(n := Locked_row (reread c r))\<rparr>"
      using Missed assms by (auto simp: advance_def split: option.splits if_splits)
    show ?thesis unfolding h(2) by (rule turn.row_locked [OF Missed Some h(1)])
  qed
next
  case (Locked_row l)
  show ?thesis
  proof (cases "still_valid E (o_world s) l = Inr False \<and> (\<exists>tok. decrypt_opt E (c_refresh_token_enc l) = Inr tok)")
    case True
    then obtain tok where tok: "still_valid E (o_world s) l = Inr False" "decrypt_opt E (c_refresh_token_enc l) = Inr tok" by blast
    obtain r w where r: "redeem E l (o_world s) = (r, w)" by force
    have "t = s\<lparr>o_world := w, o_redeemed := o_redeemed s @ [(n, tok, o_world s)],
        o_stage := (o_stage s)(n := (case r of Inl _ \<Rightarrow> Quitting None | Inr data \<Rightarrow> Redeemed l data (utcnow (o_world s))))\<rparr>"
      using assms Locked_row tok r by (simp add: advance_def)
    then show ?thesis by (simp only:) (rule turn.redeemed [OF Locked_row tok r])
  next
    case False
    with assms Locked_row show ?thesis
      by (auto simp: advance_def split: sum.splits bool.splits intro: turn.still_good turn.given_up)
  qed
next
  case (Redeemed l data now)
  with assms show ?thesis
    by (auto simp: advance_def split: prod.splits sum.splits intro: turn.kept turn.not_kept)
next
  case (Kept access x)
  with assms show ?thesis by (auto simp: advance_def split: prod.splits intro: turn.recached)
next
  case (Quitting v)
  with assms show ?thesis by (auto simp: advance_def intro: turn.row_released)
next
  case (Served v)
  with assms show ?thesis by (simp add: advance_def)
qed

lemma turns_step: "turn E reread cid s t \<Longrightarrow> turns E reread cid t u \<Longrightarrow> turns E reread cid s u"
  by (erule turns.induct [of E reread cid t]) (auto intro: turns.intros)

lemma schedule_turns: "schedule E reread cid ns s = Some t \<Longrightarrow> turns E reread cid s t"
  by (induction ns arbitrary: s)
     (auto intro: turns.unmoved turns_step advance_turn split: option.splits)

text \<open>Alone, the steps of one request are the sequential \<^verbatim>\<open>get_valid_access_token\<close>.\<close>

lemma row_stays: "row_of cid w = Some c \<Longrightarrow> row_of cid (w\<lparr>w_redis_calls := k\<rparr>) = Some c"
  by (simp add: row_of_def)

lemma still_valid_calls [simp]: "still_valid E (w\<lparr>w_redis_calls := k\<rparr>) l = still_valid E w l"
  by (simp add: still_valid_def utcnow_def split: option.splits)

lemma alone_as_sequential:
  assumes "o_stage s n = Unresolved" and "o_lock s = None" and "row_of cid (o_world s) = Some c" and "c_cred_type c = ''oauth''"
    and "reread c c = c" and "get_valid_access_token E c (o_world s) = (r, w)"
  shows "\<exists>t. turns E reread cid s t \<and> o_stage t n = Served (token_of r) \<and> o_world t = w"
proof -
  let ?go = "\<lambda>k. schedule E reread cid (replicate k n) s"
  have id: "c_id c = cid" by (rule row_of_id [OF assms(3)])
  have find: "find (\<lambda>x. c_id x = cid) (w_credentials (o_world s)) = Some c" using assms(3) by (simp add: row_of_def)
  note step = advance_def with_row_lock_def numeral_eq_Suc row_of_def find assms(1,2,5) id
  obtain v w1 where v: "cache_get_json E (oauth_at_key cid) (o_world s) = (Inr v, w1)"
    and w1: "w1 = (o_world s)\<lparr>w_redis_calls := Suc (w_redis_calls (o_world s))\<rparr>" by (simp add: cache_get_json_run)
  note seq = assms(6) [unfolded get_valid_access_token_def assms(4) id, simplified, unfolded bind_app v, simplified]
  consider (hit) "truthy v" | (raised) e where "\<not> truthy v" "still_valid E (o_world s) c = Inl e"
    | (good) "\<not> truthy v" "still_valid E (o_world s) c = Inr True"
    | (due) "\<not> truthy v" "still_valid E (o_world s) c = Inr False"
    by (metis (full_types) old.sum.exhaust)
  then show ?thesis
  proof cases
    case hit
    then have "\<exists>t. ?go 2 = Some t \<and> o_stage t n = Served (token_of r) \<and> o_world t = w"
      using seq by (cases v) (auto simp: step v bind_app token_of_def split: sum.splits)
    then show ?thesis using schedule_turns by blast
  next
    case raised
    then have "\<exists>t. ?go 5 = Some t \<and> o_stage t n = Served (token_of r) \<and> o_world t = w"
      using seq by (auto simp: step v w1 bind_app token_of_def)
    then show ?thesis using schedule_turns by blast
  next
    case good
    then have "\<exists>t. ?go 5 = Some t \<and> o_stage t n = Served (token_of r) \<and> o_world t = w"
      using seq by (auto simp: step v w1 bind_app token_of_def)
    then show ?thesis using schedule_turns by blast
  next
    case due
    have run: "refresh_and_store E c w1 = (r, w)" using seq due find by (simp add: bind_app w1)
    have now: "utcnow w1 = utcnow (o_world s)" by (simp add: w1 utcnow_def)
    have "\<exists>k t. ?go k = Some t \<and> o_stage t n = Served (token_of r) \<and> o_world t = w"
    proof (cases "redeem E c w1")
      case (Pair r2 w2)
      show ?thesis
      proof (cases "decrypt_opt E (c_refresh_token_enc c)")
        case (Inl e)
        then have "r = Inl e" "w = w1" using run unfolding refresh_and_store_stages by (simp_all add: redeem_def bind_app)
        with due v Inl have "\<exists>t. ?go 5 = Some t \<and> o_stage t n = Served (token_of r) \<and> o_world t = w"
          by (simp add: step w1 token_of_def)
        then show ?thesis by blast
      next
        case (Inr tok)
        show ?thesis
        proof (cases r2)
          case (Inl e)
          have "\<exists>t. ?go 5 = Some t \<and> o_stage t n = Served (token_of r) \<and> o_world t = w"
            using run due v Pair Inl \<open>decrypt_opt E _ = Inr tok\<close> unfolding refresh_and_store_stages
            by (auto simp: step w1 bind_app token_of_def)
          then show ?thesis by blast
        next
          case (Inr data)
          have "\<exists>t. ?go 6 = Some t \<and> o_stage t n = Served (token_of r) \<and> o_world t = w"
            using run due v Pair Inr \<open>decrypt_opt E _ = Inr tok\<close> now unfolding refresh_and_store_stages
            by (auto simp: step w1 bind_app token_of_def split: sum.splits prod.splits)
          then show ?thesis by blast
        qed
      qed
    qed
    then show ?thesis using schedule_turns by blast
  qed
qed

section \<open>Properties\<close>

lemma turns_fence:
  assumes "turns E reread cid s t" and "unrotated s" and "fernet_ok E" and "\<And>c r. reread c r \<in> {c, r}"
  shows "fence_inv E cid t"
  using assms(1)
proof induction
  case unmoved
  with assms(2) show ?case by (simp add: unrotated_def fence_inv_def)
next
  case (moved t u)
  then show ?case using fence_inv_step assms(3,4) by blast
qed

lemma turns_recheck:
  assumes "turns E reread cid s t" and "unrotated s" and "e_mysql E" and "\<And>c r. reread c r = r"
  shows "recheck_inv E cid t"
  using assms(1)
proof induction
  case unmoved
  with assms(2) show ?case by (simp add: unrotated_def recheck_inv_def)
next
  case (moved t u)
  then show ?case using recheck_inv_step assms(3,4) by blast
qed



text \<open>An issuer that rotates refresh tokens, on MySQL, and a credential whose first token is due\<close>

definition rotating_env :: env where
  "rotating_env = demo_env\<lparr>e_mysql := True, e_http := (\<lambda>tr q. case map_of (q_params q) ''refresh_token'' of
     Some (JStr s) \<Rightarrow> Inr \<lparr>p_status = 200, p_json = Some (JObj [
       (''access_token'', JStr (''a'' @ int_str (int (length tr)))), (''refresh_token'', JStr (''r'' @ int_str (int (length tr) + 2))),
       (''expires_in'', JNum 3600)])\<rparr> | _ \<Rightarrow> Inl HTTPError)\<rparr>"

definition rotation_start :: rotation where
  "rotation_start = \<lparr>o_world = oauth_world, o_lock = None, o_stage = (\<lambda>_. Unresolved), o_redeemed = [], o_kept = []\<rparr>"

definition race_turns :: "nat list" where
  "race_turns = [0, 1, 0, 1, 0, 0, 0, 1, 1, 1]"

definition race_end :: rotation where
  "race_end = the (schedule rotating_env (\<lambda>c r. c) ''cred1'' race_turns rotation_start)"

lemma race_runs: "turns rotating_env (\<lambda>c r. c) ''cred1'' rotation_start race_end"
proof -
  have "schedule rotating_env (\<lambda>c r. c) ''cred1'' race_turns rotation_start \<noteq> None" by code_simp
  then show ?thesis by (auto simp: race_end_def intro: schedule_turns)
qed

lemma race_redeemed:
  "map (\<lambda>(n, tok, w). (n, tok, map_option c_refresh_token_enc (row_of ''cred1'' w))) (o_redeemed race_end)
     = [(0, ''r1'', Some (Some ''!r1'')), (1, ''r1'', Some (Some ''!r2''))]"
  by code_simp

lemma race_kept:
  "map (\<lambda>(n, l, access, w, w'). (n, access, map_option c_access_token_enc (row_of ''cred1'' w'), c_cred_version l,
       map_option c_cred_version (row_of ''cred1'' w))) (o_kept race_end)
     = [(0, ''a0'', Some (Some ''!a0''), 1, Some 1), (1, ''a1'', Some (Some ''!a0''), 1, Some 2)]"
  by code_simp

text \<open>
  C34: the check inside the lock is ineffective as the code has it: the session already holds the
  credential, so the locked select gives back the object that was loaded before the wait. There
  is a run on MySQL in which a request that waited for the lock redeems the refresh token that
  the holder had already redeemed and replaced, and the tokens the issuer gives it are stored
  nowhere.
\<close>

theorem stale_recheck_redeems_again:
  "unrotated rotation_start \<and> turns rotating_env (\<lambda>c r. c) ''cred1'' rotation_start race_end \<and> e_mysql rotating_env
   \<and> (\<exists>tok w0 w r. (0, tok, w0) \<in> set (o_redeemed race_end) \<and> (1, tok, w) \<in> set (o_redeemed race_end)
        \<and> row_of ''cred1'' w = Some r \<and> decrypt_opt rotating_env (c_refresh_token_enc r) \<noteq> Inr tok)
   \<and> (\<exists>l access w w' r. (1, l, access, w, w') \<in> set (o_kept race_end) \<and> \<not> effective ''cred1'' (1, l, access, w, w')
        \<and> row_of ''cred1'' w' = Some r \<and> decrypt_opt rotating_env (c_access_token_enc r) \<noteq> Inr access)"
proof (intro conjI)
  show "unrotated rotation_start" by (simp add: unrotated_def rotation_start_def)
  have dec: "decrypt_opt rotating_env (Some ''!r2'') = Inr ''r2''" "decrypt_opt rotating_env (Some ''!a0'') = Inr ''a0''" by code_simp+
  from race_redeemed obtain w0 w where red: "o_redeemed race_end = [(0, ''r1'', w0), (1, ''r1'', w)]"
    and row: "map_option c_refresh_token_enc (row_of ''cred1'' w) = Some (Some ''!r2'')"
    by (auto simp: map_eq_Cons_conv)
  then show "\<exists>tok w0 w r. (0, tok, w0) \<in> set (o_redeemed race_end) \<and> (1, tok, w) \<in> set (o_redeemed race_end)
        \<and> row_of ''cred1'' w = Some r \<and> decrypt_opt rotating_env (c_refresh_token_enc r) \<noteq> Inr tok"
    using dec by fastforce
  from race_kept obtain e l w w' where kept: "o_kept race_end = [e, (1, l, ''a1'', w, w')]"
    and vers: "c_cred_version l = 1" "map_option c_cred_version (row_of ''cred1'' w) = Some 2"
    and acc: "map_option c_access_token_enc (row_of ''cred1'' w') = Some (Some ''!a0'')"
    by (auto simp: map_eq_Cons_conv)
  have "\<not> effective ''cred1'' (1, l, ''a1'', w, w')" using vers by (auto simp: effective_def)
  then show "\<exists>l access w w' r. (1, l, access, w, w') \<in> set (o_kept race_end) \<and> \<not> effective ''cred1'' (1, l, access, w, w')
        \<and> row_of ''cred1'' w' = Some r \<and> decrypt_opt rotating_env (c_access_token_enc r) \<noteq> Inr access"
    using kept acc dec by fastforce
qed (rule race_runs, simp_all add: rotating_env_def)

section \<open>Witnesses\<close>

lemma rotation_start_unrotated: "unrotated rotation_start"
  by (simp add: unrotated_def rotation_start_def)

lemma rotating_fernet: "fernet_ok rotating_env"
  by (simp add: fernet_ok_def rotating_env_def demo_env_def)



end
