(* ===== verification/Interleave.thy ===== *)
theory Interleave
  imports ProxyDns
begin

text \<open>
  Concurrent by-id mutations: any number of requests run the guarded part of
  \<^verbatim>\<open>_mutate_dns_record_by_id\<close>, interleaved at its awaits, against one Cloudflare. The advisory lock
  is taken to be exclusive (MySQL's \<^verbatim>\<open>GET_LOCK\<close> across processes, \<^verbatim>\<open>asyncio.Lock\<close> within one) and
  to be held until it is released; changes that bypass the proxy are not steps.
\<close>

section \<open>The step relation\<close>

text \<open>A request after its token was resolved\<close>

record job =
  j_rules :: "rule list"
  j_method :: string
  j_zone :: string
  j_record :: string
  j_body :: json

definition job_exempt :: "job \<Rightarrow> bool" where
  "job_exempt j \<longleftrightarrow> is_lock_exempt (j_rules j) (j_zone j) (Some (j_record j)) (mutation_need (j_method j))"

definition job_lock :: "env \<Rightarrow> job \<Rightarrow> string" where
  "job_lock E j = mutation_lock_name E (j_zone j) (j_record j)"

definition job_target :: "job \<Rightarrow> string \<times> string" where
  "job_target j = (j_zone j, j_record j)"

text \<open>The decision of the authorizer when the fetch returns \<open>pre\<close>\<close>

definition job_allows :: "env \<Rightarrow> job \<Rightarrow> json \<Rightarrow> bool" where
  "job_allows E j pre = (case fst (authorize_dns_request (e_idna E) (j_rules j) (j_method j) (j_zone j) (Some (j_record j))
       (j_body j) (\<lambda>_ _. return pre) ()) of Inl _ \<Rightarrow> False | Inr d \<Rightarrow> allowed d)"

text \<open>Where a request is: before the lock, inside it, authorized on a fetched record, past the forward, done\<close>

datatype phase = Waiting | Holding | Fetched json | Leaving | Answered

text \<open>
  Who holds which lock, where each request is, the records at Cloudflare, and the mutations that
  arrived there: by whom, authorized on which image, and the image that they replaced.
\<close>

record contention =
  s_lock :: "string \<Rightarrow> nat option"
  s_phase :: "nat \<Rightarrow> phase"
  s_cloud :: "string \<times> string \<Rightarrow> json"
  s_log :: "(nat \<times> json \<times> json) list"

inductive contend :: "env \<Rightarrow> (nat \<Rightarrow> job) \<Rightarrow> contention \<Rightarrow> contention \<Rightarrow> bool" for E jobs where
  lock_taken: "s_phase s n = Waiting \<Longrightarrow> \<not> job_exempt (jobs n) \<Longrightarrow> s_lock s (job_lock E (jobs n)) = None \<Longrightarrow>
    contend E jobs s (s\<lparr>s_lock := (s_lock s)(job_lock E (jobs n) \<mapsto> n), s_phase := (s_phase s)(n := Holding)\<rparr>)"
| lock_refused: "s_phase s n = Waiting \<Longrightarrow> \<not> job_exempt (jobs n) \<Longrightarrow>
    contend E jobs s (s\<lparr>s_phase := (s_phase s)(n := Answered)\<rparr>)"
| fetched: "s_phase s n = (if job_exempt (jobs n) then Waiting else Holding) \<Longrightarrow>
    contend E jobs s (s\<lparr>s_phase := (s_phase s)(n := Fetched (s_cloud s (job_target (jobs n))))\<rparr>)"
| forwarded: "s_phase s n = Fetched pre \<Longrightarrow> job_allows E (jobs n) pre \<Longrightarrow>
    contend E jobs s (s\<lparr>s_phase := (s_phase s)(n := Leaving), s_cloud := (s_cloud s)(job_target (jobs n) := post),
      s_log := s_log s @ [(n, pre, s_cloud s (job_target (jobs n)))]\<rparr>)"
| abandoned: "s_phase s n = Fetched pre \<or> s_phase s n = Holding \<Longrightarrow>
    contend E jobs s (s\<lparr>s_phase := (s_phase s)(n := Leaving)\<rparr>)"
| released: "s_phase s n = Leaving \<Longrightarrow>
    contend E jobs s (s\<lparr>s_phase := (s_phase s)(n := Answered),
      s_lock := (if job_exempt (jobs n) then s_lock s else (s_lock s)(job_lock E (jobs n) := None))\<rparr>)"

definition uncontended :: "contention \<Rightarrow> bool" where
  "uncontended s \<longleftrightarrow> s_lock s = (\<lambda>_. None) \<and> s_phase s = (\<lambda>_. Waiting) \<and> s_log s = []"

inductive contends :: "env \<Rightarrow> (nat \<Rightarrow> job) \<Rightarrow> contention \<Rightarrow> contention \<Rightarrow> bool" for E jobs s where
  idle: "contends E jobs s s"
| more: "contends E jobs s t \<Longrightarrow> contend E jobs t u \<Longrightarrow> contends E jobs s u"

section \<open>The invariant of the lock\<close>

fun inside :: "phase \<Rightarrow> bool" where
  "inside Waiting = False"
| "inside Answered = False"
| "inside _ = True"

definition lock_inv :: "env \<Rightarrow> (nat \<Rightarrow> job) \<Rightarrow> contention \<Rightarrow> bool" where
  "lock_inv E jobs s \<longleftrightarrow> (\<forall>n nm. \<not> job_exempt (jobs n) \<and> inside (s_phase s n) \<and> nm = job_lock E (jobs n) \<longleftrightarrow> s_lock s nm = Some n)"

text \<open>On a record that no exempt request targets, what was fetched is still there, and so it was for what was forwarded.\<close>

definition image_inv :: "env \<Rightarrow> (nat \<Rightarrow> job) \<Rightarrow> string \<times> string \<Rightarrow> contention \<Rightarrow> bool" where
  "image_inv E jobs x s \<longleftrightarrow>
     (\<forall>n pre. job_target (jobs n) = x \<and> s_phase s n = Fetched pre \<longrightarrow> pre = s_cloud s x)
     \<and> (\<forall>n pre cur. job_target (jobs n) = x \<and> (n, pre, cur) \<in> set (s_log s) \<longrightarrow> pre = cur \<and> job_allows E (jobs n) pre)"

lemma same_target_lock: "job_target j = job_target k \<Longrightarrow> job_lock E j = job_lock E k"
  by (simp add: job_target_def job_lock_def)

lemma lock_held: "lock_inv E jobs s \<Longrightarrow> \<not> job_exempt (jobs n) \<Longrightarrow> inside (s_phase s n) \<Longrightarrow> s_lock s (job_lock E (jobs n)) = Some n"
  unfolding lock_inv_def by blast

lemma lock_holder: "lock_inv E jobs s \<Longrightarrow> s_lock s nm = Some n \<Longrightarrow> \<not> job_exempt (jobs n) \<and> inside (s_phase s n) \<and> nm = job_lock E (jobs n)"
  unfolding lock_inv_def by blast

lemma lock_inv_step:
  assumes "contend E jobs s t" and "lock_inv E jobs s" shows "lock_inv E jobs t"
  using assms
proof (cases rule: contend.cases)
  case (lock_taken n)
  with assms(2) show ?thesis by (auto simp: lock_inv_def)
next
  case (lock_refused n)
  with assms(2) show ?thesis by (auto simp: lock_inv_def dest: lock_holder [OF assms(2)])
next
  case (fetched n)
  with assms(2) show ?thesis by (auto simp: lock_inv_def dest: lock_holder [OF assms(2)] intro: lock_held [OF assms(2)] split: if_splits)
next
  case (forwarded n pre post)
  with assms(2) show ?thesis by (auto simp: lock_inv_def dest: lock_holder [OF assms(2)] intro: lock_held [OF assms(2)])
next
  case (abandoned n pre)
  with assms(2) show ?thesis by (auto simp: lock_inv_def dest: lock_holder [OF assms(2)] intro: lock_held [OF assms(2)])
next
  case (released n)
  have "\<not> job_exempt (jobs n) \<Longrightarrow> s_lock s (job_lock E (jobs n)) = Some n"
    using released(2) by (intro lock_held [OF assms(2)]) simp_all
  with released assms(2) show ?thesis by (auto simp: lock_inv_def)
qed

lemma image_inv_step:
  assumes step: "contend E jobs s t" and lock: "lock_inv E jobs s" and img: "image_inv E jobs x s"
    and no: "\<And>n. job_target (jobs n) = x \<Longrightarrow> \<not> job_exempt (jobs n)"
  shows "image_inv E jobs x t"
  using step
proof (cases rule: contend.cases)
  case (forwarded n pre post)
  have alone: "k = n" if "job_target (jobs k) = x" "s_phase s k = Fetched p" "job_target (jobs n) = x" for k p
  proof -
    have "s_lock s (job_lock E (jobs k)) = Some k"
      by (rule lock_held [OF lock no [OF that(1)]]) (simp add: that(2))
    moreover have "s_lock s (job_lock E (jobs n)) = Some n"
      by (rule lock_held [OF lock no [OF that(3)]]) (simp add: forwarded(2))
    moreover have "job_lock E (jobs k) = job_lock E (jobs n)" by (rule same_target_lock) (simp add: that)
    ultimately show ?thesis by (metis option.inject)
  qed
  show ?thesis unfolding image_inv_def
  proof (intro conjI allI impI; elim conjE)
    fix k p assume k: "job_target (jobs k) = x" and "s_phase t k = Fetched p"
    then have kn: "k \<noteq> n" "s_phase s k = Fetched p" using forwarded(1) by (auto split: if_splits)
    then have "job_target (jobs n) \<noteq> x" using alone [OF k] by blast
    moreover have "p = s_cloud s x" using img k kn(2) unfolding image_inv_def by blast
    ultimately show "p = s_cloud t x" using forwarded(1) by simp
  next
    fix k p cur assume k: "job_target (jobs k) = x" and "(k, p, cur) \<in> set (s_log t)"
    then consider "(k, p, cur) \<in> set (s_log s)" | "k = n" "p = pre" "cur = s_cloud s x" using forwarded(1) by auto
    then show "p = cur" "job_allows E (jobs k) p"
    proof (atomize(full), cases)
      case 1
      with img k show "p = cur \<and> job_allows E (jobs k) p" unfolding image_inv_def by blast
    next
      case 2
      moreover have "pre = s_cloud s x" using img k 2(1) forwarded(2) unfolding image_inv_def by blast
      ultimately show "p = cur \<and> job_allows E (jobs k) p" using forwarded(3) by simp
    qed
  qed
qed (use img in \<open>auto simp: image_inv_def\<close>)

lemma contends_inv:
  assumes "contends E jobs s t" and "uncontended s" and "\<And>n. job_target (jobs n) = x \<Longrightarrow> \<not> job_exempt (jobs n)"
  shows "lock_inv E jobs t \<and> image_inv E jobs x t"
  using assms(1)
proof induction
  case idle
  with assms(2) show ?case by (auto simp: uncontended_def lock_inv_def image_inv_def)
next
  case (more t u)
  then show ?case using lock_inv_step image_inv_step assms(3) by blast
qed

lemma job_allows_scope:
  assumes "job_allows E j pre" and "j_method j \<in> {''PATCH'', ''PUT'', ''DELETE''}"
  shows "in_scope E (j_rules j) (j_method j) (j_zone j) (j_record j) (j_body j) pre"
proof -
  let ?run = "authorize_dns_request (e_idna E) (j_rules j) (j_method j) (j_zone j) (Some (j_record j)) (j_body j) (\<lambda>_ _. return pre) ()"
  obtain d where run: "?run = (Inr d, ())" and al: "allowed d"
    using assms(1) unfolding job_allows_def by (cases ?run) (auto split: sum.splits)
  have "py_upper (j_method j) = j_method j" using assms(2) by (intro by_id_methods) auto
  then have "py_upper (j_method j) \<noteq> ''POST''" using assms(2) by auto
  from authorize_allowedD [OF run al this] show ?thesis by (auto simp: in_scope_def)
qed

section \<open>Properties\<close>

text \<open>
  C3: the lock closes the window between the check and the use: however the by-id mutations of a
  record interleave, as long as none of them is exempt from the lock, the image that each of them
  replaces at Cloudflare is the image on which it was authorized, so the mutation is in the scope
  of its rules at the moment it takes effect. A lock that is held is held by a request that has
  not answered yet.
\<close>

theorem locked_mutations_are_atomic:
  assumes "uncontended s" and "contends E jobs s t"
    and "\<forall>n. job_target (jobs n) = (z, i) \<longrightarrow> \<not> job_exempt (jobs n)"
    and "(n, pre, cur) \<in> set (s_log t)" and "job_target (jobs n) = (z, i)" and "j_method (jobs n) \<in> {''PATCH'', ''PUT'', ''DELETE''}"
  shows "pre = cur \<and> in_scope E (j_rules (jobs n)) (j_method (jobs n)) z i (j_body (jobs n)) cur
    \<and> (\<forall>nm k. s_lock t nm = Some k \<longrightarrow> inside (s_phase t k) \<and> nm = job_lock E (jobs k))"
proof -
  have inv: "lock_inv E jobs t" "image_inv E jobs (z, i) t"
    using contends_inv [OF assms(2,1), of "(z, i)"] assms(3) by blast+
  then have eq: "pre = cur" "job_allows E (jobs n) pre" using assms(4,5) unfolding image_inv_def by blast+
  moreover have "in_scope E (j_rules (jobs n)) (j_method (jobs n)) z i (j_body (jobs n)) pre"
    using job_allows_scope [OF eq(2) assms(6)] assms(5) by (simp add: job_target_def)
  ultimately show ?thesis using lock_holder [OF inv(1)] by blast
qed

text \<open>Two clients of one record: a rule on its name, and a lock-exempt rule on its id\<close>

definition race_jobs :: "nat \<Rightarrow> job" where
  "race_jobs n = (if n = 0
     then \<lparr>j_rules = [rule.truncate demo_rule], j_method = ''PATCH'', j_zone = ''z1'', j_record = ''rec1'',
           j_body = JObj [(''content'', JStr ''1.2.3.4'')]\<rparr>
     else \<lparr>j_rules = [\<lparr>rule_zone_id = ''z1'', rule_name_pattern = None, rule_name_match = ''exact'', rule_record_types = [''*''],
             rule_record_ids = Some [''rec1''], rule_allow_read = True, rule_allow_create = False, rule_allow_write = True,
             rule_allow_delete = False\<rparr>], j_method = ''PATCH'', j_zone = ''z1'', j_record = ''rec1'',
           j_body = JObj [(''name'', JStr ''admin.example.com'')]\<rparr>)"

definition renamed_record :: json where
  "renamed_record = JObj [(''id'', JStr ''rec1''), (''zone_id'', JStr ''z1''),
     (''name'', JStr ''admin.example.com''), (''type'', JStr ''A'')]"

definition race_start :: contention where
  "race_start = \<lparr>s_lock = (\<lambda>_. None), s_phase = (\<lambda>_. Waiting), s_cloud = (\<lambda>_. demo_record), s_log = []\<rparr>"

lemma race_facts:
  "\<not> job_exempt (race_jobs 0)" "job_exempt (race_jobs 1)" "job_allows demo_env (race_jobs 0) demo_record"
  "job_allows demo_env (race_jobs 1) demo_record" "\<not> job_allows demo_env (race_jobs 0) renamed_record"
  by code_simp+

lemma race_targets: "job_target (race_jobs n) = (''z1'', ''rec1'')"
  by (simp add: race_jobs_def job_target_def)

text \<open>
  C33: a lock-exempt client opens the window again: there is a run in which a request that holds the
  lock of a record is authorized on the record it fetched, a lock-exempt request renames the
  record before the forward, and the mutation then lands on a record on which its own rules
  would have refused it.
\<close>

theorem exempt_request_reopens_window:
  "\<exists>t pre cur. contends demo_env race_jobs race_start t \<and> (0, pre, cur) \<in> set (s_log t) \<and> \<not> job_exempt (race_jobs 0)
     \<and> job_allows demo_env (race_jobs 0) pre \<and> \<not> job_allows demo_env (race_jobs 0) cur"
proof -
  let ?E = demo_env and ?J = race_jobs and ?x = "(''z1'', ''rec1'')"
  let ?s1 = "race_start\<lparr>s_lock := (s_lock race_start)(job_lock ?E (?J 0) \<mapsto> 0), s_phase := (s_phase race_start)(0 := Holding)\<rparr>"
  let ?s2 = "?s1\<lparr>s_phase := (s_phase ?s1)(0 := Fetched (s_cloud ?s1 (job_target (?J 0))))\<rparr>"
  let ?s3 = "?s2\<lparr>s_phase := (s_phase ?s2)(1 := Fetched (s_cloud ?s2 (job_target (?J 1))))\<rparr>"
  let ?s4 = "?s3\<lparr>s_phase := (s_phase ?s3)(1 := Leaving), s_cloud := (s_cloud ?s3)(job_target (?J 1) := renamed_record),
      s_log := s_log ?s3 @ [(1, demo_record, s_cloud ?s3 (job_target (?J 1)))]\<rparr>"
  let ?s5 = "?s4\<lparr>s_phase := (s_phase ?s4)(0 := Leaving), s_cloud := (s_cloud ?s4)(job_target (?J 0) := demo_record),
      s_log := s_log ?s4 @ [(0, demo_record, s_cloud ?s4 (job_target (?J 0)))]\<rparr>"
  have "contend ?E ?J race_start ?s1" by (rule contend.lock_taken) (simp_all add: race_start_def race_facts)
  moreover have "contend ?E ?J ?s1 ?s2" by (rule contend.fetched) (simp add: race_facts)
  moreover have "contend ?E ?J ?s2 ?s3" by (rule contend.fetched) (use race_facts in \<open>simp add: race_start_def\<close>)
  moreover have "contend ?E ?J ?s3 ?s4"
    by (rule contend.forwarded) (use race_facts in \<open>simp_all add: race_start_def race_targets\<close>)
  moreover have "contend ?E ?J ?s4 ?s5"
    by (rule contend.forwarded) (use race_facts in \<open>simp_all add: race_start_def race_targets\<close>)
  ultimately have "contends ?E ?J race_start ?s5"
    by (intro contends.more [OF contends.more [OF contends.more [OF contends.more [OF contends.more [OF contends.idle]]]]])
  moreover have "(0, demo_record, renamed_record) \<in> set (s_log ?s5)" by (simp add: race_targets)
  ultimately show ?thesis using race_facts by blast
qed

section \<open>Witnesses\<close>

lemma locked_mutations_are_atomic_witness:
  "\<exists>t. contends demo_env (\<lambda>_. race_jobs 0) race_start t \<and> (0, demo_record, demo_record) \<in> set (s_log t)
     \<and> in_scope demo_env (j_rules (race_jobs 0)) ''PATCH'' ''z1'' ''rec1'' (j_body (race_jobs 0)) demo_record"
proof -
  let ?E = demo_env and ?J = "\<lambda>_::nat. race_jobs 0"
  let ?s1 = "race_start\<lparr>s_lock := (s_lock race_start)(job_lock ?E (?J 0) \<mapsto> 0), s_phase := (s_phase race_start)(0 := Holding)\<rparr>"
  let ?s2 = "?s1\<lparr>s_phase := (s_phase ?s1)(0 := Fetched (s_cloud ?s1 (job_target (?J 0))))\<rparr>"
  let ?s3 = "?s2\<lparr>s_phase := (s_phase ?s2)(0 := Leaving), s_cloud := (s_cloud ?s2)(job_target (?J 0) := demo_record),
      s_log := s_log ?s2 @ [(0, demo_record, s_cloud ?s2 (job_target (?J 0)))]\<rparr>"
  have "contend ?E ?J race_start ?s1" by (rule contend.lock_taken) (simp_all add: race_start_def race_facts)
  moreover have "contend ?E ?J ?s1 ?s2" by (rule contend.fetched) (simp add: race_facts)
  moreover have "contend ?E ?J ?s2 ?s3" by (rule contend.forwarded) (simp_all add: race_start_def race_facts)
  ultimately have run: "contends ?E ?J race_start ?s3"
    by (intro contends.more [OF contends.more [OF contends.more [OF contends.idle]]])
  have log: "(0, demo_record, demo_record) \<in> set (s_log ?s3)" by (simp add: race_start_def)
  have un: "uncontended race_start" by (simp add: uncontended_def race_start_def)
  have ne: "\<forall>n. job_target (?J n) = (''z1'', ''rec1'') \<longrightarrow> \<not> job_exempt (?J n)" by (simp add: race_facts)
  have m: "j_method (race_jobs 0) = ''PATCH''" by (simp add: race_jobs_def)
  have "in_scope demo_env (j_rules (race_jobs 0)) ''PATCH'' ''z1'' ''rec1'' (j_body (race_jobs 0)) demo_record"
    using locked_mutations_are_atomic [OF un run ne log race_targets] m by simp
  with run log show ?thesis by blast
qed

end
