(* ===== verification/Connections.thy ===== *)
theory Connections
  imports Interleave
begin

text \<open>
  The database connections of the process: the engines of \<^verbatim>\<open>db/session.py\<close> and who holds which of them
  after \<^verbatim>\<open>configure_engine\<close>; and how many connections by-id mutations hold while they wait. A request
  keeps the connection of its session from the lookup of its token to the audit row, and the lock of
  \<^verbatim>\<open>_mutate_dns_record_by_id\<close> takes a second one from the same pool. (A refresh of an OAuth token
  commits, which gives the first one back for that request; such requests are not in the model.)
\<close>

section \<open>Engines\<close>

text \<open>
  \<^verbatim>\<open>NullPool\<close> opens a connection for every use. SQLAlchemy's default pool has a limit, five and ten more
  unless it is configured otherwise; it is the parameter \<open>limit\<close>.
\<close>

datatype pool_class = Null_pool | Queue_pool

record db_engine =
  eng_url :: string
  eng_pool :: pool_class

definition create_engine :: "string \<Rightarrow> db_engine" where
  "create_engine url =
     (if py_startswith url ''sqlite'' then \<lparr>eng_url = url, eng_pool = Null_pool\<rparr>
      else \<lparr>eng_url = url, eng_pool = Queue_pool\<rparr>)"

definition connection_limit :: "nat \<Rightarrow> db_engine \<Rightarrow> nat option" where
  "connection_limit limit e = (if eng_pool e = Null_pool then None else Some limit)"

text \<open>
  The names that hold an engine or a session factory bound to one: the globals of \<^verbatim>\<open>db/session.py\<close>,
  and the names that \<^verbatim>\<open>main\<close>, \<^verbatim>\<open>proxy_dns\<close> and \<^verbatim>\<open>console\<close> import from it.
\<close>

record bindings =
  b_engine :: db_engine
  b_sessionmaker :: db_engine
  b_main_engine :: db_engine
  b_proxy_engine :: db_engine
  b_console_sessionmaker :: db_engine

definition load_modules :: "string \<Rightarrow> bindings" where
  "load_modules url = (let e = create_engine url in
     \<lparr>b_engine = e, b_sessionmaker = e, b_main_engine = e, b_proxy_engine = e, b_console_sessionmaker = e\<rparr>)"

definition configure_engine :: "string \<Rightarrow> bindings \<Rightarrow> bindings" where
  "configure_engine url b = b\<lparr>b_engine := create_engine url, b_sessionmaker := create_engine url\<rparr>"

definition get_session :: "bindings \<Rightarrow> db_engine" where
  "get_session b = b_sessionmaker b"

text \<open>
  After a reconfiguration the handlers' sessions are on the new database, but the mutation lock, the
  readiness probe, the shutdown and the console's own queries are still on the old one.
\<close>

lemma reconfiguration_splits:
  assumes "b = configure_engine url (load_modules old)"
  shows "eng_url (get_session b) = url" "eng_url (b_engine b) = url"
    "eng_url (b_proxy_engine b) = old" "eng_url (b_main_engine b) = old" "eng_url (b_console_sessionmaker b) = old"
  by (simp_all add: assms configure_engine_def load_modules_def create_engine_def get_session_def Let_def)

section \<open>Requests that take connections\<close>

text \<open>
  A by-id mutation: before its session has a connection, with it, with a second connection and waiting
  for the lock of its record, inside the lock, and gone.
\<close>

datatype progress = Arriving | With_session | With_connection | With_lock | Departed

fun held :: "progress \<Rightarrow> nat" where
  "held With_session = 1"
| "held With_connection = 2"
| "held With_lock = 2"
| "held _ = 0"

record traffic =
  p_free :: "nat option"
  p_lock :: "string \<Rightarrow> nat option"
  p_at :: "nat \<Rightarrow> progress"

definition take_one :: "nat option \<Rightarrow> nat option" where
  "take_one f = map_option (\<lambda>n. n - 1) f"

definition give_back :: "nat \<Rightarrow> nat option \<Rightarrow> nat option" where
  "give_back k f = map_option (\<lambda>n. n + k) f"

text \<open>The steps of \<open>count\<close> requests, and the waits that time out (of the pool, of the lock)\<close>

inductive pass :: "env \<Rightarrow> (nat \<Rightarrow> job) \<Rightarrow> nat \<Rightarrow> traffic \<Rightarrow> traffic \<Rightarrow> bool" for E jobs count where
  session_opened: "i < count \<Longrightarrow> p_at s i = Arriving \<Longrightarrow> p_free s \<noteq> Some 0 \<Longrightarrow>
    pass E jobs count s (s\<lparr>p_free := take_one (p_free s), p_at := (p_at s)(i := With_session)\<rparr>)"
| unlocked_mutation: "i < count \<Longrightarrow> p_at s i = With_session \<Longrightarrow> job_exempt (jobs i) \<Longrightarrow>
    pass E jobs count s (s\<lparr>p_free := give_back 1 (p_free s), p_at := (p_at s)(i := Departed)\<rparr>)"
| connected: "i < count \<Longrightarrow> p_at s i = With_session \<Longrightarrow> \<not> job_exempt (jobs i) \<Longrightarrow> p_free s \<noteq> Some 0 \<Longrightarrow>
    pass E jobs count s (s\<lparr>p_free := take_one (p_free s), p_at := (p_at s)(i := With_connection)\<rparr>)"
| lock_acquired: "i < count \<Longrightarrow> p_at s i = With_connection \<Longrightarrow> p_lock s (job_lock E (jobs i)) = None \<Longrightarrow>
    pass E jobs count s (s\<lparr>p_lock := (p_lock s)(job_lock E (jobs i) \<mapsto> i), p_at := (p_at s)(i := With_lock)\<rparr>)"
| locked_mutation: "i < count \<Longrightarrow> p_at s i = With_lock \<Longrightarrow>
    pass E jobs count s (s\<lparr>p_free := give_back 2 (p_free s), p_lock := (p_lock s)(job_lock E (jobs i) := None),
      p_at := (p_at s)(i := Departed)\<rparr>)"

inductive expire :: "nat \<Rightarrow> traffic \<Rightarrow> traffic \<Rightarrow> bool" for count where
  wait_expired: "i < count \<Longrightarrow> p_at s i \<noteq> With_lock \<Longrightarrow> p_at s i \<noteq> Departed \<Longrightarrow>
    expire count s (s\<lparr>p_free := give_back (held (p_at s i)) (p_free s), p_at := (p_at s)(i := Departed)\<rparr>)"

inductive passes :: "env \<Rightarrow> (nat \<Rightarrow> job) \<Rightarrow> nat \<Rightarrow> traffic \<Rightarrow> traffic \<Rightarrow> bool" for E jobs count s where
  none_passed: "passes E jobs count s s"
| passed: "passes E jobs count s t \<Longrightarrow> pass E jobs count t u \<Longrightarrow> passes E jobs count s u"
| expired: "passes E jobs count s t \<Longrightarrow> expire count t u \<Longrightarrow> passes E jobs count s u"

definition quiet :: "nat option \<Rightarrow> traffic" where
  "quiet limit = \<lparr>p_free = limit, p_lock = (\<lambda>_. None), p_at = (\<lambda>_. Arriving)\<rparr>"

text \<open>Somebody waits, and nothing happens before a wait times out.\<close>

definition deadlocked :: "env \<Rightarrow> (nat \<Rightarrow> job) \<Rightarrow> nat \<Rightarrow> traffic \<Rightarrow> bool" where
  "deadlocked E jobs count s \<longleftrightarrow> (\<forall>t. \<not> pass E jobs count s t) \<and> (\<exists>i < count. p_at s i \<noteq> Departed)"

definition lockers :: "(nat \<Rightarrow> job) \<Rightarrow> nat \<Rightarrow> nat set" where
  "lockers jobs count = {i. i < count \<and> \<not> job_exempt (jobs i)}"

section \<open>The invariant\<close>

definition in_use :: "nat \<Rightarrow> traffic \<Rightarrow> nat" where
  "in_use count s = (\<Sum>i<count. held (p_at s i))"

definition pool_inv :: "env \<Rightarrow> (nat \<Rightarrow> job) \<Rightarrow> nat \<Rightarrow> nat option \<Rightarrow> traffic \<Rightarrow> bool" where
  "pool_inv E jobs count limit s \<longleftrightarrow> limit = map_option (\<lambda>f. f + in_use count s) (p_free s)
     \<and> (\<forall>nm i. p_lock s nm = Some i \<longrightarrow> i < count \<and> p_at s i = With_lock \<and> nm = job_lock E (jobs i))"

lemma in_use_moved:
  assumes "i < count"
  shows "in_use count (s\<lparr>p_at := (p_at s)(i := x)\<rparr>) + held (p_at s i) = in_use count s + held x"
proof -
  have "(\<Sum>j<count. held (((p_at s)(i := x)) j)) = held x + (\<Sum>j \<in> {..<count} - {i}. held (p_at s j))"
    using assms by (subst sum.remove [of _ i]) (auto intro!: sum.cong)
  moreover have "(\<Sum>j<count. held (p_at s j)) = held (p_at s i) + (\<Sum>j \<in> {..<count} - {i}. held (p_at s j))"
    using assms by (subst sum.remove [of _ i]) auto
  ultimately show ?thesis by (simp add: in_use_def)
qed

lemma in_use_only_at: "in_use count (t\<lparr>p_free := f\<rparr>) = in_use count t" "in_use count (t\<lparr>p_lock := l\<rparr>) = in_use count t"
  by (simp_all add: in_use_def)

lemma pool_inv_pass:
  assumes "pass E jobs count s t" and "pool_inv E jobs count limit s" shows "pool_inv E jobs count limit t"
  using assms
proof (cases rule: pass.cases)
  case (session_opened i)
  with in_use_moved [of i count s With_session] assms(2) show ?thesis
    by (cases "p_free s") (auto simp: pool_inv_def take_one_def in_use_def)
next
  case (unlocked_mutation i)
  with in_use_moved [of i count s Departed] assms(2) show ?thesis
    by (cases "p_free s") (auto simp: pool_inv_def give_back_def in_use_def)
next
  case (connected i)
  with in_use_moved [of i count s With_connection] assms(2) show ?thesis
    by (cases "p_free s") (auto simp: pool_inv_def take_one_def in_use_def)
next
  case (lock_acquired i)
  with in_use_moved [of i count s With_lock] assms(2) show ?thesis
    by (cases "p_free s") (auto simp: pool_inv_def in_use_def)
next
  case (locked_mutation i)
  with in_use_moved [of i count s Departed] assms(2) show ?thesis
    by (cases "p_free s") (auto simp: pool_inv_def give_back_def in_use_def split: if_splits)
qed

lemma pool_inv_expire:
  assumes "expire count s t" and "pool_inv E jobs count limit s" shows "pool_inv E jobs count limit t"
  using assms
proof (cases rule: expire.cases)
  case (wait_expired i)
  with in_use_moved [of i count s Departed] assms(2) show ?thesis
    by (cases "p_free s") (auto simp: pool_inv_def give_back_def in_use_def)
qed

lemma pool_inv_passes: "passes E jobs count (quiet limit) t \<Longrightarrow> pool_inv E jobs count limit t"
proof (induction rule: passes.induct)
  case none_passed
  then show ?case by (cases limit) (auto simp: pool_inv_def quiet_def in_use_def)
qed (blast intro: pool_inv_pass pool_inv_expire)+

section \<open>When everybody waits for a connection\<close>

lemma deadlock_shape:
  assumes "deadlocked E jobs count s" and "pool_inv E jobs count limit s"
  shows "p_free s = Some 0" and "\<And>i. i < count \<Longrightarrow> p_at s i = Arriving \<or> p_at s i = Departed \<or> p_at s i = With_session \<and> \<not> job_exempt (jobs i)"
proof -
  have no: "\<not> pass E jobs count s t" for t using assms(1) by (simp add: deadlocked_def)
  have in_lock: "p_at s i \<noteq> With_lock" if "i < count" for i using no pass.locked_mutation [OF that] by blast
  have "p_lock s nm = None" for nm
    using assms(2) in_lock by (cases "p_lock s nm") (auto simp: pool_inv_def)
  then have waiting: "p_at s i \<noteq> With_connection" if "i < count" for i using no pass.lock_acquired [OF that] by blast
  have exempt: "p_at s i = With_session \<Longrightarrow> \<not> job_exempt (jobs i)" if "i < count" for i
    using no pass.unlocked_mutation [OF that] by blast
  show "p_at s i = Arriving \<or> p_at s i = Departed \<or> p_at s i = With_session \<and> \<not> job_exempt (jobs i)" if "i < count" for i
    using in_lock [OF that] waiting [OF that] exempt [OF that] by (cases "p_at s i") auto
  obtain i where i: "i < count" "p_at s i \<noteq> Departed" using assms(1) by (auto simp: deadlocked_def)
  then show "p_free s = Some 0"
    using no pass.session_opened [OF i(1)] pass.connected [OF i(1)] in_lock waiting exempt by (cases "p_at s i") blast+
qed

lemma deadlock_needs_lockers:
  assumes "deadlocked E jobs count s" and "pool_inv E jobs count limit s"
  shows "\<exists>n. limit = Some n \<and> n \<le> card (lockers jobs count)"
proof -
  note shape = deadlock_shape [OF assms]
  have "held (p_at s i) \<le> (if i \<in> lockers jobs count then 1 else 0)" if "i < count" for i
    using shape(2) [OF that] that by (auto simp: lockers_def)
  then have "in_use count s \<le> (\<Sum>i<count. if i \<in> lockers jobs count then 1 else 0)"
    unfolding in_use_def by (intro sum_mono) auto
  also have "\<dots> = card (lockers jobs count)"
    by (simp add: sum.If_cases lockers_def Int_def conj_commute)
  finally show ?thesis using shape(1) assms(2) by (auto simp: pool_inv_def)
qed

text \<open>The first requests that need the lock open their sessions and use the pool up.\<close>

lemma sessions_opened:
  assumes "finite S"
  shows "S \<subseteq> {..<count} \<Longrightarrow> card S \<le> limit \<Longrightarrow> passes E jobs count (quiet (Some limit))
     \<lparr>p_free = Some (limit - card S), p_lock = (\<lambda>_. None), p_at = (\<lambda>i. if i \<in> S then With_session else Arriving)\<rparr>"
  using assms
proof (induction S)
  case empty
  then show ?case using passes.none_passed [of E jobs count "quiet (Some limit)"] by (simp add: quiet_def)
next
  case (insert i S)
  let ?s = "\<lparr>p_free = Some (limit - card S), p_lock = (\<lambda>_. None), p_at = (\<lambda>i. if i \<in> S then With_session else Arriving)\<rparr>"
  have i: "i < count" "card S < limit" using insert by auto
  have "pass E jobs count ?s (?s\<lparr>p_free := take_one (p_free ?s), p_at := (p_at ?s)(i := With_session)\<rparr>)"
    by (rule pass.session_opened) (use i insert.hyps in auto)
  moreover have "?s\<lparr>p_free := take_one (p_free ?s), p_at := (p_at ?s)(i := With_session)\<rparr>
      = \<lparr>p_free = Some (limit - card (insert i S)), p_lock = (\<lambda>_. None), p_at = (\<lambda>j. if j \<in> insert i S then With_session else Arriving)\<rparr>"
    using insert.hyps by (auto simp: take_one_def)
  ultimately show ?case using insert i passes.passed by fastforce
qed

lemma lockers_deadlock:
  assumes "S \<subseteq> lockers jobs count" and "card S = limit" and "0 < limit"
  shows "deadlocked E jobs count \<lparr>p_free = Some 0, p_lock = (\<lambda>_. None), p_at = (\<lambda>i. if i \<in> S then With_session else Arriving)\<rparr>"
proof -
  obtain i where "i \<in> S" using assms(2,3) by fastforce
  then have "i < count" using assms(1) by (auto simp: lockers_def)
  then show ?thesis
    using assms(1) by (auto simp: deadlocked_def lockers_def elim!: pass.cases split: if_splits)
qed

text \<open>Runs without time-outs end: every step brings one request closer to its answer.\<close>

fun steps_left :: "progress \<Rightarrow> nat" where
  "steps_left Arriving = 4"
| "steps_left With_session = 3"
| "steps_left With_connection = 2"
| "steps_left With_lock = 1"
| "steps_left Departed = 0"

lemma pass_decreases:
  assumes "pass E jobs count s t"
  shows "(\<Sum>i<count. steps_left (p_at t i)) < (\<Sum>i<count. steps_left (p_at s i))"
proof -
  obtain i x where "i < count" "p_at t = (p_at s)(i := x)" "steps_left x < steps_left (p_at s i)"
    using assms by (cases rule: pass.cases) auto
  then show ?thesis by (intro sum_strict_mono_ex1) auto
qed

section \<open>Properties\<close>

text \<open>
  C11: the mutations of one process can deadlock on the connection pool exactly when those that take
  the lock are as many as the pool has connections: with fewer of them (or on SQLite, whose pool has
  no limit) somebody can go on as long as not all are answered, whatever waits time out, and since every
  step brings a request closer to its answer (\<open>pass_decreases\<close>) all are; with as many, there is a run
  after which every connection is held by a request that waits for a second one.
\<close>

theorem pool_deadlock_iff:
  assumes "0 < limit"
  shows "(\<exists>t. passes E jobs count (quiet (connection_limit limit (create_engine url))) t \<and> deadlocked E jobs count t)
     \<longleftrightarrow> \<not> py_startswith url ''sqlite'' \<and> limit \<le> card (lockers jobs count)"
    (is "?dead \<longleftrightarrow> ?many")
proof
  assume ?dead
  then show ?many
    using deadlock_needs_lockers [OF _ pool_inv_passes]
    by (fastforce simp: connection_limit_def create_engine_def split: if_splits)
next
  assume many: ?many
  then obtain S where S: "S \<subseteq> lockers jobs count" "card S = limit" "finite S" by (meson obtain_subset_with_card_n)
  have "S \<subseteq> {..<count}" using S(1) by (auto simp: lockers_def)
  from sessions_opened [OF S(3) this, of limit E jobs] S(2) many
  have "passes E jobs count (quiet (connection_limit limit (create_engine url)))
      \<lparr>p_free = Some 0, p_lock = (\<lambda>_. None), p_at = (\<lambda>i. if i \<in> S then With_session else Arriving)\<rparr>"
    by (simp add: connection_limit_def create_engine_def)
  with lockers_deadlock [OF S(1,2) assms] show ?dead by blast
qed

text \<open>Two requests for one record and a pool of two connections\<close>

lemma pool_deadlock_iff_witness:
  "\<exists>t. passes demo_env (\<lambda>_. race_jobs 0) 2 (quiet (connection_limit 2 (create_engine ''mysql+aiomysql://db/cfproxy''))) t
     \<and> deadlocked demo_env (\<lambda>_. race_jobs 0) 2 t"
proof -
  have l: "lockers (\<lambda>_. race_jobs 0) 2 = {..<2}" using race_facts by (auto simp: lockers_def)
  have u: "\<not> py_startswith ''mysql+aiomysql://db/cfproxy'' ''sqlite''" by (simp add: py_startswith_def)
  show ?thesis
    using pool_deadlock_iff [of 2 demo_env "\<lambda>_. race_jobs 0" 2 "''mysql+aiomysql://db/cfproxy''"] u by (simp add: l)
qed

end
