(* ===== verification/Console.thy ===== *)
theory Console
  imports Operations
begin

text \<open>
  The command line of the console (\<^verbatim>\<open>cli/console.py\<close>): the parser that \<^verbatim>\<open>build_console_parser\<close> describes
  and the run of \<^verbatim>\<open>main\<close> on an argument vector. \<^verbatim>\<open>argparse\<close> leaves the process on a usage error and on
  \<^verbatim>\<open>--help\<close> alike; both are \<open>None\<close> here. The argument \<^verbatim>\<open>--\<close> is a usage error, as Python 3.11 has it (for
  some positions later versions accept it).
\<close>

section \<open>The parser\<close>

text \<open>An option that takes one value: its name, and whether it is required\<close>

record subparser =
  sp_command :: string
  sp_options :: "(string \<times> bool) list"

definition build_console_parser :: "subparser list" where
  "build_console_parser = [
     \<lparr>sp_command = ''init-db'', sp_options = []\<rparr>,
     \<lparr>sp_command = ''bootstrap-admin'', sp_options = [(''--email'', True), (''--password'', True)]\<rparr>,
     \<lparr>sp_command = ''discover-scope'', sp_options = []\<rparr>,
     \<lparr>sp_command = ''tail-audit'', sp_options = [(''--limit'', False)]\<rparr>,
     \<lparr>sp_command = ''health'', sp_options = []\<rparr>]"

section \<open>Arguments\<close>

text \<open>
  How \<^verbatim>\<open>argparse\<close> reads one argument: a value; an option, perhaps with its value after \<^verbatim>\<open>=\<close>; or what
  ends the process (help, an unknown or ambiguous option).
\<close>

datatype argument = Value string | Option string "string option" | Ends

text \<open>\<^verbatim>\<open>^-\d+$|^-\d*\.\d+$\<close>, where \<^verbatim>\<open>$\<close> also stands before a last line feed\<close>

definition all_digits :: "string \<Rightarrow> bool" where
  "all_digits s \<longleftrightarrow> s \<noteq> [] \<and> list_all (\<lambda>c. digit_val c \<noteq> None) s"

definition negative_number :: "string \<Rightarrow> bool" where
  "negative_number s = (case s of [] \<Rightarrow> False | c # cs \<Rightarrow> c = CHR ''-'' \<and>
     (let t = (if cs \<noteq> [] \<and> last cs = CHR 0x0A then butlast cs else cs); (whole, fraction) = py_partition CHR ''.'' t
      in all_digits t \<or> (CHR ''.'' \<in> set t \<and> (whole = [] \<or> all_digits whole) \<and> all_digits fraction)))"

definition unmatched :: "string \<Rightarrow> argument" where
  "unmatched arg = (if negative_number arg \<or> CHR '' '' \<in> set arg then Value arg else Ends)"

text \<open>Every prefix of an option that begins with two dashes and is one option's only names it.\<close>

definition read_argument :: "string list \<Rightarrow> string \<Rightarrow> argument" where
  "read_argument opts arg =
     (let (name, given) = py_partition CHR ''='' arg; v = (if CHR ''='' \<in> set arg then Some given else None) in
      if \<not> py_startswith arg ''-'' \<or> arg = ''-'' then Value arg
      else if arg = ''--'' then Ends
      else if arg \<in> set opts then Option arg None
      else if v \<noteq> None \<and> name \<in> set opts then Option name v
      else if py_startswith arg ''--'' then
        (case filter (\<lambda>q. py_startswith q name) (''--help'' # opts) of
           [q] \<Rightarrow> if q = ''--help'' then Ends else Option q v
         | [] \<Rightarrow> unmatched arg
         | _ \<Rightarrow> Ends)
      else if py_startswith arg ''-h'' then Ends
      else unmatched arg)"

text \<open>The arguments of a command in order: every value belongs to the option before it.\<close>

fun consume :: "argument list \<Rightarrow> (string \<times> string) list option" where
  "consume [] = Some []"
| "consume (Option q (Some v) # rest) = map_option (Cons (q, v)) (consume rest)"
| "consume (Option q None # Value v # rest) = map_option (Cons (q, v)) (consume rest)"
| "consume _ = None"

text \<open>The namespace: the last value that an option is given counts; the required ones are there.\<close>

definition option_value :: "(string \<times> string) list \<Rightarrow> string \<Rightarrow> string option" where
  "option_value kvs q = map_of (rev kvs) q"

definition parse_options :: "subparser \<Rightarrow> string list \<Rightarrow> (string \<times> string) list option" where
  "parse_options p args =
     (case consume (map (read_argument (map fst (sp_options p))) args) of
        None \<Rightarrow> None
      | Some kvs \<Rightarrow> if list_all (\<lambda>(q, needed). needed \<longrightarrow> option_value kvs q \<noteq> None) (sp_options p) then Some kvs else None)"

definition parse_limit :: "string option \<Rightarrow> int option" where
  "parse_limit v = (case v of None \<Rightarrow> Some 20 | Some s \<Rightarrow> (case py_int s of Inl _ \<Rightarrow> None | Inr n \<Rightarrow> Some n))"

definition command_of :: "string \<Rightarrow> (string \<times> string) list \<Rightarrow> console_command option" where
  "command_of name kvs =
     (if name = ''init-db'' then Some Init_db
      else if name = ''bootstrap-admin'' then
        Some (Bootstrap_admin (the (option_value kvs ''--email'')) (the (option_value kvs ''--password'')))
      else if name = ''discover-scope'' then Some Discover_scope
      else if name = ''tail-audit'' then map_option Tail_audit (parse_limit (option_value kvs ''--limit''))
      else if name = ''health'' then Some Health
      else None)"

fun parse_args :: "string list \<Rightarrow> console_command option" where
  "parse_args [] = None"
| "parse_args (name # args) =
     (case find (\<lambda>p. sp_command p = name) build_console_parser of
        None \<Rightarrow> None
      | Some p \<Rightarrow> Option.bind (parse_options p args) (command_of name))"

text \<open>\<^verbatim>\<open>main\<close>: no run of a command when the parser leaves the process\<close>

definition run_console :: "(datetime \<Rightarrow> string) \<Rightarrow> (json \<Rightarrow> string) \<Rightarrow> env \<Rightarrow> libs \<Rightarrow> (world, unit) prog \<Rightarrow> string list
    \<Rightarrow> (world, string list) prog option" where
  "run_console fmt shw E L select_one argv = map_option (console_main fmt shw E L select_one) (parse_args argv)"

section \<open>Lemmas\<close>

lemma digit_val_char: "n < 10 \<Longrightarrow> digit_val (digit_char n) = Some (int n)"
  by (simp add: digit_val_def digit_char_def Let_def)

lemma digits_from_append:
  "list_all (\<lambda>c. digit_val c \<noteq> None) s \<Longrightarrow> digits_from acc (s @ t) = Option.bind (digits_from acc s) (\<lambda>n. digits_from n t)"
  by (induction s arbitrary: acc) auto

lemma nat_str_all_digits: "all_digits (nat_str n)"
  unfolding all_digits_def list_all_iff using nat_str_digits digit_val_char by fastforce

lemma digits_from_nat_str:
  "\<exists>k. digits_from acc (nat_str n) = Some (acc * 10 ^ k + int n)"
proof (induction n arbitrary: acc rule: nat_str.induct)
  case (1 n)
  show ?case
  proof (cases "n < 10")
    case True
    then have "digits_from acc (nat_str n) = Some (acc * 10 ^ 1 + int n)"
      by (subst nat_str.simps) (simp add: digit_val_char)
    then show ?thesis by blast
  next
    case False
    then obtain k where k: "digits_from acc (nat_str (n div 10)) = Some (acc * 10 ^ k + int (n div 10))" using 1 by blast
    have "list_all (\<lambda>c. digit_val c \<noteq> None) (nat_str (n div 10))"
      using nat_str_all_digits by (simp add: all_digits_def)
    then have "digits_from acc (nat_str n) = Some ((acc * 10 ^ k + int (n div 10)) * 10 + int (n mod 10))"
      using False k by (subst nat_str.simps) (simp add: digits_from_append digit_val_char)
    moreover have "int (n div 10) * 10 + int (n mod 10) = int n" by presburger
    ultimately have "digits_from acc (nat_str n) = Some (acc * 10 ^ Suc k + int n)" by (simp add: algebra_simps)
    then show ?thesis by blast
  qed
qed

lemma digits_val_nat_str: "digits_val (nat_str n) = Some (int n)"
proof -
  obtain c cs where c: "nat_str n = c # cs" by (cases "nat_str n") simp_all
  then have "digit_val c \<noteq> None" using nat_str_all_digits [of n] by (simp add: all_digits_def)
  then have "digits_val (nat_str n) = digits_from 0 (nat_str n)" by (auto simp: c digits_val_def)
  then show ?thesis using digits_from_nat_str [of 0 n] by simp
qed

lemma not_space_digit: "digit_val c \<noteq> None \<Longrightarrow> \<not> py_isspace c"
  by (auto simp: digit_val_def py_isspace_def Let_def split: if_splits)

lemma py_int_str: "py_int (int_str n) = Inr n"
proof -
  have d: "list_all (\<lambda>c. digit_val c \<noteq> None) (nat_str m)" for m
    using nat_str_all_digits by (simp add: all_digits_def)
  have s: "py_strip (nat_str m) = nat_str m" "py_strip (CHR ''-'' # nat_str m) = CHR ''-'' # nat_str m" for m
  proof -
    have "list_all (\<lambda>c. \<not> py_isspace c) (nat_str m)" using d [of m] not_space_digit by (simp add: list_all_iff)
    then show "py_strip (nat_str m) = nat_str m" "py_strip (CHR ''-'' # nat_str m) = CHR ''-'' # nat_str m"
      by (auto intro!: py_strip_no_space simp: py_isspace_def)
  qed
  have h: "\<exists>c cs. nat_str m = c # cs \<and> c \<noteq> CHR ''-'' \<and> c \<noteq> CHR ''+''" for m
    using d [of m] by (cases "nat_str m") (auto simp: digit_val_def Let_def)
  show ?thesis
  proof (cases "n < 0")
    case True
    then show ?thesis by (simp add: int_str_def py_int_def Let_def s digits_val_nat_str)
  next
    case False
    obtain c cs where c: "nat_str (nat n) = c # cs" "c \<noteq> CHR ''-''" "c \<noteq> CHR ''+''" using h by blast
    have "digits_val (c # cs) = Some n" using digits_val_nat_str [of "nat n"] False c(1) by simp
    then show ?thesis using False c s(1) [of "nat n"] by (simp add: int_str_def py_int_def Let_def)
  qed
qed

text \<open>An option with its value in one argument is read as it is, whatever the value.\<close>

lemma read_joined:
  assumes "q \<in> set opts" and "CHR ''='' \<notin> set q" and "py_startswith q ''--''" and "q \<noteq> ''--''" and "\<forall>p \<in> set opts. CHR ''='' \<notin> set p"
  shows "read_argument opts (q @ CHR ''='' # v) = Option q (Some v)"
proof -
  obtain t where q: "q = ''--'' @ t" using assms(3) by (auto simp: py_startswith_iff)
  have "q @ CHR ''='' # v \<notin> set opts" using assms(5) by (metis in_set_conv_decomp)
  then show ?thesis
    using assms(1,4) py_partition_append [OF assms(2), of v]
    by (simp add: read_argument_def q py_startswith_def)
qed

section \<open>Properties\<close>

text \<open>The argument vector that asks for a command\<close>

fun argv_of :: "console_command \<Rightarrow> string list" where
  "argv_of Init_db = [''init-db'']"
| "argv_of (Bootstrap_admin email password) = [''bootstrap-admin'', ''--email='' @ email, ''--password='' @ password]"
| "argv_of Discover_scope = [''discover-scope'']"
| "argv_of (Tail_audit limit) = [''tail-audit'', ''--limit='' @ int_str limit]"
| "argv_of Health = [''health'']"

text \<open>
  Every command can be asked for: its argument vector is parsed to exactly that command, with any
  email, password (leading dashes, blanks and equality signs included) and limit, and \<^verbatim>\<open>main\<close> runs it.
\<close>

theorem command_line_roundtrip:
  "parse_args (argv_of c) = Some c
   \<and> run_console fmt shw E L select_one (argv_of c) = Some (console_main fmt shw E L select_one c)"
proof -
  have b: "read_argument [''--email'', ''--password''] (''--email='' @ v) = Option ''--email'' (Some v)"
    "read_argument [''--email'', ''--password''] (''--password='' @ v) = Option ''--password'' (Some v)"
    "read_argument [''--limit''] (''--limit='' @ v) = Option ''--limit'' (Some v)" for v
    using read_joined [of "''--email''" "[''--email'', ''--password'']" v] read_joined [of "''--password''" "[''--email'', ''--password'']" v]
      read_joined [of "''--limit''" "[''--limit'']" v]
    by (simp_all add: py_startswith_def)
  have "parse_args (argv_of c) = Some c"
    by (cases c)
      (simp_all add: build_console_parser_def parse_options_def option_value_def command_of_def b [simplified] parse_limit_def py_int_str)
  then show ?thesis by (simp add: run_console_def)
qed

text \<open>
  The parser refuses an account without an email or a password, so the quickstart of the README,
  \<^verbatim>\<open>bootstrap-admin\<close> without arguments, runs nothing.
\<close>

lemma readme_quickstart_refused: "run_console fmt shw E L select_one [''bootstrap-admin''] = None"
  by (simp add: run_console_def build_console_parser_def parse_options_def option_value_def)

end
