(* ===== verification/Spec2Isabelle.thy ===== *)
theory Spec2Isabelle
  imports Shapes RateLimit Refresh Connections Console
begin

text \<open>
  A verification development for cfproxy, a proxy in front of the Cloudflare API that issues
  record-scoped tokens. All paths below are relative to \<^verbatim>\<open>src/src/cfproxy\<close>.

  \<^bold>\<open>The program.\<close> Operators log in on the management plane (\<^verbatim>\<open>/api/v1\<close>), with a password or through
  Cloudflare's OAuth, register Cloudflare credentials and mint scoped tokens: a list of rules,
  each with a zone, a name pattern, record types, record ids and four permissions. Clients use a
  scoped token on the machine plane (\<^verbatim>\<open>/client/v4\<close>) as if it were a Cloudflare token. For each
  request the proxy resolves the token in the database (the rules may come from Redis), fetches
  the record that the request names, decides, swaps the credential, forwards, and audits. By-id
  mutations hold a lock of the record from the fetch to the forward.

  \<^bold>\<open>Modelling.\<close> An effectful function is a program: it maps a world to a result or a raised exception
  and a new world, and what happened before a raise stays (theory \<open>Prelude\<close>). The world (theory
  \<open>Models\<close>) holds the committed tables, the Redis entries with their expiry, the module-level
  state (the pinned client, the JWKS cache), the clock, and the trace of requests sent and locks
  taken. What the sources do not decide is in the environment \<open>env\<close>: Cloudflare's answer to a
  request as a function of the whole trace, whether the n-th Redis call, commit or lock request
  succeeds, random bytes and UUIDs, Fernet, SHA-256, the JSON codec, the IDNA codec outside ASCII,
  whether time stamps come back naive from the database; PyJWT and argon2 are in \<open>libs\<close>. Python
  strings are the code points up to 255, numbers unbounded integers, JSON a datatype with Python's
  truth, equality and dictionary access. A transaction is \<open>commit_db\<close>: it applies a change, or
  fails on a constraint or on the database and changes no table. One run of a handler is one step
  of the sequential model; \<open>Interleave\<close>, \<open>Refresh\<close> and \<open>Connections\<close> split the runs whose interleaving matters
  at their awaits.

  \<^bold>\<open>Theories.\<close>

  \<^item> \<open>Prelude\<close>, \<open>PyStr\<close>, \<open>Json\<close>, \<open>Encoding\<close>: exceptions, programs and the predicate \<open>keeps\<close> with its rules;
    Python's \<^verbatim>\<open>str\<close> methods, \<^verbatim>\<open>repr\<close> and \<^verbatim>\<open>int\<close>; JSON values; base64url, percent-encoding and UTF-8.

  \<^item> \<open>Scope\<close> (\<^verbatim>\<open>authz/scope.py\<close>) and \<open>Authorizer\<close> (\<^verbatim>\<open>authz/authorizer.py\<close>): normalization, patterns, matching
    of rules, and the decision for each method. The label loop is proved equal to the declarative
    wildcard relation, \<open>match_rules\<close> to the relation \<open>grants\<close>, and validated patterns to stay in
    their zone, with the two exceptions that are listed as findings.

  \<^item> \<open>Envelopes\<close> (\<^verbatim>\<open>core/envelopes.py\<close>, \<^verbatim>\<open>core/cf_errors.py\<close>), \<open>ListFilter\<close> (\<^verbatim>\<open>filtering/list_filter.py\<close>): the two
    envelopes; filtering, and pages that partition the filtered list (locale \<open>paged_listing\<close>).

  \<^item> \<open>Models\<close> (\<^verbatim>\<open>db/models.py\<close>, \<^verbatim>\<open>config.py\<close>), \<open>Crypto\<close> (\<^verbatim>\<open>core/crypto.py\<close>), \<open>Cache\<close> (\<^verbatim>\<open>cache/redis.py\<close>, locale
    \<open>tolerant_cache\<close>), \<open>Locks\<close> (\<^verbatim>\<open>db/locks.py\<close>), \<open>AuditService\<close> (\<^verbatim>\<open>services/audit_service.py\<close>).

  \<^item> \<open>Upstream\<close> (\<^verbatim>\<open>upstream/client.py\<close>): the pinned origin, the exchange of authentication headers, the
    page loop and the refresh of OAuth tokens.

  \<^item> \<open>ProxyAuth\<close> (\<^verbatim>\<open>auth/proxy_auth.py\<close>): the resolution of a token, its reference \<open>db_resolve\<close> without a
    cache, and the coherence of the rules cache under which the two agree.

  \<^item> \<open>ProxyDns\<close> (\<^verbatim>\<open>routers/proxy_dns.py\<close>): the endpoints of the machine plane, what each adds to the trace
    and to the audit log.

  \<^item> \<open>CredentialService\<close>, \<open>TokenService\<close>, \<open>Management\<close> (\<^verbatim>\<open>services/\<close>, \<^verbatim>\<open>routers/credentials.py\<close>,
    \<^verbatim>\<open>routers/tokens.py\<close>, \<^verbatim>\<open>routers/audit.py\<close>, \<^verbatim>\<open>core/security.py\<close>): the management operations; the locale
    \<open>owned_lookup\<close> is the contract of the two lookups by owner.

  \<^item> \<open>OAuth\<close> (\<^verbatim>\<open>auth/oauth_cf.py\<close>, \<^verbatim>\<open>services/oauth_service.py\<close>), \<open>Accounts\<close> (\<^verbatim>\<open>routers/auth.py\<close>): PKCE, the id
    token, the callback, and local accounts.

  \<^item> \<open>App\<close> (\<^verbatim>\<open>main.py\<close>, \<^verbatim>\<open>routers/proxy_verify.py\<close>, \<^verbatim>\<open>routers/proxy_blocked.py\<close>): exception handlers and routes.

  \<^item> \<open>System\<close>: every endpoint as a call with its handler, and the locales \<open>upstream_invariant\<close> and
    \<open>handler_invariant\<close>, which carry an invariant through every handler from the few primitive
    operations it has to survive. \<open>Deployment\<close>: the transitions of a running service and five
    interpretations (the schema's constraints, the pinned client, the coherent cache, unmoved
    tokens, revoked rows), from which the properties of all reachable worlds follow. \<open>Surfaces\<close>:
    which envelope each call is answered with.

  \<^item> \<open>Operations\<close> (\<^verbatim>\<open>cli/console.py\<close>, \<^verbatim>\<open>db/session.py\<close>, the lifespan and probes of \<^verbatim>\<open>main.py\<close>) and
    \<open>Console\<close>: the argument parser, as far as \<^verbatim>\<open>build_console_parser\<close> uses \<^verbatim>\<open>argparse\<close>. The operator's
    commands are transitions of \<open>Deployment\<close>.

  \<^item> \<open>Requests\<close> (the request models of \<^verbatim>\<open>schemas/management.py\<close>, the routes of the management routers): a
    request from its path, query and body to the call that \<open>System\<close> handles, or to the validation error.

  \<^item> \<open>Documented\<close>: the decorators of all routes with their documented responses; \<open>Examples\<close>: the documented
    example of every model; \<open>Shapes\<close> (\<^verbatim>\<open>schemas/cloudflare.py\<close>): the Cloudflare models as what they
    validate. The handlers are proved to answer what is documented, in Cloudflare's shape.

  \<^item> \<open>RateLimit\<close>: sequences of \<^verbatim>\<open>rate_limit_incr\<close> (\<^verbatim>\<open>cache/redis.py\<close>).

  \<^item> \<open>Interleave\<close>: requests that contend for the lock of a record, step by step. \<open>Refresh\<close>: concurrent
    \<^verbatim>\<open>get_valid_access_token\<close> of one credential; a single run of its steps is the sequential function
    (\<open>alone_as_sequential\<close>). \<open>Connections\<close>: the engines of \<^verbatim>\<open>db/session.py\<close>, and the pool connections that
    by-id mutations hold while they wait for another one or for the lock.

  \<^bold>\<open>What the properties say.\<close> At the top, every mutation that leaves the proxy in any reachable world is
  authorized by the rules that the database holds for the presented token, the cache never shows
  other rules than the database, a revoked token never comes back, and mutations of one record
  under the lock take effect on the record on which they were authorized. Below, each component
  has its functional behaviour, error cases included: decisions, listings, audit rows, lifecycle
  of tokens and credentials, logins. Concurrent refreshes are fenced by the credential's version; what
  the check inside the row lock guarantees depends on what the locked select reads, and both cases
  are stated. Mutations can deadlock on the connection pool exactly from a number on that is given.

  \<^bold>\<open>Fuel.\<close> The two page loops and the zone loop follow what Cloudflare answers and need not end; they
  carry fuel and end in \<open>Diverges\<close> without it. \<open>list_all_records_returns\<close> proves that fuel for the
  number of pages gives the result. Invariants and safety hold for every amount of fuel.

  \<^bold>\<open>Assumptions.\<close> String equality in the database is exact (a binary collation). Ties of time stamps
  are listed in insertion order. \<^verbatim>\<open>time.monotonic\<close> and the time of day are one clock, of which
  differences are used. A transition in which a new lookup id hits one under which Redis still
  holds rules is left out of \<open>reachable\<close> (\<open>fresh_lookups\<close>; the id has 16 random characters of 62).
  In \<open>Interleave\<close> a lock is exclusive and is held until it is released, and nobody else changes
  the record at Cloudflare. In \<open>Refresh\<close> MySQL's row lock is exclusive until the transaction ends, other
  writers never turn a row's version back, and what the locked select gives back for a row that the
  session holds is a parameter. The limit of the connection pool is a parameter (SQLAlchemy's default
  is 15). FastAPI picks the first registered route that matches, and rejects a body that is not JSON
  before the dependencies run, other invalid parameters after them. Pydantic takes fields by name,
  ignores unknown ones and uses the defaults; its conversions of single values are a parameter.

  \<^bold>\<open>Not modelled.\<close> The rendering of time stamps (an argument); FastAPI's own answers to requests that no
  route takes; logging and the styling of the console's output; what engines, sessions and clients
  do inside; column lengths; the interleaving of handlers other than by-id mutations and token
  refreshes.
\<close>

end
